theory Spec2Isabelle
  imports Complex_Main
begin

section \<open>Constants of stereo-img.js\<close>

text \<open>
  Times are whole milliseconds. Coordinates and angles of the scene are written as the
  real numbers that their doubles denote; they are stored and handed to the rendering
  library, and nothing below rests on how a double rounds.
\<close>

definition PREV_NEXT_TIMEOUT_MS :: nat where
  "PREV_NEXT_TIMEOUT_MS = 1000"

definition PREV_NEXT_BUTTONS_Z :: real where
  "PREV_NEXT_BUTTONS_Z = 92 / 10"

section \<open>JavaScript values and DOM attributes\<close>

text \<open>
  The values a page script can hand to the property setters. Strict equality \<^verbatim>\<open>===\<close> on
  these primitive values is HOL equality. Numbers and objects, whose conversion to an
  attribute string is the engine's own, are left out.
\<close>

datatype jsval = JUndefined | JNull | JBool bool | JStr string

fun truthy :: "jsval \<Rightarrow> bool" where
  "truthy JUndefined = False"
| "truthy JNull = False"
| "truthy (JBool b) = b"
| "truthy (JStr s) = (s \<noteq> [])"

text \<open>The string that \<^verbatim>\<open>setAttribute(name, val)\<close> stores for \<^verbatim>\<open>val\<close>.\<close>

fun ToString :: "jsval \<Rightarrow> string" where
  "ToString JUndefined = ''undefined''"
| "ToString JNull = ''null''"
| "ToString (JBool b) = (if b then ''true'' else ''false'')"
| "ToString (JStr s) = s"

text \<open>\<^verbatim>\<open>getAttribute\<close> returns a string, or \<^verbatim>\<open>null\<close> when the attribute is absent.\<close>

fun attrVal :: "string option \<Rightarrow> jsval" where
  "attrVal None = JNull"
| "attrVal (Some v) = JStr v"

section \<open>Scene objects of the rendering library\<close>

text \<open>
  Only what the element writes is kept of the objects of the rendering library: an
  \<^verbatim>\<open>Object3D\<close> has a name, a position, Euler angles with their order, an up vector and
  the set of layers it belongs to (\<^verbatim>\<open>layers.set(n)\<close> makes \<open>n\<close> its only layer,
  \<^verbatim>\<open>layers.enable(n)\<close> adds layer \<open>n\<close>). The rotation that \<^verbatim>\<open>lookAt\<close> computes is not
  modelled. An image is a blank \<^verbatim>\<open>ImageData\<close> of a width and a height, a picture that a
  parser produced, known by a handle, or an \<^verbatim>\<open>Image\<close> element loading a URL. Of a material
  its texture or its colour is kept, of a sphere, ring or circle geometry the constructor's
  arguments, with the library's defaults written out.

  The last argument of a ring geometry, its sweep angle, is the library's default for the
  buttons. For the progress ring it is the number that
  \<^verbatim>\<open>linearScale(timeSinceStartedMS, 0, PREV_NEXT_TIMEOUT_MS, 0,
       this.timerRingForPrev ? Math.PI * 2 : -Math.PI * 2)\<close>
  returns. \<^verbatim>\<open>linearScale\<close> and \<^verbatim>\<open>clamp\<close> compute in IEEE 754 doubles, with
  rounding, infinities and NaN; that arithmetic is not modelled, and the ring keeps the
  two arguments of the call that vary: the elapsed time in milliseconds (\<open>None\<close> for the
  NaN that an \<^verbatim>\<open>undefined\<close> start time gives) and whether the upper output is
  \<^verbatim>\<open>Math.PI * 2\<close> rather than its negative.
\<close>

type_synonym vec3 = "real \<times> real \<times> real"

datatype image = ImageData nat nat | ParserImage nat | ImageElement string

datatype texture = Texture image

datatype material = MapMaterial texture | ColorMaterial nat

datatype sweep = DefaultSweep | LinearScaleOf "int option" bool

datatype geometry =
    SphereGeometry real nat nat real real real real
  | RingGeometry real real nat nat real sweep
  | CircleGeometry real nat

record object3D =
  name :: string
  position :: vec3
  rotationOrder :: string
  rotation :: vec3
  up :: vec3
  layers :: "nat set"

record mesh = object3D +
  geometry :: geometry
  geometryScale :: vec3
  material :: material

record group = object3D +
  children :: "mesh list"

datatype node = MeshNode mesh | GroupNode group

record scene =
  background :: nat
  sceneChildren :: "node list"

definition new_Mesh :: "geometry \<Rightarrow> material \<Rightarrow> mesh" where
  "new_Mesh g m =
     \<lparr>name = [], position = (0, 0, 0), rotationOrder = ''XYZ'', rotation = (0, 0, 0),
      up = (0, 1, 0), layers = {0}, geometry = g, geometryScale = (1, 1, 1), material = m\<rparr>"

definition new_Group :: group where
  "new_Group =
     \<lparr>name = [], position = (0, 0, 0), rotationOrder = ''XYZ'', rotation = (0, 0, 0),
      up = (0, 1, 0), layers = {0}, children = []\<rparr>"

definition new_Camera :: object3D where
  "new_Camera =
     \<lparr>name = [], position = (0, 0, 0), rotationOrder = ''XYZ'', rotation = (0, 0, 0),
      up = (0, 1, 0), layers = {0}\<rparr>"

definition new_Scene :: scene where
  "new_Scene = \<lparr>background = 0, sceneChildren = []\<rparr>"

text \<open>\<^verbatim>\<open>geometry.scale(x, y, z)\<close> multiplies the vertex coordinates.\<close>

definition scaleGeometry :: "vec3 \<Rightarrow> mesh \<Rightarrow> mesh" where
  "scaleGeometry v m =
     (case (v, geometryScale m) of
        ((x, y, z), (a, b, c)) \<Rightarrow> m\<lparr>geometryScale := (a * x, b * y, c * z)\<rparr>)"

definition scene_add :: "node \<Rightarrow> scene \<Rightarrow> scene" where
  "scene_add n sc = sc\<lparr>sceneChildren := sceneChildren sc @ [n]\<rparr>"

definition scene_remove :: "node \<Rightarrow> scene \<Rightarrow> scene" where
  "scene_remove n sc = sc\<lparr>sceneChildren := remove1 n (sceneChildren sc)\<rparr>"

text \<open>
  What \<^verbatim>\<open>prevNextTest\<close> reads of a ray intersection: its \<^verbatim>\<open>object\<close>, and of that the
  chain of parents with their names.
\<close>

datatype object3Dref = Object3DRef (refName: string) (refParent: "object3Dref option")

type_synonym intersection = "object3Dref option"

section \<open>The element and the browser around it\<close>

record stereoData =
  leftEye :: image
  rightEye :: image
  phiLength :: real
  thetaStart :: real
  thetaLength :: real
  roll :: "real option"
  pitch :: "real option"

text \<open>The closures the element hands to \<^verbatim>\<open>setTimeout\<close>.\<close>

datatype callback = GoToPrev | GoToNext | ParseAndInit

record timer =
  tid :: nat
  due :: nat
  cb :: callback

text \<open>Calls that leave the element, in the order they are made.\<close>

datatype effect =
    SetTimeout nat callback nat
  | ClearTimeout "nat option"
  | DispatchEvent string
  | ConsoleWarn string
  | ParseVR string
  | ParseStereo string "string option" "string option"
  | ParseAnaglyph string "string option"
  | ExifrParse string

text \<open>
  The parsers and the metadata reader are imported modules that are not part of the two
  source files; they are parameters. \<open>None\<close> is a rejected promise. \<open>exifrParse\<close>
  answers whether \<^verbatim>\<open>exif?.GImage?.Data\<close> is truthy.
\<close>

record parsers =
  parseVR :: "string \<Rightarrow> stereoData option"
  parseStereo :: "string \<Rightarrow> string option \<Rightarrow> string option \<Rightarrow> stereoData option"
  parseAnaglyph :: "string \<Rightarrow> string option \<Rightarrow> stereoData option"
  exifrParse :: "string \<Rightarrow> bool option"

text \<open>
  The fields of the element that the source assigns, then the browser's clock (in
  milliseconds, shared by \<^verbatim>\<open>performance.now()\<close> and the timers), its pending timers,
  the last timer handle it gave out, and the calls made so far with their times.
  \<^verbatim>\<open>undefined\<close> and \<^verbatim>\<open>null\<close> fields are \<open>None\<close>.
\<close>

record stereoImg =
  attributes :: "string \<rightharpoonup> string"
  opacity :: string
  stereoData :: "stereoData option"
  scene :: "scene option"
  camera :: "object3D option"
  raycaster :: bool
  renderer :: bool
  controls :: bool
  animating :: bool
  prevNextButtons :: "group list option"
  prevNextTimer :: "nat option"
  prevNextTimerStartMS :: "nat option"
  timerRingForPrev :: "bool option"
  timerRing :: "mesh option"
  now :: nat
  timers :: "timer list"
  lastTimerId :: nat
  effects :: "(nat \<times> effect) list"

text \<open>A synchronous exception or a rejected promise leaves the state it was raised in.\<close>

datatype outcome = Completed stereoImg | Thrown stereoImg

fun stateOf :: "outcome \<Rightarrow> stereoImg" where
  "stateOf (Completed s) = s"
| "stateOf (Thrown s) = s"

fun andThen :: "outcome \<Rightarrow> (stereoImg \<Rightarrow> outcome) \<Rightarrow> outcome" where
  "andThen (Completed s) f = f s"
| "andThen (Thrown s) f = Thrown s"

subsection \<open>Browser services\<close>

text \<open>
  Attributes are looked up by name. The browser matches the names of an HTML element
  without regard to case; the four names the element uses stay distinct under that.
\<close>

definition getAttribute :: "string \<Rightarrow> stereoImg \<Rightarrow> string option" where
  "getAttribute n s = attributes s n"

definition setAttribute :: "string \<Rightarrow> string \<Rightarrow> stereoImg \<Rightarrow> stereoImg" where
  "setAttribute n v s = s\<lparr>attributes := (attributes s)(n \<mapsto> v)\<rparr>"

definition removeAttribute :: "string \<Rightarrow> stereoImg \<Rightarrow> stereoImg" where
  "removeAttribute n s = s\<lparr>attributes := (attributes s)(n := None)\<rparr>"

definition emit :: "effect \<Rightarrow> stereoImg \<Rightarrow> stereoImg" where
  "emit e s = s\<lparr>effects := effects s @ [(now s, e)]\<rparr>"

text \<open>
  \<^verbatim>\<open>setTimeout\<close> returns a fresh handle, which is a positive integer, and queues the
  callback for \<open>delay\<close> milliseconds from now. \<^verbatim>\<open>clearTimeout\<close> drops the timer of
  that handle, if it is still pending.
\<close>

definition setTimeout :: "callback \<Rightarrow> nat \<Rightarrow> stereoImg \<Rightarrow> nat \<times> stereoImg" where
  "setTimeout c delay s =
     (let i = Suc (lastTimerId s)
      in (i, emit (SetTimeout i c delay)
               (s\<lparr>lastTimerId := i,
                  timers := timers s @ [\<lparr>tid = i, due = now s + delay, cb = c\<rparr>]\<rparr>)))"

definition clearTimeout :: "nat option \<Rightarrow> stereoImg \<Rightarrow> stereoImg" where
  "clearTimeout h s =
     emit (ClearTimeout h)
       (case h of None \<Rightarrow> s
        | Some i \<Rightarrow> s\<lparr>timers := filter (\<lambda>t. tid t \<noteq> i) (timers s)\<rparr>)"

definition dispatchEvent :: "string \<Rightarrow> stereoImg \<Rightarrow> stereoImg" where
  "dispatchEvent ev s = emit (DispatchEvent ev) s"

subsection \<open>Attribute accessors\<close>

definition get_type :: "stereoImg \<Rightarrow> string option" where
  "get_type s = getAttribute ''type'' s"

definition set_type :: "jsval \<Rightarrow> stereoImg \<Rightarrow> stereoImg" where
  "set_type val s =
     (if truthy val then setAttribute ''type'' (ToString val) s
      else removeAttribute ''type'' s)"

definition get_angle :: "stereoImg \<Rightarrow> string option" where
  "get_angle s = getAttribute ''angle'' s"

definition set_angle :: "jsval \<Rightarrow> stereoImg \<Rightarrow> stereoImg" where
  "set_angle val s =
     (if truthy val then setAttribute ''angle'' (ToString val) s
      else removeAttribute ''angle'' s)"

definition get_src :: "stereoImg \<Rightarrow> string option" where
  "get_src s = getAttribute ''src'' s"

text \<open>\<^verbatim>\<open>this.camera?.position.set(0, 0, 0.1)\<close>\<close>

definition resetCameraPosition :: "stereoImg \<Rightarrow> stereoImg" where
  "resetCameraPosition s =
     s\<lparr>camera := map_option (\<lambda>c. c\<lparr>position := (0, 0, 1 / 10)\<rparr>) (camera s)\<rparr>"

text \<open>
  \<^verbatim>\<open>window.setTimeout(() => { that.parseImageAndInitialize3DScene(); }, 0)\<close>; the
  handle is dropped.
\<close>

definition scheduleParse :: "stereoImg \<Rightarrow> stereoImg" where
  "scheduleParse s = snd (setTimeout ParseAndInit 0 s)"

definition set_src :: "jsval \<Rightarrow> stereoImg \<Rightarrow> stereoImg" where
  "set_src val s =
     (if attrVal (getAttribute ''src'' s) = val then resetCameraPosition s
      else scheduleParse
             (if truthy val then setAttribute ''src'' (ToString val) s
              else removeAttribute ''src'' s))"

definition get_backImageSrc :: "stereoImg \<Rightarrow> string option" where
  "get_backImageSrc s = getAttribute ''backImageSrc'' s"

definition set_backImageSrc :: "jsval \<Rightarrow> stereoImg \<Rightarrow> stereoImg" where
  "set_backImageSrc val s =
     scheduleParse
       (if truthy val then setAttribute ''backImageSrc'' (ToString val) s
        else removeAttribute ''backImageSrc'' s)"

subsection \<open>Gaze-dwell navigation\<close>

text \<open>\<^verbatim>\<open>this.prevNextTimer\<close> as a condition: a handle is truthy unless it is 0.\<close>

definition timerPending :: "stereoImg \<Rightarrow> bool" where
  "timerPending s = (case prevNextTimer s of None \<Rightarrow> False | Some i \<Rightarrow> i \<noteq> 0)"

text \<open>
  The body of both timer callbacks of \<^verbatim>\<open>prevNextTest\<close>:
  \<^verbatim>\<open>clearTimeout(this.prevNextTimer); this.prevNextTimer = null;
  this.dispatchEvent(new Event(...))\<close>.
\<close>

definition dwellExpired :: "string \<Rightarrow> stereoImg \<Rightarrow> stereoImg" where
  "dwellExpired ev s =
     dispatchEvent ev ((clearTimeout (prevNextTimer s) s)\<lparr>prevNextTimer := None\<rparr>)"

text \<open>
  The guarded block of both branches:
  \<^verbatim>\<open>if (!this.prevNextTimer) { this.prevNextTimerStartMS = performance.now();
  this.prevNextTimer = setTimeout(..., PREV_NEXT_TIMEOUT_MS) }\<close>.
\<close>

definition startDwell :: "callback \<Rightarrow> stereoImg \<Rightarrow> stereoImg" where
  "startDwell c s =
     (if \<not> timerPending s then
        (case setTimeout c PREV_NEXT_TIMEOUT_MS (s\<lparr>prevNextTimerStartMS := Some (now s)\<rparr>) of
           (i, s') \<Rightarrow> s'\<lparr>prevNextTimer := Some i\<rparr>)
      else s)"

text \<open>The \<^verbatim>\<open>for\<close> loop over the intersections, with its early \<^verbatim>\<open>return\<close>.\<close>

fun prevNextLoop :: "intersection list \<Rightarrow> stereoImg \<Rightarrow> stereoImg" where
  "prevNextLoop [] s = s"
| "prevNextLoop (x # xs) s =
     (case x of
        None \<Rightarrow> s
      | Some ob \<Rightarrow>
          (case refParent ob of
             None \<Rightarrow> s
           | Some p \<Rightarrow>
               if refName p = ''prev'' then
                 prevNextLoop xs (startDwell GoToPrev (s\<lparr>timerRingForPrev := Some True\<rparr>))
               else if refName p = ''next'' then
                 prevNextLoop xs (startDwell GoToNext (s\<lparr>timerRingForPrev := Some False\<rparr>))
               else prevNextLoop xs s))"

text \<open>
  \<^verbatim>\<open>prevNextTest\<close>, given what \<^verbatim>\<open>this.raycaster.intersectObjects(this.prevNextButtons)\<close>
  returned for the ray from the camera position along the camera's world direction.
\<close>

definition prevNextTest :: "intersection list \<Rightarrow> stereoImg \<Rightarrow> stereoImg" where
  "prevNextTest intersects s =
     (if \<not> (scene s \<noteq> None \<and> camera s \<noteq> None \<and> raycaster s \<and> prevNextButtons s \<noteq> None)
      then s
      else if intersects = [] \<and> timerPending s
      then (clearTimeout (prevNextTimer s) s)\<lparr>prevNextTimer := None\<rparr>
      else prevNextLoop intersects s)"

subsection \<open>The progress ring\<close>

text \<open>
  \<^verbatim>\<open>performance.now() - this.prevNextTimerStartMS\<close>; with the start time still
  \<^verbatim>\<open>undefined\<close> the difference is NaN, here \<open>None\<close>.
\<close>

definition timeSinceStartedMS :: "stereoImg \<Rightarrow> int option" where
  "timeSinceStartedMS s = map_option (\<lambda>t0. int (now s) - int t0) (prevNextTimerStartMS s)"

text \<open>
  The mesh of the progress ring. \<^verbatim>\<open>this.timerRingForPrev\<close> is \<^verbatim>\<open>undefined\<close> until the
  first dwell, and \<^verbatim>\<open>undefined\<close> is falsy.
\<close>

definition newTimerRing :: "stereoImg \<Rightarrow> mesh" where
  "newTimerRing s =
     (new_Mesh
        (RingGeometry 1 (11 / 10) 128 1 0
           (LinearScaleOf (timeSinceStartedMS s) (timerRingForPrev s = Some True)))
        (ColorMaterial 0xf4870e))
     \<lparr>position := (if timerRingForPrev s = Some True then - PREV_NEXT_BUTTONS_Z
                     else PREV_NEXT_BUTTONS_Z, 0, 1),
      up := (1, 0, 0)\<rparr>"

text \<open>
  \<^verbatim>\<open>updatePrevNextRing\<close>. Reading \<^verbatim>\<open>this.scene\<close> or \<^verbatim>\<open>this.camera\<close> while it is
  \<^verbatim>\<open>undefined\<close> throws a TypeError at that statement.
\<close>

definition removeOldRing :: "stereoImg \<Rightarrow> outcome" where
  "removeOldRing s =
     (case timerRing s of
        None \<Rightarrow> Completed s
      | Some r \<Rightarrow>
          (case scene s of
             None \<Rightarrow> Thrown s
           | Some sc \<Rightarrow>
               Completed (s\<lparr>scene := Some (scene_remove (MeshNode r) sc), timerRing := None\<rparr>)))"

definition turnButtons :: "stereoImg \<Rightarrow> outcome" where
  "turnButtons s =
     (case prevNextButtons s of
        None \<Rightarrow> Completed s
      | Some bs \<Rightarrow> if bs \<noteq> [] \<and> camera s = None then Thrown s else Completed s)"

definition addNewRing :: "stereoImg \<Rightarrow> outcome" where
  "addNewRing s =
     (if timerPending s then
        (let s' = s\<lparr>timerRing := Some (newTimerRing s)\<rparr>
         in if camera s' = None then Thrown s'
            else (case scene s' of
                    None \<Rightarrow> Thrown s'
                  | Some sc \<Rightarrow>
                      Completed (s'\<lparr>scene := Some (scene_add (MeshNode (newTimerRing s)) sc)\<rparr>)))
      else Completed s)"

definition updatePrevNextRing :: "stereoImg \<Rightarrow> outcome" where
  "updatePrevNextRing s = andThen (andThen (removeOldRing s) turnButtons) addNewRing"

subsection \<open>Parsing\<close>

text \<open>The value assigned when there is no \<^verbatim>\<open>src\<close>.\<close>

definition fakeStereoData :: stereoData where
  "fakeStereoData =
     \<lparr>leftEye = ImageData 10 10, rightEye = ImageData 10 10,
      phiLength = 0, thetaStart = 0, thetaLength = 0, roll = None, pitch = None\<rparr>"

text \<open>\<^verbatim>\<open>this.stereoData = await parser(...)\<close>: the call is made, then its promise settles.\<close>

definition awaitStereoData :: "effect \<Rightarrow> stereoData option \<Rightarrow> stereoImg \<Rightarrow> outcome" where
  "awaitStereoData call res s =
     (case res of
        None \<Rightarrow> Thrown (emit call s)
      | Some d \<Rightarrow> Completed ((emit call s)\<lparr>stereoData := Some d\<rparr>))"

text \<open>The message of the \<^verbatim>\<open>console.warn\<close> of \<^verbatim>\<open>parse\<close>.\<close>

definition NO_TYPE_WARNING :: string where
  \<open>NO_TYPE_WARNING = ''<stereo-img> does not have a "type" attribute and image does not have XMP metadata of a VR picture.  Use "type" attribute to specify the type of stereoscopic image. Assuming left-right stereo image.''\<close>

definition parseWithSrc :: "parsers \<Rightarrow> string \<Rightarrow> stereoImg \<Rightarrow> outcome" where
  "parseWithSrc env src s =
     (if get_type s = Some ''vr'' then
        awaitStereoData (ParseVR src) (parseVR env src) s
      else if get_type s = Some ''left-right'' \<or> get_type s = Some ''top-bottom'' then
        awaitStereoData (ParseStereo src (get_type s) (get_angle s))
          (parseStereo env src (get_type s) (get_angle s)) s
      else if get_type s = Some ''anaglyph'' then
        awaitStereoData (ParseAnaglyph src (get_angle s)) (parseAnaglyph env src (get_angle s)) s
      else
        (case exifrParse env src of
           None \<Rightarrow> Thrown (emit (ExifrParse src) s)
         | Some found \<Rightarrow>
             if found then
               awaitStereoData (ParseVR src) (parseVR env src) (emit (ExifrParse src) s)
             else
               awaitStereoData (ParseStereo src None (get_angle s))
                 (parseStereo env src None (get_angle s))
                 (emit (ConsoleWarn NO_TYPE_WARNING) (emit (ExifrParse src) s))))"

definition parse :: "parsers \<Rightarrow> stereoImg \<Rightarrow> outcome" where
  "parse env s =
     (if truthy (attrVal (get_src s)) then
        (case get_src s of
           Some src \<Rightarrow> parseWithSrc env src s
         | None \<Rightarrow> Completed (s\<lparr>stereoData := Some fakeStereoData\<rparr>))
      else Completed (s\<lparr>stereoData := Some fakeStereoData\<rparr>))"

subsection \<open>Building the scene\<close>

text \<open>\<^verbatim>\<open>this.stereoData.roll || 0\<close>\<close>

fun orZero :: "real option \<Rightarrow> real" where
  "orZero None = 0"
| "orZero (Some r) = r"

definition mesh1 :: "stereoData \<Rightarrow> mesh" where
  "mesh1 d =
     (scaleGeometry (- 1, 1, 1)
        (new_Mesh
           (SphereGeometry 10 60 40 (- 1 * phiLength d / 2) (phiLength d) (thetaStart d) (thetaLength d))
           (MapMaterial (Texture (leftEye d)))))
     \<lparr>rotationOrder := ''YXZ'', rotation := (orZero (roll d), pi / 2, orZero (pitch d)),
      layers := {1}\<rparr>"

definition mesh2 :: "stereoData \<Rightarrow> mesh" where
  "mesh2 d =
     (scaleGeometry (- 1, 1, 1)
        (new_Mesh
           (SphereGeometry 10 60 40 (- 1 * phiLength d / 2) (phiLength d) (thetaStart d) (thetaLength d))
           (MapMaterial (Texture (rightEye d)))))
     \<lparr>rotationOrder := ''YXZ'', rotation := (orZero (roll d), pi / 2, orZero (pitch d)),
      layers := {2}\<rparr>"

definition EPSILON_PHI_LENGTH :: real where
  "EPSILON_PHI_LENGTH = 25 / 1000"

definition mesh3 :: "stereoData \<Rightarrow> string \<Rightarrow> mesh" where
  "mesh3 d backImageUrl =
     (scaleGeometry (- 1, 1, 1)
        (new_Mesh
           (SphereGeometry 10 60 40 (- 1 * phiLength d / 2 - EPSILON_PHI_LENGTH)
              (phiLength d + 2 * EPSILON_PHI_LENGTH) (thetaStart d) (thetaLength d))
           (MapMaterial (Texture (ImageElement backImageUrl)))))
     \<lparr>rotationOrder := ''YXZ'', rotation := (orZero (roll d), - pi / 2, orZero (pitch d)),
      layers := {0}\<rparr>"

text \<open>
  \<^verbatim>\<open>initialize3DScene\<close>: the new scene is assigned first, so reading the fields of an
  \<^verbatim>\<open>undefined\<close> \<^verbatim>\<open>stereoData\<close> throws with the empty scene in place.
\<close>

definition initialize3DScene :: "stereoImg \<Rightarrow> outcome" where
  "initialize3DScene s =
     (let sc = new_Scene\<lparr>background := 0x101010\<rparr>
      in case stereoData s of
           None \<Rightarrow> Thrown (s\<lparr>scene := Some sc\<rparr>)
         | Some d \<Rightarrow>
             (let sc2 = scene_add (MeshNode (mesh2 d)) (scene_add (MeshNode (mesh1 d)) sc)
              in if get_angle s = Some ''180'' \<and> truthy (attrVal (get_backImageSrc s)) then
                   (case get_backImageSrc s of
                      Some url \<Rightarrow>
                        Completed (s\<lparr>scene := Some (scene_add (MeshNode (mesh3 d url)) sc2)\<rparr>)
                    | None \<Rightarrow> Completed (s\<lparr>scene := Some sc2\<rparr>))
                 else Completed (s\<lparr>scene := Some sc2\<rparr>)))"

subsection \<open>The navigation buttons\<close>

text \<open>
  \<^verbatim>\<open>createPrevOrNextButton\<close>: a named group holding an outer ring and an inner disc. The
  icon that the SVG loader adds later, inside a group of its own, is not modelled.
\<close>

definition createPrevOrNextButton :: "bool \<Rightarrow> group" where
  "createPrevOrNextButton isPrevButton =
     new_Group
     \<lparr>name := (if isPrevButton then ''prev'' else ''next''),
      position := (if isPrevButton then - PREV_NEXT_BUTTONS_Z else PREV_NEXT_BUTTONS_Z, 0, 1),
      children :=
        [new_Mesh (RingGeometry 1 (11 / 10) 128 1 0 DefaultSweep) (ColorMaterial 0xaaaaaa),
         new_Mesh (CircleGeometry 1 128) (ColorMaterial 0xa65700)]\<rparr>"

text \<open>
  \<^verbatim>\<open>addPrevNextButtons\<close>: the buttons are created, which reads \<^verbatim>\<open>this.camera.position\<close>,
  and stored before they are added to \<^verbatim>\<open>this.scene\<close>.
\<close>

definition addPrevNextButtons :: "stereoImg \<Rightarrow> outcome" where
  "addPrevNextButtons s =
     (if camera s = None then Thrown s
      else
        (let bs = [createPrevOrNextButton True, createPrevOrNextButton False];
             s' = s\<lparr>prevNextButtons := Some bs\<rparr>
         in case scene s' of
              None \<Rightarrow> Thrown s'
            | Some sc \<Rightarrow>
                Completed (s'\<lparr>scene := Some (scene_add (GroupNode (createPrevOrNextButton False))
                                            (scene_add (GroupNode (createPrevOrNextButton True)) sc))\<rparr>)))"

text \<open>
  \<^verbatim>\<open>parseImageAndInitialize3DScene\<close>. Its two awaits are taken in one step: nothing else
  runs between the parse and the construction of the scene.
\<close>

definition parseImageAndInitialize3DScene :: "parsers \<Rightarrow> stereoImg \<Rightarrow> outcome" where
  "parseImageAndInitialize3DScene env s =
     andThen (andThen (andThen (parse env (s\<lparr>opacity := ''0''\<rparr>)) initialize3DScene)
                (\<lambda>s1. let s2 = resetCameraPosition s1
                      in if camera s2 \<noteq> None then addPrevNextButtons s2 else Completed s2))
       (\<lambda>s3. Completed (s3\<lparr>opacity := ''1''\<rparr>))"

text \<open>
  \<^verbatim>\<open>init\<close>, which the constructor calls: the shadow root, the sizing of the element, the
  orbit controls' settings and the VR button do not bear on the element's fields and are
  left out; the VR button is modelled on its own below.
\<close>

definition init :: "parsers \<Rightarrow> stereoImg \<Rightarrow> outcome" where
  "init env s =
     andThen (andThen (parseImageAndInitialize3DScene env s)
                (\<lambda>s1. addPrevNextButtons
                        (s1\<lparr>renderer := True,
                            camera := Some (new_Camera\<lparr>layers := insert 1 (layers new_Camera)\<rparr>),
                            raycaster := True\<rparr>)))
       (\<lambda>s2. Completed
               ((resetCameraPosition (s2\<lparr>controls := True\<rparr>))\<lparr>animating := True\<rparr>))"

text \<open>A freshly created element with the attributes of its markup, at a given time.\<close>

definition newElement :: "(string \<rightharpoonup> string) \<Rightarrow> nat \<Rightarrow> stereoImg" where
  "newElement attrs t =
     \<lparr>attributes = attrs, opacity = [], stereoData = None, scene = None, camera = None,
      raycaster = False, renderer = False, controls = False, animating = False,
      prevNextButtons = None, prevNextTimer = None, prevNextTimerStartMS = None,
      timerRingForPrev = None, timerRing = None, now = t, timers = [], lastTimerId = 0,
      effects = []\<rparr>"

definition constructor :: "parsers \<Rightarrow> (string \<rightharpoonup> string) \<Rightarrow> nat \<Rightarrow> stereoImg" where
  "constructor env attrs t = stateOf (init env (newElement attrs t))"

subsection \<open>The event loop\<close>

text \<open>
  The callback of \<^verbatim>\<open>setAnimationLoop\<close>: \<^verbatim>\<open>this.controls?.update()\<close> may move the
  camera, here to a position the step is given; then \<^verbatim>\<open>prevNextTest\<close> and
  \<^verbatim>\<open>updatePrevNextRing\<close>. Rendering changes nothing of the state.
\<close>

definition controlsUpdate :: "vec3 \<Rightarrow> stereoImg \<Rightarrow> stereoImg" where
  "controlsUpdate p s =
     (if controls s then s\<lparr>camera := map_option (\<lambda>c. c\<lparr>position := p\<rparr>) (camera s)\<rparr> else s)"

definition animationFrame :: "vec3 \<Rightarrow> intersection list \<Rightarrow> stereoImg \<Rightarrow> stereoImg" where
  "animationFrame p intersects s =
     stateOf (updatePrevNextRing (prevNextTest intersects (controlsUpdate p s)))"

definition runCallback :: "parsers \<Rightarrow> callback \<Rightarrow> stereoImg \<Rightarrow> stereoImg" where
  "runCallback env c s =
     (case c of
        GoToPrev \<Rightarrow> dwellExpired ''stereoImgGoToPrev'' s
      | GoToNext \<Rightarrow> dwellExpired ''stereoImgGoToNext'' s
      | ParseAndInit \<Rightarrow> stateOf (parseImageAndInitialize3DScene env s))"

text \<open>
  The browser runs the callback of a pending timer once, not before it is due, and the
  timer leaves the queue.
\<close>

definition fireTimer :: "parsers \<Rightarrow> nat \<Rightarrow> stereoImg \<Rightarrow> stereoImg" where
  "fireTimer env i s =
     (case find (\<lambda>t. tid t = i) (timers s) of
        None \<Rightarrow> s
      | Some t \<Rightarrow>
          if due t \<le> now s
          then runCallback env (cb t) (s\<lparr>timers := filter (\<lambda>t. tid t \<noteq> i) (timers s)\<rparr>)
          else s)"

text \<open>What can happen to the element, one event-loop task at a time.\<close>

datatype action =
    Tick nat
  | Frame vec3 "intersection list"
  | Fire nat
  | SetType jsval
  | SetAngle jsval
  | SetSrc jsval
  | SetBackImageSrc jsval

fun step :: "parsers \<Rightarrow> action \<Rightarrow> stereoImg \<Rightarrow> stereoImg" where
  "step env (Tick d) s = s\<lparr>now := now s + d\<rparr>"
| "step env (Frame p intersects) s = (if animating s then animationFrame p intersects s else s)"
| "step env (Fire i) s = fireTimer env i s"
| "step env (SetType v) s = set_type v s"
| "step env (SetAngle v) s = set_angle v s"
| "step env (SetSrc v) s = set_src v s"
| "step env (SetBackImageSrc v) s = set_backImageSrc v s"

fun exec :: "parsers \<Rightarrow> action list \<Rightarrow> stereoImg \<Rightarrow> stereoImg" where
  "exec env [] s = s"
| "exec env (a # as) s = exec env as (step env a s)"

subsection \<open>Sample environments\<close>

text \<open>Parsers whose promises all reject, and parsers that all answer with one picture.\<close>

definition rejectingParsers :: parsers where
  "rejectingParsers =
     \<lparr>parseVR = (\<lambda>src. None), parseStereo = (\<lambda>src ty ang. None),
      parseAnaglyph = (\<lambda>src ang. None), exifrParse = (\<lambda>src. None)\<rparr>"

definition samplePicture :: stereoData where
  "samplePicture =
     \<lparr>leftEye = ParserImage 1, rightEye = ParserImage 2,
      phiLength = 3, thetaStart = 1 / 2, thetaLength = 2, roll = None, pitch = Some (1 / 4)\<rparr>"

definition sampleParsers :: parsers where
  "sampleParsers =
     \<lparr>parseVR = (\<lambda>src. Some samplePicture), parseStereo = (\<lambda>src ty ang. Some samplePicture),
      parseAnaglyph = (\<lambda>src ang. Some samplePicture), exifrParse = (\<lambda>src. Some False)\<rparr>"

section \<open>The VR button\<close>

text \<open>
  \<^verbatim>\<open>VRButton.createButton\<close> returns a DOM element at once and finishes its work when the
  promise of \<^verbatim>\<open>navigator.xr.isSessionSupported\<close> settles; later the element reacts to
  clicks and to the session's lifecycle. Of an element, the fields the source assigns are
  kept. The one click handler is the closure that \<^verbatim>\<open>showEnterVR\<close> installs; assigning
  plain text to \<^verbatim>\<open>innerHTML\<close> is assigning \<^verbatim>\<open>textContent\<close>.
\<close>

datatype handler = ToggleSession

record element =
  tagName :: string
  elemId :: string
  style :: "string \<rightharpoonup> string"
  textContent :: string
  href :: "string option"
  onclick :: "handler option"
  onmouseenter :: "handler option"
  onmouseleave :: "handler option"

definition createElement :: "string \<Rightarrow> element" where
  "createElement tg =
     \<lparr>tagName = tg, elemId = [], style = Map.empty, textContent = [], href = None,
      onclick = None, onmouseenter = None, onmouseleave = None\<rparr>"

definition setStyle :: "string \<Rightarrow> string \<Rightarrow> element \<Rightarrow> element" where
  "setStyle k v e = e\<lparr>style := (style e)(k \<mapsto> v)\<rparr>"

text \<open>What the code asks of \<^verbatim>\<open>navigator\<close>, \<^verbatim>\<open>window\<close> and \<^verbatim>\<open>document.location\<close>.\<close>

record navigator =
  hasXR :: bool
  isSecureContext :: "bool option"
  locationHref :: string
  userAgentIsWebXRViewer :: bool

datatype vrCall =
    IsSessionSupported string
  | RequestSession string "string list"
  | SetSession nat
  | EndSession nat
  | ConsoleWarnVR string string

text \<open>
  The button, the message element of the branch without WebXR, the variable
  \<^verbatim>\<open>currentSession\<close> of \<^verbatim>\<open>showEnterVR\<close>, the sessions on which \<^verbatim>\<open>onSessionEnded\<close>
  listens, the \<^verbatim>\<open>requestSession\<close> promises not yet settled, the sessions whose
  \<^verbatim>\<open>onSessionStarted\<close> waits for \<^verbatim>\<open>renderer.xr.setSession\<close>, whether the support
  query is still open, the static flag \<^verbatim>\<open>VRButton.xrSessionIsGranted\<close>, whether the
  module has registered its \<^verbatim>\<open>sessiongranted\<close> listener, and the calls made.
\<close>

record vrButton =
  button :: element
  message :: "element option"
  currentSession :: "nat option"
  endListeners :: "nat list"
  pendingRequests :: nat
  starting :: "nat list"
  supportPending :: bool
  xrSessionIsGranted :: bool
  sessionGrantedListener :: bool
  calls :: "vrCall list"

definition returnedElement :: "vrButton \<Rightarrow> element" where
  "returnedElement w = (case message w of None \<Rightarrow> button w | Some m \<Rightarrow> m)"

definition stylizeElement :: "element \<Rightarrow> element" where
  "stylizeElement e =
     (setStyle ''zIndex'' ''999''
     (setStyle ''outline'' ''none''
     (setStyle ''textAlign'' ''center''
     (setStyle ''fontFamily'' ''lato, sans-serif''
     (setStyle ''fontWeight'' ''700''
     (setStyle ''fontSize'' ''18px''
     (setStyle ''color'' ''#fff''
     (setStyle ''background'' ''#d97706''
     (setStyle ''borderRadius'' ''6px''
     (setStyle ''border'' ''1px solid rgba(255, 255, 255, 0.6)''
     (setStyle ''padding'' ''12px 6px''
     (setStyle ''bottom'' ''12px''
     (setStyle ''position'' ''absolute''
     (setStyle ''display'' [] e))))))))))))))"

definition disableButton :: "vrButton \<Rightarrow> vrButton" where
  "disableButton w =
     w\<lparr>button := (setStyle ''display'' ''none'' (button w))
                    \<lparr>onmouseenter := None, onmouseleave := None, onclick := None\<rparr>\<rparr>"

definition showWebXRNotFound :: "vrButton \<Rightarrow> vrButton" where
  "showWebXRNotFound w = disableButton w"

definition showVRNotAllowed :: "string \<Rightarrow> vrButton \<Rightarrow> vrButton" where
  "showVRNotAllowed exception w =
     (disableButton w)
     \<lparr>calls := calls (disableButton w)
         @ [ConsoleWarnVR ''Exception when trying to call xr.isSessionSupported'' exception]\<rparr>"

definition showEnterVR :: "vrButton \<Rightarrow> vrButton" where
  "showEnterVR w =
     w\<lparr>currentSession := None,
       button := (setStyle ''width'' ''140px''
                 (setStyle ''left'' ''calc(50% - 70px)''
                 (setStyle ''cursor'' ''pointer''
                 (setStyle ''display'' [] (button w)))))
                 \<lparr>textContent := ''View in 3D VR'', onclick := Some ToggleSession\<rparr>\<rparr>"

text \<open>The click handler.\<close>

definition toggleSession :: "vrButton \<Rightarrow> vrButton" where
  "toggleSession w =
     (case currentSession w of
        None \<Rightarrow>
          w\<lparr>calls := calls w
               @ [RequestSession ''immersive-vr''
                    [''local-floor'', ''bounded-floor'', ''hand-tracking'', ''layers'']],
            pendingRequests := Suc (pendingRequests w)\<rparr>
      | Some session \<Rightarrow> w\<lparr>calls := calls w @ [EndSession session]\<rparr>)"

text \<open>\<^verbatim>\<open>button.click()\<close>, and a click of the user: the handler runs if there is one.\<close>

definition click :: "vrButton \<Rightarrow> vrButton" where
  "click w = (case onclick (button w) of None \<Rightarrow> w | Some ToggleSession \<Rightarrow> toggleSession w)"

text \<open>
  \<^verbatim>\<open>onSessionStarted\<close> up to its \<^verbatim>\<open>await\<close>, and the rest of it, which runs once
  \<^verbatim>\<open>setSession\<close> has resolved. A listener is registered on a target once.
\<close>

definition onSessionStarted :: "nat \<Rightarrow> vrButton \<Rightarrow> vrButton" where
  "onSessionStarted session w =
     w\<lparr>endListeners := (if session \<in> set (endListeners w) then endListeners w
                         else endListeners w @ [session]),
       calls := calls w @ [SetSession session],
       starting := starting w @ [session]\<rparr>"

definition onSessionStartedResumed :: "nat \<Rightarrow> vrButton \<Rightarrow> vrButton" where
  "onSessionStartedResumed session w =
     w\<lparr>button := (button w)\<lparr>textContent := ''Exit VR''\<rparr>, currentSession := Some session\<rparr>"

text \<open>
  \<^verbatim>\<open>onSessionEnded\<close>: with \<^verbatim>\<open>currentSession\<close> null its first statement throws, before
  anything is assigned.
\<close>

definition onSessionEnded :: "vrButton \<Rightarrow> vrButton" where
  "onSessionEnded w =
     (case currentSession w of
        None \<Rightarrow> w
      | Some c \<Rightarrow>
          w\<lparr>endListeners := removeAll c (endListeners w),
            button := (button w)\<lparr>textContent := ''View in 3D VR''\<rparr>,
            currentSession := None\<rparr>)"

text \<open>\<^verbatim>\<open>document.location.href.replace(/^http:/, 'https:')\<close>\<close>

definition httpsHref :: "string \<Rightarrow> string" where
  "httpsHref h = (if take 5 h = ''http:'' then ''https:'' @ drop 5 h else h)"

text \<open>
  \<^verbatim>\<open>registerSessionGrantedListener\<close>, which the module runs when it is loaded: whether
  it adds the listener that sets \<^verbatim>\<open>VRButton.xrSessionIsGranted\<close>.
\<close>

definition registerSessionGrantedListener :: "navigator \<Rightarrow> bool" where
  "registerSessionGrantedListener nav = (hasXR nav \<and> \<not> userAgentIsWebXRViewer nav)"

text \<open>
  \<^verbatim>\<open>createButton\<close>, given the browser and the value \<^verbatim>\<open>VRButton.xrSessionIsGranted\<close>
  has when it is called.
\<close>

definition createButton :: "navigator \<Rightarrow> bool \<Rightarrow> vrButton" where
  "createButton nav granted =
     (let w = \<lparr>button = createElement ''button'', message = None, currentSession = None,
               endListeners = [], pendingRequests = 0, starting = [], supportPending = False,
               xrSessionIsGranted = granted,
               sessionGrantedListener = registerSessionGrantedListener nav, calls = []\<rparr>
      in if hasXR nav then
           w\<lparr>button := stylizeElement
                          (setStyle ''display'' ''none'' ((button w)\<lparr>elemId := ''VRButton''\<rparr>)),
             calls := [IsSessionSupported ''immersive-vr''],
             supportPending := True\<rparr>
         else
           w\<lparr>message := Some
               (setStyle ''display'' ''none''
                 (stylizeElement
                   (if isSecureContext nav = Some False then
                      (createElement ''a'')
                      \<lparr>href := Some (httpsHref (locationHref nav)),
                       textContent := ''VR Mode Requires HTTPS''\<rparr>
                    else
                      (createElement ''a'')
                      \<lparr>href := Some ''#unavailable'',
                       textContent := ''VR Mode Unavailable (?)''\<rparr>)))\<rparr>)"

text \<open>What happens to the button afterwards, one task at a time.\<close>

datatype vrEvent =
    SupportResolved bool
  | SupportRejected string
  | Click
  | SessionGranted nat
  | RequestRejected
  | SetSessionResolved nat
  | SetSessionRejected nat
  | SessionEnd nat
  | SessionGrantedEvent

fun vrStep :: "vrEvent \<Rightarrow> vrButton \<Rightarrow> vrButton" where
  "vrStep (SupportResolved supported) w =
     (if supportPending w then
        (let w1 = (if supported then showEnterVR (w\<lparr>supportPending := False\<rparr>)
                   else showWebXRNotFound (w\<lparr>supportPending := False\<rparr>))
         in if supported \<and> xrSessionIsGranted w1 then click w1 else w1)
      else w)"
| "vrStep (SupportRejected exception) w =
     (if supportPending w then showVRNotAllowed exception (w\<lparr>supportPending := False\<rparr>) else w)"
| "vrStep Click w = click w"
| "vrStep (SessionGranted session) w =
     (if 0 < pendingRequests w
      then onSessionStarted session (w\<lparr>pendingRequests := pendingRequests w - 1\<rparr>)
      else w)"
| "vrStep RequestRejected w = w\<lparr>pendingRequests := pendingRequests w - 1\<rparr>"
| "vrStep (SetSessionResolved session) w =
     (if session \<in> set (starting w)
      then onSessionStartedResumed session (w\<lparr>starting := remove1 session (starting w)\<rparr>)
      else w)"
| "vrStep (SetSessionRejected session) w = w\<lparr>starting := remove1 session (starting w)\<rparr>"
| "vrStep (SessionEnd session) w =
     (if session \<in> set (endListeners w) then onSessionEnded w else w)"
| "vrStep SessionGrantedEvent w =
     (if sessionGrantedListener w then w\<lparr>xrSessionIsGranted := True\<rparr> else w)"

fun vrExec :: "vrEvent list \<Rightarrow> vrButton \<Rightarrow> vrButton" where
  "vrExec [] w = w"
| "vrExec (e # es) w = vrExec es (vrStep e w)"

subsection \<open>Sample browsers\<close>

definition xrNavigator :: navigator where
  "xrNavigator =
     \<lparr>hasXR = True, isSecureContext = Some True, locationHref = ''https://example.org/'',
      userAgentIsWebXRViewer = False\<rparr>"

definition plainNavigator :: navigator where
  "plainNavigator =
     \<lparr>hasXR = False, isSecureContext = Some False, locationHref = ''http://example.org/'',
      userAgentIsWebXRViewer = False\<rparr>"

section \<open>Notions for stating properties of executions\<close>

text \<open>
  These are not part of the program. The name of the parent of an intersection's object,
  as the loop of \<open>prevNextTest\<close> reads it: \<open>None\<close> where the object or its parent is
  missing.
\<close>

definition parentName :: "intersection \<Rightarrow> string option" where
  "parentName x = (case x of None \<Rightarrow> None | Some ob \<Rightarrow> map_option refName (refParent ob))"

text \<open>The event a dwell callback dispatches.\<close>

fun eventOf :: "callback \<Rightarrow> string option" where
  "eventOf GoToPrev = Some ''stereoImgGoToPrev''"
| "eventOf GoToNext = Some ''stereoImgGoToNext''"
| "eventOf ParseAndInit = None"

text \<open>The name of the button whose dwell starts a callback.\<close>

fun buttonOf :: "callback \<Rightarrow> string option" where
  "buttonOf GoToPrev = Some ''prev''"
| "buttonOf GoToNext = Some ''next''"
| "buttonOf ParseAndInit = None"

text \<open>Calls to the parsers, the metadata reader and the console.\<close>

fun isParserCall :: "effect \<Rightarrow> bool" where
  "isParserCall (SetTimeout i c d) = False"
| "isParserCall (ClearTimeout h) = False"
| "isParserCall (DispatchEvent ev) = False"
| "isParserCall e = True"

text \<open>
  A stretch of code is quiet between two states when it leaves the clock, the timers and
  the dwell timer alone and calls nothing but parsers and the console.
\<close>

definition quiet :: "stereoImg \<Rightarrow> stereoImg \<Rightarrow> bool" where
  "quiet s s' =
     (now s' = now s \<and> timers s' = timers s \<and> lastTimerId s' = lastTimerId s
      \<and> prevNextTimer s' = prevNextTimer s \<and> prevNextTimerStartMS s' = prevNextTimerStartMS s
      \<and> (\<exists>es. effects s' = effects s @ map (Pair (now s)) es \<and> list_all isParserCall es))"

text \<open>
  Every pending dwell timer was queued by a logged \<open>setTimeout\<close> of
  \<open>PREV_NEXT_TIMEOUT_MS\<close>, and every dispatched event follows, by that time at least, a
  logged \<open>setTimeout\<close> of the callback that dispatches it.
\<close>

definition dwellTimersLogged :: "stereoImg \<Rightarrow> bool" where
  "dwellTimersLogged s =
     list_all (\<lambda>tm. cb tm = ParseAndInit
                 \<or> (PREV_NEXT_TIMEOUT_MS \<le> due tm
                    \<and> (due tm - PREV_NEXT_TIMEOUT_MS, SetTimeout (tid tm) (cb tm) PREV_NEXT_TIMEOUT_MS)
                         \<in> set (effects s)))
       (timers s)"

definition dispatchesTimed :: "stereoImg \<Rightarrow> bool" where
  "dispatchesTimed s =
     list_all (\<lambda>(t, e). case e of
                 DispatchEvent ev \<Rightarrow>
                   list_ex (\<lambda>(t1, e1). case e1 of
                              SetTimeout i c d \<Rightarrow>
                                d = PREV_NEXT_TIMEOUT_MS \<and> t1 + d \<le> t \<and> eventOf c = Some ev
                            | _ \<Rightarrow> False)
                     (effects s)
               | _ \<Rightarrow> True)
       (effects s)"

text \<open>What \<open>prevNextTest\<close> requires before it looks at the intersections.\<close>

definition ready :: "stereoImg \<Rightarrow> bool" where
  "ready s = (scene s \<noteq> None \<and> camera s \<noteq> None \<and> raycaster s \<and> prevNextButtons s \<noteq> None)"

section \<open>Attribute accessors\<close>

lemma attributes_setAttribute: "attributes (setAttribute n v s) = (attributes s)(n \<mapsto> v)"
  by (simp add: setAttribute_def)

lemma attributes_removeAttribute: "attributes (removeAttribute n s) = (attributes s)(n := None)"
  by (simp add: removeAttribute_def)

lemma attributes_emit: "attributes (emit e s) = attributes s"
  by (simp add: emit_def)

lemma attributes_scheduleParse: "attributes (scheduleParse s) = attributes s"
  by (simp add: scheduleParse_def setTimeout_def Let_def attributes_emit)

lemma attributes_set_type:
  "attributes (set_type v s) =
     (if truthy v then (attributes s)(''type'' \<mapsto> ToString v) else (attributes s)(''type'' := None))"
  by (simp add: set_type_def attributes_setAttribute attributes_removeAttribute)

lemma attributes_set_angle:
  "attributes (set_angle v s) =
     (if truthy v then (attributes s)(''angle'' \<mapsto> ToString v) else (attributes s)(''angle'' := None))"
  by (simp add: set_angle_def attributes_setAttribute attributes_removeAttribute)

lemma attributes_set_backImageSrc:
  "attributes (set_backImageSrc v s) =
     (if truthy v then (attributes s)(''backImageSrc'' \<mapsto> ToString v)
      else (attributes s)(''backImageSrc'' := None))"
  by (simp add: set_backImageSrc_def attributes_scheduleParse attributes_setAttribute
      attributes_removeAttribute)

lemma attributes_resetCameraPosition: "attributes (resetCameraPosition s) = attributes s"
  by (simp add: resetCameraPosition_def)

lemma attributes_set_src:
  "attributes (set_src v s) =
     (if attrVal (attributes s ''src'') = v then attributes s
      else if truthy v then (attributes s)(''src'' \<mapsto> ToString v)
      else (attributes s)(''src'' := None))"
  by (simp add: set_src_def getAttribute_def attributes_scheduleParse attributes_setAttribute
      attributes_removeAttribute attributes_resetCameraPosition)

text \<open>
  Claim C4. Each of the getters \<open>type\<close>, \<open>angle\<close>, \<open>src\<close> and \<open>backImageSrc\<close> returns
  the attribute of its name, \<open>None\<close> (JavaScript's \<^verbatim>\<open>null\<close>) when it is absent. From
  any attribute state, the setter called with a truthy value stores the value under that
  name, as the string \<^verbatim>\<open>setAttribute\<close> makes of it (a string is stored as it is), and
  called with a falsy value removes the attribute; for \<open>src\<close> this holds whenever the
  new value is not strictly equal to the current attribute. No other attribute changes.
\<close>

theorem attribute_accessors:
  "get_type s = attributes s ''type''
   \<and> get_angle s = attributes s ''angle''
   \<and> get_src s = attributes s ''src''
   \<and> get_backImageSrc s = attributes s ''backImageSrc''
   \<and> (truthy v \<longrightarrow>
        attributes (set_type v s) = (attributes s)(''type'' \<mapsto> ToString v)
        \<and> get_type (set_type v s) = Some (ToString v)
        \<and> attributes (set_angle v s) = (attributes s)(''angle'' \<mapsto> ToString v)
        \<and> get_angle (set_angle v s) = Some (ToString v)
        \<and> attributes (set_backImageSrc v s) = (attributes s)(''backImageSrc'' \<mapsto> ToString v)
        \<and> get_backImageSrc (set_backImageSrc v s) = Some (ToString v)
        \<and> (attrVal (attributes s ''src'') \<noteq> v \<longrightarrow>
             attributes (set_src v s) = (attributes s)(''src'' \<mapsto> ToString v)
             \<and> get_src (set_src v s) = Some (ToString v)))
   \<and> (\<not> truthy v \<longrightarrow>
        attributes (set_type v s) = (attributes s)(''type'' := None)
        \<and> get_type (set_type v s) = None
        \<and> attributes (set_angle v s) = (attributes s)(''angle'' := None)
        \<and> get_angle (set_angle v s) = None
        \<and> attributes (set_backImageSrc v s) = (attributes s)(''backImageSrc'' := None)
        \<and> get_backImageSrc (set_backImageSrc v s) = None
        \<and> (attrVal (attributes s ''src'') \<noteq> v \<longrightarrow>
             attributes (set_src v s) = (attributes s)(''src'' := None)
             \<and> get_src (set_src v s) = None))
   \<and> (\<forall>x. ToString (JStr x) = x)"
  by (simp add: get_type_def get_angle_def get_src_def get_backImageSrc_def getAttribute_def
      attributes_set_type attributes_set_angle attributes_set_backImageSrc attributes_set_src)

theorem attribute_accessors_witness:
  "truthy (JStr ''vr'')
   \<and> attrVal (attributes (newElement Map.empty 0) ''src'') \<noteq> JStr ''vr''
   \<and> get_type (set_type (JStr ''vr'') (newElement Map.empty 0)) = Some ''vr''
   \<and> get_angle (set_angle (JStr ''vr'') (newElement Map.empty 0)) = Some ''vr''
   \<and> get_backImageSrc (set_backImageSrc (JStr ''vr'') (newElement Map.empty 0)) = Some ''vr''
   \<and> get_src (set_src (JStr ''vr'') (newElement Map.empty 0)) = Some ''vr''
   \<and> \<not> truthy JNull
   \<and> attrVal (attributes (newElement [''src'' \<mapsto> ''a.jpg'', ''type'' \<mapsto> ''vr''] 0) ''src'') \<noteq> JNull
   \<and> get_type (newElement [''src'' \<mapsto> ''a.jpg'', ''type'' \<mapsto> ''vr''] 0) = Some ''vr''
   \<and> get_type (set_type JNull (newElement [''src'' \<mapsto> ''a.jpg'', ''type'' \<mapsto> ''vr''] 0)) = None
   \<and> get_src (set_src JNull (newElement [''src'' \<mapsto> ''a.jpg'', ''type'' \<mapsto> ''vr''] 0)) = None"
  using attribute_accessors [of "newElement Map.empty 0" "JStr ''vr''"]
    attribute_accessors [of "newElement [''src'' \<mapsto> ''a.jpg'', ''type'' \<mapsto> ''vr''] 0" JNull]
  by (simp add: newElement_def)

section \<open>Setting \<open>src\<close> to the value it has\<close>

text \<open>
  Claim C8. Setting the \<open>src\<close> property to a value strictly equal to the current
  \<open>src\<close> attribute changes nothing but the camera: the state afterwards is the state
  before with the camera, where there is one, moved to \<open>(0, 0, 0.1)\<close>. So the
  attributes, the parsed stereo data and the scene are as before, and no timer is queued
  and no call is made, hence no re-parse is scheduled.
\<close>

theorem set_src_unchanged:
  "attrVal (getAttribute ''src'' s) = v \<Longrightarrow>
     set_src v s = s\<lparr>camera := map_option (\<lambda>c. c\<lparr>position := (0, 0, 1 / 10)\<rparr>) (camera s)\<rparr>
     \<and> attributes (set_src v s) = attributes s
     \<and> stereoData (set_src v s) = stereoData s
     \<and> scene (set_src v s) = scene s
     \<and> timers (set_src v s) = timers s
     \<and> effects (set_src v s) = effects s
     \<and> (\<forall>c. camera s = Some c \<longrightarrow> camera (set_src v s) = Some (c\<lparr>position := (0, 0, 1 / 10)\<rparr>))"
  by (simp add: set_src_def resetCameraPosition_def)

theorem set_src_unchanged_witness:
  "attrVal (getAttribute ''src'' ((newElement [''src'' \<mapsto> ''a.jpg''] 0)\<lparr>camera := Some (new_Camera\<lparr>position := (3, 4, 5)\<rparr>)\<rparr>))
     = JStr ''a.jpg''
   \<and> camera ((newElement [''src'' \<mapsto> ''a.jpg''] 0)\<lparr>camera := Some (new_Camera\<lparr>position := (3, 4, 5)\<rparr>)\<rparr>)
     = Some (new_Camera\<lparr>position := (3, 4, 5)\<rparr>)
   \<and> camera (set_src (JStr ''a.jpg'')
        ((newElement [''src'' \<mapsto> ''a.jpg''] 0)\<lparr>camera := Some (new_Camera\<lparr>position := (3, 4, 5)\<rparr>)\<rparr>))
     = Some (new_Camera\<lparr>position := (0, 0, 1 / 10)\<rparr>)
   \<and> timers (set_src (JStr ''a.jpg'')
        ((newElement [''src'' \<mapsto> ''a.jpg''] 0)\<lparr>camera := Some (new_Camera\<lparr>position := (3, 4, 5)\<rparr>)\<rparr>))
     = []"
  using set_src_unchanged
    [of "(newElement [''src'' \<mapsto> ''a.jpg''] 0)\<lparr>camera := Some (new_Camera\<lparr>position := (3, 4, 5)\<rparr>)\<rparr>"
        "JStr ''a.jpg''"]
  by (simp add: newElement_def getAttribute_def)

section \<open>Parsing without a source\<close>

text \<open>
  Claim C9. When the element has no \<open>src\<close> attribute, \<open>parse\<close> completes, whatever the
  parsers and the metadata reader would answer, without calling any of them (no call is
  recorded), and assigns the fixed fallback: left and right eye are new 10 by 10
  \<open>ImageData\<close>, and \<open>phiLength\<close>, \<open>thetaStart\<close> and \<open>thetaLength\<close> are 0. Nothing else
  of the state changes.
\<close>

theorem parse_without_src:
  "attributes s ''src'' = None \<Longrightarrow>
     parse env s =
       Completed (s\<lparr>stereoData :=
         Some \<lparr>leftEye = ImageData 10 10, rightEye = ImageData 10 10,
               phiLength = 0, thetaStart = 0, thetaLength = 0, roll = None, pitch = None\<rparr>\<rparr>)
     \<and> effects (stateOf (parse env s)) = effects s"
  by (simp add: parse_def get_src_def getAttribute_def fakeStereoData_def)

theorem parse_without_src_witness:
  "attributes (newElement [''type'' \<mapsto> ''vr''] 7) ''src'' = None
   \<and> map_option leftEye
         (stereoData (stateOf (parse sampleParsers (newElement [''type'' \<mapsto> ''vr''] 7))))
       = Some (ImageData 10 10)
   \<and> effects (stateOf (parse sampleParsers (newElement [''type'' \<mapsto> ''vr''] 7))) = []"
  using parse_without_src [of "newElement [''type'' \<mapsto> ''vr''] 7" sampleParsers]
  by (simp add: newElement_def)

section \<open>The scene of a parsed picture\<close>

lemma parse_Completed_stereoData:
  assumes "parse env s0 = Completed s"
  shows "stereoData s \<noteq> None \<and> attributes s = attributes s0"
proof (cases "truthy (attrVal (get_src s0))")
  case False
  with assms show ?thesis
    by (auto simp: parse_def)
next
  case True
  then obtain src where src: "get_src s0 = Some src"
    by (cases "get_src s0") auto
  with True assms have "parseWithSrc env src s0 = Completed s"
    by (simp add: parse_def)
  then show ?thesis
    by (auto simp: parseWithSrc_def awaitStereoData_def attributes_emit
        split: if_splits option.splits)
qed

text \<open>
  Claim C5. For the stereo data \<open>d\<close> that a completed \<open>parse\<close> leaves,
  \<open>initialize3DScene\<close> completes with a new scene whose first two objects are the
  left-eye mesh, on layer 1 alone and textured with \<open>leftEye d\<close>, and the right-eye mesh,
  on layer 2 alone and textured with \<open>rightEye d\<close>. Both spheres have the same geometry,
  of radius 10, starting at \<open>- phiLength d / 2\<close> with \<open>phiLength d\<close>, \<open>thetaStart d\<close>
  and \<open>thetaLength d\<close>, mirrored on the x-axis. A third mesh follows, on layer 0 and
  textured with the back image, exactly when the \<open>angle\<close> attribute is \<open>180\<close> and
  \<open>backImageSrc\<close> is set, that is, the getter returns a truthy value (a non-empty
  string); otherwise the scene has these two objects only.
\<close>

theorem initialize3DScene_meshes:
  "parse env s0 = Completed s \<Longrightarrow>
     (\<exists>d back.
        stereoData s = Some d
        \<and> initialize3DScene s =
            Completed (s\<lparr>scene := Some \<lparr>background = 0x101010,
                           sceneChildren = MeshNode (mesh1 d) # MeshNode (mesh2 d) # back\<rparr>\<rparr>)
        \<and> layers (mesh1 d) = {1} \<and> material (mesh1 d) = MapMaterial (Texture (leftEye d))
        \<and> layers (mesh2 d) = {2} \<and> material (mesh2 d) = MapMaterial (Texture (rightEye d))
        \<and> geometry (mesh1 d) =
            SphereGeometry 10 60 40 (- (phiLength d / 2)) (phiLength d) (thetaStart d) (thetaLength d)
        \<and> geometry (mesh2 d) = geometry (mesh1 d)
        \<and> geometryScale (mesh1 d) = (- 1, 1, 1) \<and> geometryScale (mesh2 d) = (- 1, 1, 1)
        \<and> (attributes s ''angle'' = Some ''180'' \<and> truthy (attrVal (attributes s ''backImageSrc''))
             \<longrightarrow> (\<exists>url. attributes s ''backImageSrc'' = Some url \<and> back = [MeshNode (mesh3 d url)]
                    \<and> layers (mesh3 d url) = {0}
                    \<and> material (mesh3 d url) = MapMaterial (Texture (ImageElement url))))
        \<and> (\<not> (attributes s ''angle'' = Some ''180'' \<and> truthy (attrVal (attributes s ''backImageSrc'')))
             \<longrightarrow> back = []))"
proof -
  assume "parse env s0 = Completed s"
  then obtain d where d: "stereoData s = Some d"
    using parse_Completed_stereoData by blast
  have m: "layers (mesh1 d) = {1}" "material (mesh1 d) = MapMaterial (Texture (leftEye d))"
    "layers (mesh2 d) = {2}" "material (mesh2 d) = MapMaterial (Texture (rightEye d))"
    "geometry (mesh1 d) =
       SphereGeometry 10 60 40 (- (phiLength d / 2)) (phiLength d) (thetaStart d) (thetaLength d)"
    "geometry (mesh2 d) = geometry (mesh1 d)"
    "geometryScale (mesh1 d) = (- 1, 1, 1)" "geometryScale (mesh2 d) = (- 1, 1, 1)"
    by (simp_all add: mesh1_def mesh2_def scaleGeometry_def new_Mesh_def)
  have m3: "layers (mesh3 d url) = {0}"
    "material (mesh3 d url) = MapMaterial (Texture (ImageElement url))" for url
    by (simp_all add: mesh3_def scaleGeometry_def new_Mesh_def)
  show ?thesis
  proof (cases "attributes s ''angle'' = Some ''180'' \<and> truthy (attrVal (attributes s ''backImageSrc''))")
    case True
    then obtain url where url: "attributes s ''backImageSrc'' = Some url"
      by (cases "attributes s ''backImageSrc''") auto
    have "initialize3DScene s =
            Completed (s\<lparr>scene := Some \<lparr>background = 0x101010,
               sceneChildren = MeshNode (mesh1 d) # MeshNode (mesh2 d) # [MeshNode (mesh3 d url)]\<rparr>\<rparr>)"
      using True d url
      by (simp add: initialize3DScene_def Let_def get_angle_def get_backImageSrc_def
          getAttribute_def scene_add_def new_Scene_def)
    with True d url m m3 show ?thesis
      by (intro exI [of _ d] exI [of _ "[MeshNode (mesh3 d url)]"]) simp
  next
    case False
    have "initialize3DScene s =
            Completed (s\<lparr>scene := Some \<lparr>background = 0x101010,
               sceneChildren = MeshNode (mesh1 d) # MeshNode (mesh2 d) # []\<rparr>\<rparr>)"
      using False d
      by (auto simp: initialize3DScene_def Let_def get_angle_def get_backImageSrc_def
          getAttribute_def scene_add_def new_Scene_def split: option.splits)
    with False d m show ?thesis
      by (intro exI [of _ d] exI [of _ "[]"]) simp
  qed
qed

theorem initialize3DScene_meshes_witness:
  "parse sampleParsers (newElement [''src'' \<mapsto> ''a.jpg'', ''type'' \<mapsto> ''vr'', ''angle'' \<mapsto> ''180'',
       ''backImageSrc'' \<mapsto> ''b.jpg''] 0)
     = Completed ((newElement [''src'' \<mapsto> ''a.jpg'', ''type'' \<mapsto> ''vr'', ''angle'' \<mapsto> ''180'',
         ''backImageSrc'' \<mapsto> ''b.jpg''] 0)
         \<lparr>stereoData := Some samplePicture, effects := [(0, ParseVR ''a.jpg'')]\<rparr>)
   \<and> map_option (length \<circ> sceneChildren)
        (scene (stateOf (initialize3DScene
          ((newElement [''src'' \<mapsto> ''a.jpg'', ''type'' \<mapsto> ''vr'', ''angle'' \<mapsto> ''180'',
             ''backImageSrc'' \<mapsto> ''b.jpg''] 0)
           \<lparr>stereoData := Some samplePicture, effects := [(0, ParseVR ''a.jpg'')]\<rparr>)))) = Some 3
   \<and> parse sampleParsers (newElement [''angle'' \<mapsto> ''180''] 0)
     = Completed ((newElement [''angle'' \<mapsto> ''180''] 0)\<lparr>stereoData := Some fakeStereoData\<rparr>)
   \<and> map_option (length \<circ> sceneChildren)
        (scene (stateOf (initialize3DScene
          ((newElement [''angle'' \<mapsto> ''180''] 0)\<lparr>stereoData := Some fakeStereoData\<rparr>)))) = Some 2"
proof -
  let ?a = "newElement [''src'' \<mapsto> ''a.jpg'', ''type'' \<mapsto> ''vr'', ''angle'' \<mapsto> ''180'',
       ''backImageSrc'' \<mapsto> ''b.jpg''] 0"
  let ?b = "newElement [''angle'' \<mapsto> ''180''] 0"
  have pa: "parse sampleParsers ?a
      = Completed (?a\<lparr>stereoData := Some samplePicture, effects := [(0, ParseVR ''a.jpg'')]\<rparr>)"
    by (simp add: parse_def parseWithSrc_def awaitStereoData_def get_src_def get_type_def
        getAttribute_def emit_def newElement_def sampleParsers_def)
  have pb: "parse sampleParsers ?b = Completed (?b\<lparr>stereoData := Some fakeStereoData\<rparr>)"
    by (simp add: parse_def get_src_def getAttribute_def newElement_def)
  from initialize3DScene_meshes [OF pa]
  have "map_option (length \<circ> sceneChildren)
        (scene (stateOf (initialize3DScene
          (?a\<lparr>stereoData := Some samplePicture, effects := [(0, ParseVR ''a.jpg'')]\<rparr>)))) = Some 3"
    by (auto simp: newElement_def)
  moreover from initialize3DScene_meshes [OF pb]
  have "map_option (length \<circ> sceneChildren)
        (scene (stateOf (initialize3DScene (?b\<lparr>stereoData := Some fakeStereoData\<rparr>)))) = Some 2"
    by (auto simp: newElement_def)
  ultimately show ?thesis
    using pa pb by simp
qed

section \<open>The VR button with WebXR support\<close>

lemma click_keeps:
  "button (click w) = button w" "currentSession (click w) = currentSession w"
  "supportPending (click w) = supportPending w" "starting (click w) = starting w"
  "endListeners (click w) = endListeners w"
  by (simp_all add: click_def toggleSession_def split: option.splits handler.splits)

lemma showEnterVR_state:
  "currentSession (showEnterVR w) = None" "textContent (button (showEnterVR w)) = ''View in 3D VR''"
  "onclick (button (showEnterVR w)) = Some ToggleSession"
  "supportPending (showEnterVR w) = supportPending w"
  by (simp_all add: showEnterVR_def)

lemma supported_start:
  assumes "hasXR nav"
  shows "(currentSession (vrStep (SupportResolved True) (createButton nav g)) = None)
           = (textContent (button (vrStep (SupportResolved True) (createButton nav g))) = ''View in 3D VR'')"
    and "\<not> supportPending (vrStep (SupportResolved True) (createButton nav g))"
    and "onclick (button (vrStep (SupportResolved True) (createButton nav g))) = Some ToggleSession"
  using assms by (simp_all add: createButton_def Let_def click_keeps showEnterVR_state)

lemma vrStep_keeps:
  assumes "(currentSession w = None) = (textContent (button w) = ''View in 3D VR'')"
    and "\<not> supportPending w" and "onclick (button w) = Some ToggleSession"
  shows "(currentSession (vrStep e w) = None) = (textContent (button (vrStep e w)) = ''View in 3D VR'')"
    and "\<not> supportPending (vrStep e w)" and "onclick (button (vrStep e w)) = Some ToggleSession"
  using assms
  by (cases e; simp add: click_keeps onSessionStarted_def onSessionStartedResumed_def
      onSessionEnded_def split: option.splits)+

lemma vrExec_keeps:
  assumes "(currentSession w = None) = (textContent (button w) = ''View in 3D VR'')"
    and "\<not> supportPending w" and "onclick (button w) = Some ToggleSession"
  shows "(currentSession (vrExec es w) = None) = (textContent (button (vrExec es w)) = ''View in 3D VR'')
         \<and> \<not> supportPending (vrExec es w) \<and> onclick (button (vrExec es w)) = Some ToggleSession"
  using assms
proof (induction es arbitrary: w)
  case Nil
  then show ?case by simp
next
  case (Cons e es)
  from vrStep_keeps [OF Cons.prems] Cons.IH [of "vrStep e w"] show ?case
    by simp
qed

lemma click_requests:
  assumes "onclick (button w) = Some ToggleSession" "currentSession w = None"
  shows "calls (vrStep Click w) =
           calls w @ [RequestSession ''immersive-vr''
                        [''local-floor'', ''bounded-floor'', ''hand-tracking'', ''layers'']]"
    and "pendingRequests (vrStep Click w) = Suc (pendingRequests w)"
  using assms by (simp_all add: click_def toggleSession_def)

lemma click_ends:
  assumes "onclick (button w) = Some ToggleSession" "currentSession w = Some n"
  shows "calls (vrStep Click w) = calls w @ [EndSession n]"
  using assms by (simp add: click_def toggleSession_def)

lemma session_end_resets:
  assumes "(currentSession w = None) = (textContent (button w) = ''View in 3D VR'')"
    and "n \<in> set (endListeners w)"
  shows "textContent (button (vrStep (SessionEnd n) w)) = ''View in 3D VR''"
    and "currentSession (vrStep (SessionEnd n) w) = None"
  using assms by (auto simp: onSessionEnded_def split: option.splits)

text \<open>
  Claim C2. Take the button that \<open>createButton\<close> returns where WebXR exists, once the
  support query has resolved true, and let any sequence of clicks and session events
  follow. In the state reached, \<open>currentSession\<close> is null exactly when the button reads
  \<open>View in 3D VR\<close>. A click with \<open>currentSession\<close> null requests an \<open>immersive-vr\<close>
  session; once a request is open and the session is granted, \<open>onSessionStarted\<close>
  listens for its end and waits for \<open>setSession\<close>, and when that has resolved the button
  reads \<open>Exit VR\<close> and \<open>currentSession\<close> is that session. A click with a session
  current ends that session, and the \<open>end\<close> event of a session listened to leaves the
  button reading \<open>View in 3D VR\<close> with \<open>currentSession\<close> null.
\<close>

theorem vrButton_toggles:
  "hasXR nav \<Longrightarrow> w = vrExec es (vrStep (SupportResolved True) (createButton nav granted)) \<Longrightarrow>
     (currentSession w = None) = (textContent (button w) = ''View in 3D VR'')
     \<and> (currentSession w = None \<longrightarrow>
          calls (vrStep Click w) =
            calls w @ [RequestSession ''immersive-vr''
                         [''local-floor'', ''bounded-floor'', ''hand-tracking'', ''layers'']]
          \<and> pendingRequests (vrStep Click w) = Suc (pendingRequests w))
     \<and> (\<forall>n. 0 < pendingRequests w \<longrightarrow>
          n \<in> set (starting (vrStep (SessionGranted n) w))
          \<and> n \<in> set (endListeners (vrStep (SessionGranted n) w)))
     \<and> (\<forall>n. n \<in> set (starting w) \<longrightarrow>
          textContent (button (vrStep (SetSessionResolved n) w)) = ''Exit VR''
          \<and> currentSession (vrStep (SetSessionResolved n) w) = Some n)
     \<and> (\<forall>n. currentSession w = Some n \<longrightarrow> calls (vrStep Click w) = calls w @ [EndSession n])
     \<and> (\<forall>n. n \<in> set (endListeners w) \<longrightarrow>
          textContent (button (vrStep (SessionEnd n) w)) = ''View in 3D VR''
          \<and> currentSession (vrStep (SessionEnd n) w) = None)"
proof -
  assume xr: "hasXR nav" and w: "w = vrExec es (vrStep (SupportResolved True) (createButton nav granted))"
  have inv: "(currentSession w = None) = (textContent (button w) = ''View in 3D VR'')"
    "onclick (button w) = Some ToggleSession"
    unfolding w using vrExec_keeps [OF supported_start [OF xr]] by blast+
  have granted: "n \<in> set (starting (vrStep (SessionGranted n) w))
      \<and> n \<in> set (endListeners (vrStep (SessionGranted n) w))" if "0 < pendingRequests w" for n
    using that by (simp add: onSessionStarted_def)
  have resumed: "textContent (button (vrStep (SetSessionResolved n) w)) = ''Exit VR''
      \<and> currentSession (vrStep (SetSessionResolved n) w) = Some n" if "n \<in> set (starting w)" for n
    using that by (simp add: onSessionStartedResumed_def)
  show ?thesis
    using inv click_requests [OF inv(2)] click_ends [OF inv(2)] session_end_resets [OF inv(1)]
      granted resumed
    by blast
qed

theorem vrButton_toggles_witness:
  "hasXR xrNavigator
   \<and> currentSession (vrExec [] (vrStep (SupportResolved True) (createButton xrNavigator False))) = None
   \<and> textContent (button (vrExec [] (vrStep (SupportResolved True) (createButton xrNavigator False))))
       = ''View in 3D VR''
   \<and> calls (vrStep Click (vrExec [] (vrStep (SupportResolved True) (createButton xrNavigator False))))
       = [IsSessionSupported ''immersive-vr'',
          RequestSession ''immersive-vr'' [''local-floor'', ''bounded-floor'', ''hand-tracking'', ''layers'']]
   \<and> 0 < pendingRequests (vrExec [Click] (vrStep (SupportResolved True) (createButton xrNavigator False)))
   \<and> 7 \<in> set (starting (vrStep (SessionGranted 7)
         (vrExec [Click] (vrStep (SupportResolved True) (createButton xrNavigator False)))))
   \<and> 7 \<in> set (starting (vrExec [Click, SessionGranted 7]
         (vrStep (SupportResolved True) (createButton xrNavigator False))))
   \<and> textContent (button (vrStep (SetSessionResolved 7) (vrExec [Click, SessionGranted 7]
         (vrStep (SupportResolved True) (createButton xrNavigator False))))) = ''Exit VR''
   \<and> currentSession (vrExec [Click, SessionGranted 7, SetSessionResolved 7]
         (vrStep (SupportResolved True) (createButton xrNavigator False))) = Some 7
   \<and> calls (vrStep Click (vrExec [Click, SessionGranted 7, SetSessionResolved 7]
         (vrStep (SupportResolved True) (createButton xrNavigator False))))
       = [IsSessionSupported ''immersive-vr'',
          RequestSession ''immersive-vr'' [''local-floor'', ''bounded-floor'', ''hand-tracking'', ''layers''],
          SetSession 7, EndSession 7]
   \<and> 7 \<in> set (endListeners (vrExec [Click, SessionGranted 7, SetSessionResolved 7]
         (vrStep (SupportResolved True) (createButton xrNavigator False))))
   \<and> textContent (button (vrStep (SessionEnd 7) (vrExec [Click, SessionGranted 7, SetSessionResolved 7]
         (vrStep (SupportResolved True) (createButton xrNavigator False))))) = ''View in 3D VR''
   \<and> currentSession (vrStep (SessionEnd 7) (vrExec [Click, SessionGranted 7, SetSessionResolved 7]
         (vrStep (SupportResolved True) (createButton xrNavigator False)))) = None"
proof -
  have xr: "hasXR xrNavigator"
    by (simp add: xrNavigator_def)
  note defs = createButton_def Let_def showEnterVR_def click_def toggleSession_def
    onSessionStarted_def onSessionStartedResumed_def onSessionEnded_def xrNavigator_def
  have h1: "currentSession (vrExec [] (vrStep (SupportResolved True) (createButton xrNavigator False))) = None"
    by (simp add: defs)
  have h2: "0 < pendingRequests (vrExec [Click] (vrStep (SupportResolved True) (createButton xrNavigator False)))"
    by (simp add: defs)
  have h3: "7 \<in> set (starting (vrExec [Click, SessionGranted 7]
         (vrStep (SupportResolved True) (createButton xrNavigator False))))"
    by (simp add: defs)
  have h4: "currentSession (vrExec [Click, SessionGranted 7, SetSessionResolved 7]
         (vrStep (SupportResolved True) (createButton xrNavigator False))) = Some 7"
    by (simp add: defs)
  have h5: "7 \<in> set (endListeners (vrExec [Click, SessionGranted 7, SetSessionResolved 7]
         (vrStep (SupportResolved True) (createButton xrNavigator False))))"
    by (simp add: defs)
  have c4: "calls (vrExec [Click, SessionGranted 7, SetSessionResolved 7]
         (vrStep (SupportResolved True) (createButton xrNavigator False)))
       = [IsSessionSupported ''immersive-vr'',
          RequestSession ''immersive-vr'' [''local-floor'', ''bounded-floor'', ''hand-tracking'', ''layers''],
          SetSession 7]"
    by (simp add: defs)
  have c1: "calls (vrExec [] (vrStep (SupportResolved True) (createButton xrNavigator False)))
       = [IsSessionSupported ''immersive-vr'']"
    by (simp add: defs)
  let ?w0 = "vrStep (SupportResolved True) (createButton xrNavigator False)"
  from vrButton_toggles [OF xr refl, of "[]" False] h1
  have a1: "textContent (button (vrExec [] ?w0)) = ''View in 3D VR''"
    and a2: "calls (vrStep Click (vrExec [] ?w0)) = calls (vrExec [] ?w0)
        @ [RequestSession ''immersive-vr'' [''local-floor'', ''bounded-floor'', ''hand-tracking'', ''layers'']]"
    by blast+
  from a2 have a3: "calls (vrStep Click (vrExec [] ?w0))
       = [IsSessionSupported ''immersive-vr'',
          RequestSession ''immersive-vr'' [''local-floor'', ''bounded-floor'', ''hand-tracking'', ''layers'']]"
    by (simp only: c1 append.simps)
  from vrButton_toggles [OF xr refl, of "[Click]" False] h2
  have b: "7 \<in> set (starting (vrStep (SessionGranted 7) (vrExec [Click] ?w0)))"
    by blast
  from vrButton_toggles [OF xr refl, of "[Click, SessionGranted 7]" False] h3
  have c: "textContent (button (vrStep (SetSessionResolved 7) (vrExec [Click, SessionGranted 7] ?w0)))
      = ''Exit VR''"
    by blast
  from vrButton_toggles [OF xr refl, of "[Click, SessionGranted 7, SetSessionResolved 7]" False] h4 h5
  have d1: "calls (vrStep Click (vrExec [Click, SessionGranted 7, SetSessionResolved 7] ?w0))
       = calls (vrExec [Click, SessionGranted 7, SetSessionResolved 7] ?w0) @ [EndSession 7]"
    and d2: "textContent (button (vrStep (SessionEnd 7)
         (vrExec [Click, SessionGranted 7, SetSessionResolved 7] ?w0))) = ''View in 3D VR''"
    and d3: "currentSession (vrStep (SessionEnd 7)
         (vrExec [Click, SessionGranted 7, SetSessionResolved 7] ?w0)) = None"
    by blast+
  from d1 have d4: "calls (vrStep Click (vrExec [Click, SessionGranted 7, SetSessionResolved 7] ?w0))
       = [IsSessionSupported ''immersive-vr'',
          RequestSession ''immersive-vr'' [''local-floor'', ''bounded-floor'', ''hand-tracking'', ''layers''],
          SetSession 7, EndSession 7]"
    by (simp only: c4 append.simps)
  from xr h1 h2 h3 h4 h5 a1 a3 b c d2 d3 d4 show ?thesis
    by blast
qed

section \<open>The VR button without WebXR support\<close>

lemma createButton_noXR:
  assumes "\<not> hasXR nav"
  shows "tagName (returnedElement (createButton nav g)) = ''a''"
    and "style (returnedElement (createButton nav g)) ''display'' = Some ''none''"
    and "textContent (returnedElement (createButton nav g)) =
           (if isSecureContext nav = Some False then ''VR Mode Requires HTTPS''
            else ''VR Mode Unavailable (?)'')"
    and "href (returnedElement (createButton nav g)) =
           Some (if isSecureContext nav = Some False then httpsHref (locationHref nav)
                 else ''#unavailable'')"
    and "onclick (returnedElement (createButton nav g)) = None"
    and "onmouseenter (returnedElement (createButton nav g)) = None"
    and "onmouseleave (returnedElement (createButton nav g)) = None"
    and "calls (createButton nav g) = []"
    and "button (createButton nav g) = createElement ''button''"
  using assms
  by (simp_all add: createButton_def Let_def returnedElement_def stylizeElement_def setStyle_def
      createElement_def)

lemma createButton_noXR_settled:
  assumes "\<not> hasXR nav"
  shows "vrStep e (createButton nav g) = createButton nav g"
proof -
  have "\<not> supportPending (createButton nav g)" "onclick (button (createButton nav g)) = None"
    "pendingRequests (createButton nav g) = 0" "starting (createButton nav g) = []"
    "endListeners (createButton nav g) = []" "\<not> sessionGrantedListener (createButton nav g)"
    using assms
    by (simp_all add: createButton_def Let_def createElement_def registerSessionGrantedListener_def)
  then show ?thesis
    by (cases e) (simp_all add: click_def)
qed

lemma createButton_XR:
  assumes "hasXR nav"
  shows "returnedElement (createButton nav g) = button (createButton nav g)"
    and "tagName (button (createButton nav g)) = ''button''"
    and "supportPending (createButton nav g)"
    and "calls (createButton nav g) = [IsSessionSupported ''immersive-vr'']"
    and "onclick (button (createButton nav g)) = None"
    and "onmouseenter (button (createButton nav g)) = None"
    and "onmouseleave (button (createButton nav g)) = None"
  using assms
  by (simp_all add: createButton_def Let_def returnedElement_def stylizeElement_def setStyle_def
      createElement_def)

lemma disableButton_state:
  "style (button (disableButton w)) ''display'' = Some ''none''"
  "onclick (button (disableButton w)) = None"
  "onmouseenter (button (disableButton w)) = None"
  "onmouseleave (button (disableButton w)) = None"
  "message (disableButton w) = message w"
  "calls (disableButton w) = calls w"
  by (simp_all add: disableButton_def setStyle_def)

lemma disableButton_eq:
  assumes "onclick (button w) = None" "onmouseenter (button w) = None" "onmouseleave (button w) = None"
  shows "disableButton w = w\<lparr>button := setStyle ''display'' ''none'' (button w)\<rparr>"
  using assms by (simp add: disableButton_def setStyle_def)

text \<open>
  Claim C3, as amended. Without a \<open>xr\<close> member of \<open>navigator\<close>, \<open>createButton\<close>
  returns, in place of the button, a hidden message link: an anchor with display
  \<open>none\<close> that reads \<open>VR Mode Requires HTTPS\<close> (linking to the https address) in an
  insecure context and \<open>VR Mode Unavailable (?)\<close> otherwise, with no handlers; no
  warning is logged, and nothing that happens later changes anything. With a \<open>xr\<close>
  member the button itself is returned; when the support query resolves false the
  button is hidden and its \<open>onclick\<close>, \<open>onmouseenter\<close> and \<open>onmouseleave\<close> handlers
  are null, and nothing is logged; when the query rejects the same holds and one console
  warning with the exception is logged. In both cases nothing else of the state changes.
\<close>

theorem createButton_unsupported:
  "(\<not> hasXR nav \<longrightarrow>
      tagName (returnedElement (createButton nav g)) = ''a''
      \<and> style (returnedElement (createButton nav g)) ''display'' = Some ''none''
      \<and> textContent (returnedElement (createButton nav g)) =
           (if isSecureContext nav = Some False then ''VR Mode Requires HTTPS''
            else ''VR Mode Unavailable (?)'')
      \<and> href (returnedElement (createButton nav g)) =
           Some (if isSecureContext nav = Some False then httpsHref (locationHref nav)
                 else ''#unavailable'')
      \<and> onclick (returnedElement (createButton nav g)) = None
      \<and> onmouseenter (returnedElement (createButton nav g)) = None
      \<and> onmouseleave (returnedElement (createButton nav g)) = None
      \<and> calls (createButton nav g) = []
      \<and> (\<forall>e. vrStep e (createButton nav g) = createButton nav g))
   \<and> (hasXR nav \<longrightarrow>
      returnedElement (createButton nav g) = button (createButton nav g)
      \<and> tagName (button (createButton nav g)) = ''button''
      \<and> vrStep (SupportResolved False) (createButton nav g) =
          (createButton nav g)
          \<lparr>supportPending := False,
           button := setStyle ''display'' ''none'' (button (createButton nav g))\<rparr>
      \<and> style (returnedElement (vrStep (SupportResolved False) (createButton nav g))) ''display''
          = Some ''none''
      \<and> onclick (returnedElement (vrStep (SupportResolved False) (createButton nav g))) = None
      \<and> onmouseenter (returnedElement (vrStep (SupportResolved False) (createButton nav g))) = None
      \<and> onmouseleave (returnedElement (vrStep (SupportResolved False) (createButton nav g))) = None
      \<and> calls (vrStep (SupportResolved False) (createButton nav g))
          = [IsSessionSupported ''immersive-vr'']
      \<and> (\<forall>ex. vrStep (SupportRejected ex) (createButton nav g) =
             (createButton nav g)
             \<lparr>supportPending := False,
              button := setStyle ''display'' ''none'' (button (createButton nav g)),
              calls := [IsSessionSupported ''immersive-vr'',
                        ConsoleWarnVR ''Exception when trying to call xr.isSessionSupported'' ex]\<rparr>
           \<and> style (returnedElement (vrStep (SupportRejected ex) (createButton nav g))) ''display''
               = Some ''none''
           \<and> onclick (returnedElement (vrStep (SupportRejected ex) (createButton nav g))) = None
           \<and> onmouseenter (returnedElement (vrStep (SupportRejected ex) (createButton nav g))) = None
           \<and> onmouseleave (returnedElement (vrStep (SupportRejected ex) (createButton nav g))) = None))"
proof (intro conjI impI allI)
  fix e
  assume no: "\<not> hasXR nav"
  show "vrStep e (createButton nav g) = createButton nav g"
    by (rule createButton_noXR_settled [OF no])
next
  assume xr: "hasXR nav"
  let ?w = "createButton nav g"
  note b = createButton_XR [OF xr, of g]
  have msg: "message ?w = None"
    using xr by (simp add: createButton_def Let_def)
  have dis: "disableButton (?w\<lparr>supportPending := False\<rparr>) =
      ?w\<lparr>supportPending := False, button := setStyle ''display'' ''none'' (button ?w)\<rparr>"
    using b(5-7) by (simp add: disableButton_eq)
  show f: "vrStep (SupportResolved False) ?w =
      ?w\<lparr>supportPending := False, button := setStyle ''display'' ''none'' (button ?w)\<rparr>"
    using b(3) dis by (simp add: showWebXRNotFound_def)
  have r: "returnedElement (vrStep (SupportResolved False) ?w) = setStyle ''display'' ''none'' (button ?w)"
    unfolding f using msg by (simp add: returnedElement_def)
  show "style (returnedElement (vrStep (SupportResolved False) ?w)) ''display'' = Some ''none''"
    "onclick (returnedElement (vrStep (SupportResolved False) ?w)) = None"
    "onmouseenter (returnedElement (vrStep (SupportResolved False) ?w)) = None"
    "onmouseleave (returnedElement (vrStep (SupportResolved False) ?w)) = None"
    unfolding r using b(5-7) by (simp_all add: setStyle_def)
  show "calls (vrStep (SupportResolved False) ?w) = [IsSessionSupported ''immersive-vr'']"
    unfolding f using b(4) by simp
  fix ex
  show j: "vrStep (SupportRejected ex) ?w =
      ?w\<lparr>supportPending := False, button := setStyle ''display'' ''none'' (button ?w),
         calls := [IsSessionSupported ''immersive-vr'',
                   ConsoleWarnVR ''Exception when trying to call xr.isSessionSupported'' ex]\<rparr>"
    using b(3,4) dis by (simp add: showVRNotAllowed_def)
  have r': "returnedElement (vrStep (SupportRejected ex) ?w) = setStyle ''display'' ''none'' (button ?w)"
    unfolding j using msg by (simp add: returnedElement_def)
  show "style (returnedElement (vrStep (SupportRejected ex) ?w)) ''display'' = Some ''none''"
    "onclick (returnedElement (vrStep (SupportRejected ex) ?w)) = None"
    "onmouseenter (returnedElement (vrStep (SupportRejected ex) ?w)) = None"
    "onmouseleave (returnedElement (vrStep (SupportRejected ex) ?w)) = None"
    unfolding r' using b(5-7) by (simp_all add: setStyle_def)
qed (simp_all add: createButton_noXR createButton_XR)

theorem createButton_unsupported_witness:
  "\<not> hasXR plainNavigator
   \<and> tagName (returnedElement (createButton plainNavigator False)) = ''a''
   \<and> style (returnedElement (createButton plainNavigator False)) ''display'' = Some ''none''
   \<and> textContent (returnedElement (createButton plainNavigator False)) = ''VR Mode Requires HTTPS''
   \<and> href (returnedElement (createButton plainNavigator False)) = Some ''https://example.org/''
   \<and> vrStep Click (createButton plainNavigator False) = createButton plainNavigator False
   \<and> hasXR xrNavigator
   \<and> tagName (returnedElement (createButton xrNavigator False)) = ''button''
   \<and> style (returnedElement (vrStep (SupportResolved False) (createButton xrNavigator False))) ''display''
       = Some ''none''
   \<and> onclick (returnedElement (vrStep (SupportResolved False) (createButton xrNavigator False))) = None
   \<and> calls (vrStep (SupportResolved False) (createButton xrNavigator False))
       = [IsSessionSupported ''immersive-vr'']
   \<and> style (returnedElement (vrStep (SupportRejected ''SecurityError'') (createButton xrNavigator False)))
        ''display'' = Some ''none''
   \<and> calls (vrStep (SupportRejected ''SecurityError'') (createButton xrNavigator False))
       = [IsSessionSupported ''immersive-vr'',
          ConsoleWarnVR ''Exception when trying to call xr.isSessionSupported'' ''SecurityError'']"
proof -
  have no: "\<not> hasXR plainNavigator" and xr: "hasXR xrNavigator"
    by (simp_all add: plainNavigator_def xrNavigator_def)
  have p: "isSecureContext plainNavigator = Some False"
    "httpsHref (locationHref plainNavigator) = ''https://example.org/''"
    by (simp_all add: plainNavigator_def httpsHref_def)
  from createButton_unsupported [of plainNavigator False] no p
  have a: "tagName (returnedElement (createButton plainNavigator False)) = ''a''"
    "style (returnedElement (createButton plainNavigator False)) ''display'' = Some ''none''"
    "textContent (returnedElement (createButton plainNavigator False)) = ''VR Mode Requires HTTPS''"
    "href (returnedElement (createButton plainNavigator False)) = Some ''https://example.org/''"
    "vrStep Click (createButton plainNavigator False) = createButton plainNavigator False"
    by (simp_all del: vrStep.simps)
  from createButton_unsupported [of xrNavigator False] xr
  have b: "returnedElement (createButton xrNavigator False) = button (createButton xrNavigator False)"
    "tagName (button (createButton xrNavigator False)) = ''button''"
    "style (returnedElement (vrStep (SupportResolved False) (createButton xrNavigator False))) ''display''
       = Some ''none''"
    "onclick (returnedElement (vrStep (SupportResolved False) (createButton xrNavigator False))) = None"
    "calls (vrStep (SupportResolved False) (createButton xrNavigator False))
       = [IsSessionSupported ''immersive-vr'']"
    "style (returnedElement (vrStep (SupportRejected ''SecurityError'') (createButton xrNavigator False)))
        ''display'' = Some ''none''"
    by blast+
  from createButton_unsupported [of xrNavigator False] xr
  have "vrStep (SupportRejected ''SecurityError'') (createButton xrNavigator False) =
      (createButton xrNavigator False)
      \<lparr>supportPending := False,
       button := setStyle ''display'' ''none'' (button (createButton xrNavigator False)),
       calls := [IsSessionSupported ''immersive-vr'',
                 ConsoleWarnVR ''Exception when trying to call xr.isSessionSupported'' ''SecurityError'']\<rparr>"
    by blast
  then have c: "calls (vrStep (SupportRejected ''SecurityError'') (createButton xrNavigator False))
       = [IsSessionSupported ''immersive-vr'',
          ConsoleWarnVR ''Exception when trying to call xr.isSessionSupported'' ''SecurityError'']"
    by (simp del: vrStep.simps)
  from no xr a b c show ?thesis
    by (simp only: simp_thms)
qed

text \<open>
  Claim C3 as it was stated fails where \<open>navigator\<close> has no \<open>xr\<close> member: what
  \<open>createButton\<close> returns is an anchor, not the button; the button it created stays as
  it was, not hidden; and no warning is logged.
\<close>

theorem createButton_noXR_counterexample:
  "tagName (returnedElement (createButton plainNavigator False)) = ''a''
   \<and> tagName (button (createButton plainNavigator False)) = ''button''
   \<and> returnedElement (createButton plainNavigator False) \<noteq> button (createButton plainNavigator False)
   \<and> style (button (createButton plainNavigator False)) ''display'' = None
   \<and> calls (createButton plainNavigator False) = []"
proof -
  have t: "tagName (returnedElement (createButton plainNavigator False)) = ''a''"
    "tagName (button (createButton plainNavigator False)) = ''button''"
    "style (button (createButton plainNavigator False)) ''display'' = None"
    "calls (createButton plainNavigator False) = []"
    by (simp_all add: createButton_def Let_def returnedElement_def stylizeElement_def setStyle_def
        createElement_def plainNavigator_def)
  from t(1,2) have "returnedElement (createButton plainNavigator False) \<noteq> button (createButton plainNavigator False)"
    by auto
  with t show ?thesis
    by simp
qed

section \<open>Code that leaves timers and events alone\<close>

lemma quietI:
  assumes "now s' = now s" "timers s' = timers s" "lastTimerId s' = lastTimerId s"
    "prevNextTimer s' = prevNextTimer s" "prevNextTimerStartMS s' = prevNextTimerStartMS s"
    "effects s' = effects s"
  shows "quiet s s'"
  unfolding quiet_def using assms by (intro conjI exI [of _ "[]"]) simp_all

lemma quiet_refl: "quiet s s"
  by (rule quietI) simp_all

lemma quiet_trans:
  assumes "quiet a b" "quiet b c"
  shows "quiet a c"
proof -
  from assms(1) obtain es where es: "effects b = effects a @ map (Pair (now a)) es"
      "list_all isParserCall es" and ab: "now b = now a" "timers b = timers a"
      "lastTimerId b = lastTimerId a" "prevNextTimer b = prevNextTimer a"
      "prevNextTimerStartMS b = prevNextTimerStartMS a"
    unfolding quiet_def by blast
  from assms(2) obtain fs where fs: "effects c = effects b @ map (Pair (now b)) fs"
      "list_all isParserCall fs" and bc: "now c = now b" "timers c = timers b"
      "lastTimerId c = lastTimerId b" "prevNextTimer c = prevNextTimer b"
      "prevNextTimerStartMS c = prevNextTimerStartMS b"
    unfolding quiet_def by blast
  have "effects c = effects a @ map (Pair (now a)) (es @ fs)" "list_all isParserCall (es @ fs)"
    using es fs ab(1) by simp_all
  with ab bc show ?thesis
    unfolding quiet_def by (intro conjI exI [of _ "es @ fs"]) simp_all
qed

lemma quiet_emit:
  assumes "isParserCall e"
  shows "quiet s (emit e s)"
  unfolding quiet_def using assms by (intro conjI exI [of _ "[e]"]) (simp_all add: emit_def)

lemma quiet_andThen:
  assumes "quiet s (stateOf oc)" and "\<And>x. quiet x (stateOf (f x))"
  shows "quiet s (stateOf (andThen oc f))"
proof (cases oc)
  case (Completed x)
  with assms(1) assms(2) [of x] show ?thesis
    by (auto intro: quiet_trans)
next
  case (Thrown x)
  with assms(1) show ?thesis by simp
qed

lemma quiet_awaitStereoData:
  assumes "isParserCall call"
  shows "quiet s (stateOf (awaitStereoData call res s))"
proof -
  have "quiet (emit call s) (stateOf (awaitStereoData call res s))"
    by (cases res) (auto simp: awaitStereoData_def intro: quietI)
  with quiet_emit [OF assms] show ?thesis
    by (rule quiet_trans)
qed

lemma quiet_parseWithSrc: "quiet s (stateOf (parseWithSrc env src s))"
proof -
  have a: "quiet s (stateOf (awaitStereoData call res (emit (ExifrParse src) s)))"
    if "isParserCall call" for call res
    using quiet_emit [of "ExifrParse src" s] quiet_awaitStereoData [OF that]
    by (auto intro: quiet_trans)
  have b: "quiet s (stateOf (awaitStereoData call res
      (emit (ConsoleWarn NO_TYPE_WARNING) (emit (ExifrParse src) s))))"
    if "isParserCall call" for call res
    using quiet_emit [of "ExifrParse src" s]
      quiet_emit [of "ConsoleWarn NO_TYPE_WARNING" "emit (ExifrParse src) s"]
      quiet_awaitStereoData [OF that]
    by (auto intro: quiet_trans)
  show ?thesis
    unfolding parseWithSrc_def
    by (auto simp: quiet_awaitStereoData quiet_emit a b split: option.splits)
qed

lemma quiet_parse: "quiet s (stateOf (parse env s))"
  unfolding parse_def
  by (auto simp: quiet_parseWithSrc split: option.splits intro: quietI)

lemma quiet_initialize3DScene: "quiet s (stateOf (initialize3DScene s))"
  unfolding initialize3DScene_def Let_def
  by (auto split: option.splits intro: quietI)

lemma quiet_resetCameraPosition: "quiet s (resetCameraPosition s)"
  by (rule quietI) (simp_all add: resetCameraPosition_def)

lemma quiet_addPrevNextButtons: "quiet s (stateOf (addPrevNextButtons s))"
  unfolding addPrevNextButtons_def Let_def
  by (auto split: option.splits intro: quietI)

lemma quiet_parseImageAndInitialize3DScene:
  "quiet s (stateOf (parseImageAndInitialize3DScene env s))"
proof -
  have "quiet s (s\<lparr>opacity := ''0''\<rparr>)"
    by (rule quietI) simp_all
  then have 1: "quiet s (stateOf (parse env (s\<lparr>opacity := ''0''\<rparr>)))"
    using quiet_parse by (rule quiet_trans)
  have 2: "quiet x (stateOf (let s2 = resetCameraPosition x
                      in if camera s2 \<noteq> None then addPrevNextButtons s2 else Completed s2))" for x
    using quiet_resetCameraPosition [of x] quiet_addPrevNextButtons [of "resetCameraPosition x"]
    by (auto simp: Let_def intro: quiet_trans)
  have 3: "quiet x (stateOf (Completed (x\<lparr>opacity := ''1''\<rparr>)))" for x
    by (auto intro: quietI)
  show ?thesis
    unfolding parseImageAndInitialize3DScene_def
    by (intro quiet_andThen 1 2 3 quiet_initialize3DScene)
qed

lemma quiet_init: "quiet s (stateOf (init env s))"
proof -
  have 1: "quiet x (stateOf (addPrevNextButtons
      (x\<lparr>renderer := True, camera := Some (new_Camera\<lparr>layers := insert 1 (layers new_Camera)\<rparr>),
         raycaster := True\<rparr>)))" for x
  proof -
    have "quiet x (x\<lparr>renderer := True,
        camera := Some (new_Camera\<lparr>layers := insert 1 (layers new_Camera)\<rparr>), raycaster := True\<rparr>)"
      by (rule quietI) simp_all
    then show ?thesis
      using quiet_addPrevNextButtons by (rule quiet_trans)
  qed
  have 2: "quiet x (stateOf (Completed
      ((resetCameraPosition (x\<lparr>controls := True\<rparr>))\<lparr>animating := True\<rparr>)))" for x
    by (auto simp: resetCameraPosition_def intro: quietI)
  show ?thesis
    unfolding init_def
    by (intro quiet_andThen 1 2 quiet_parseImageAndInitialize3DScene)
qed

lemma quiet_constructor: "quiet (newElement attrs t) (constructor env attrs t)"
  unfolding constructor_def by (rule quiet_init)

lemma quiet_controlsUpdate: "quiet s (controlsUpdate p s)"
  by (rule quietI) (simp_all add: controlsUpdate_def)

lemma updatePrevNextRing_keeps:
  "now (stateOf (updatePrevNextRing s)) = now s"
  "timers (stateOf (updatePrevNextRing s)) = timers s"
  "lastTimerId (stateOf (updatePrevNextRing s)) = lastTimerId s"
  "prevNextTimer (stateOf (updatePrevNextRing s)) = prevNextTimer s"
  "prevNextTimerStartMS (stateOf (updatePrevNextRing s)) = prevNextTimerStartMS s"
  "effects (stateOf (updatePrevNextRing s)) = effects s"
  "timerRingForPrev (stateOf (updatePrevNextRing s)) = timerRingForPrev s"
  unfolding updatePrevNextRing_def removeOldRing_def turnButtons_def addNewRing_def Let_def
  by (auto simp: timerPending_def split: option.splits)

lemma controlsUpdate_keeps:
  "now (controlsUpdate p s) = now s"
  "timers (controlsUpdate p s) = timers s"
  "lastTimerId (controlsUpdate p s) = lastTimerId s"
  "prevNextTimer (controlsUpdate p s) = prevNextTimer s"
  "prevNextTimerStartMS (controlsUpdate p s) = prevNextTimerStartMS s"
  "effects (controlsUpdate p s) = effects s"
  "timerRingForPrev (controlsUpdate p s) = timerRingForPrev s"
  "raycaster (controlsUpdate p s) = raycaster s"
  "prevNextButtons (controlsUpdate p s) = prevNextButtons s"
  "scene (controlsUpdate p s) = scene s"
  "(camera (controlsUpdate p s) = None) = (camera s = None)"
  by (simp_all add: controlsUpdate_def)

lemma quiet_updatePrevNextRing: "quiet s (stateOf (updatePrevNextRing s))"
  by (rule quietI) (simp_all add: updatePrevNextRing_keeps)

section \<open>Starting, cancelling and expiring a dwell\<close>

lemma startDwell_pending: "timerPending s \<Longrightarrow> startDwell c s = s"
  by (simp add: startDwell_def)

lemma startDwell_idle:
  assumes "\<not> timerPending s"
  shows "startDwell c s =
           s\<lparr>prevNextTimerStartMS := Some (now s),
             lastTimerId := Suc (lastTimerId s),
             timers := timers s @ [\<lparr>tid = Suc (lastTimerId s), due = now s + PREV_NEXT_TIMEOUT_MS, cb = c\<rparr>],
             effects := effects s @ [(now s, SetTimeout (Suc (lastTimerId s)) c PREV_NEXT_TIMEOUT_MS)],
             prevNextTimer := Some (Suc (lastTimerId s))\<rparr>"
  using assms by (simp add: startDwell_def setTimeout_def emit_def Let_def)

lemma timerPending_startDwell: "timerPending (startDwell c s)"
  by (cases "timerPending s") (simp_all add: startDwell_pending startDwell_idle, simp add: timerPending_def)

lemma timerPending_ring [simp]: "timerPending (s\<lparr>timerRingForPrev := f\<rparr>) = timerPending s"
  by (simp add: timerPending_def)

lemma startDwell_ring:
  "startDwell c (s\<lparr>timerRingForPrev := f\<rparr>) = (startDwell c s)\<lparr>timerRingForPrev := f\<rparr>"
  by (cases "timerPending s") (simp_all add: startDwell_pending startDwell_idle)

lemma parentName_Some:
  "parentName x = Some n \<longleftrightarrow> (\<exists>ob p. x = Some ob \<and> refParent ob = Some p \<and> refName p = n)"
  by (auto simp: parentName_def split: option.splits)

lemma parentName_None:
  "parentName x = None \<longleftrightarrow> (x = None \<or> (\<exists>ob. x = Some ob \<and> refParent ob = None))"
  by (auto simp: parentName_def split: option.splits)

lemma prevNextLoop_Cons:
  "prevNextLoop (x # xs) s =
     (case parentName x of
        None \<Rightarrow> s
      | Some n \<Rightarrow>
          if n = ''prev'' then prevNextLoop xs ((startDwell GoToPrev s)\<lparr>timerRingForPrev := Some True\<rparr>)
          else if n = ''next'' then prevNextLoop xs ((startDwell GoToNext s)\<lparr>timerRingForPrev := Some False\<rparr>)
          else prevNextLoop xs s)"
  by (simp add: parentName_def startDwell_ring split: option.splits)

declare prevNextLoop.simps(2) [simp del]

lemma prevNextLoop_pending:
  "timerPending s \<Longrightarrow> \<exists>f. prevNextLoop xs s = s\<lparr>timerRingForPrev := f\<rparr>"
proof (induction xs arbitrary: s)
  case Nil
  have "s = s\<lparr>timerRingForPrev := timerRingForPrev s\<rparr>" by simp
  then show ?case by (metis prevNextLoop.simps(1))
next
  case (Cons x xs)
  have keep: "\<exists>f. s = s\<lparr>timerRingForPrev := f\<rparr>"
    by (rule exI [of _ "timerRingForPrev s"]) simp
  have upd: "\<exists>f. prevNextLoop xs (s\<lparr>timerRingForPrev := g\<rparr>) = s\<lparr>timerRingForPrev := f\<rparr>" for g
  proof -
    from Cons.IH [of "s\<lparr>timerRingForPrev := g\<rparr>"] Cons.prems
    obtain f where "prevNextLoop xs (s\<lparr>timerRingForPrev := g\<rparr>) = s\<lparr>timerRingForPrev := g\<rparr>\<lparr>timerRingForPrev := f\<rparr>"
      by auto
    then show ?thesis by (intro exI [of _ f]) simp
  qed
  show ?case
    using Cons.prems keep upd Cons.IH [of s]
    by (simp only: prevNextLoop_Cons startDwell_pending split: option.splits if_splits) auto
qed

lemma prevNextLoop_idle:
  "\<not> timerPending s \<Longrightarrow>
     (\<exists>f. prevNextLoop xs s = s\<lparr>timerRingForPrev := f\<rparr>)
     \<or> (\<exists>c f. c \<noteq> ParseAndInit \<and> buttonOf c \<in> parentName ` set xs
            \<and> prevNextLoop xs s = (startDwell c s)\<lparr>timerRingForPrev := f\<rparr>)"
proof (induction xs arbitrary: s)
  case Nil
  have "s = s\<lparr>timerRingForPrev := timerRingForPrev s\<rparr>" by simp
  then show ?case by (metis prevNextLoop.simps(1))
next
  case (Cons x xs)
  have keep: "\<exists>f. s = s\<lparr>timerRingForPrev := f\<rparr>"
    by (rule exI [of _ "timerRingForPrev s"]) simp
  have started: "\<exists>f. prevNextLoop xs ((startDwell c s)\<lparr>timerRingForPrev := g\<rparr>)
      = (startDwell c s)\<lparr>timerRingForPrev := f\<rparr>" for c g
  proof -
    have "timerPending ((startDwell c s)\<lparr>timerRingForPrev := g\<rparr>)"
      by (simp add: timerPending_startDwell)
    from prevNextLoop_pending [OF this, of xs]
    obtain f where "prevNextLoop xs ((startDwell c s)\<lparr>timerRingForPrev := g\<rparr>)
        = (startDwell c s)\<lparr>timerRingForPrev := g\<rparr>\<lparr>timerRingForPrev := f\<rparr>"
      by auto
    then show ?thesis by (intro exI [of _ f]) simp
  qed
  show ?case
  proof (cases "parentName x")
    case None
    with keep show ?thesis by (simp add: prevNextLoop_Cons)
  next
    case (Some n)
    consider "n = ''prev''" | "n = ''next''" | "n \<noteq> ''prev''" "n \<noteq> ''next''" by blast
    then show ?thesis
    proof cases
      case 1
      from started [where c = GoToPrev and g = "Some True"] obtain f where
        "prevNextLoop xs ((startDwell GoToPrev s)\<lparr>timerRingForPrev := Some True\<rparr>)
          = (startDwell GoToPrev s)\<lparr>timerRingForPrev := f\<rparr>" ..
      with Some 1 have "GoToPrev \<noteq> ParseAndInit \<and> buttonOf GoToPrev \<in> parentName ` set (x # xs)
          \<and> prevNextLoop (x # xs) s = (startDwell GoToPrev s)\<lparr>timerRingForPrev := f\<rparr>"
        by (simp add: prevNextLoop_Cons image_iff)
      then show ?thesis by blast
    next
      case 2
      from started [where c = GoToNext and g = "Some False"] obtain f where
        "prevNextLoop xs ((startDwell GoToNext s)\<lparr>timerRingForPrev := Some False\<rparr>)
          = (startDwell GoToNext s)\<lparr>timerRingForPrev := f\<rparr>" ..
      with Some 2 have "GoToNext \<noteq> ParseAndInit \<and> buttonOf GoToNext \<in> parentName ` set (x # xs)
          \<and> prevNextLoop (x # xs) s = (startDwell GoToNext s)\<lparr>timerRingForPrev := f\<rparr>"
        by (simp add: prevNextLoop_Cons image_iff)
      then show ?thesis by blast
    next
      case 3
      with Some have "prevNextLoop (x # xs) s = prevNextLoop xs s"
        by (simp add: prevNextLoop_Cons)
      with Cons.IH [OF Cons.prems] show ?thesis
        by (auto simp: image_iff)
    qed
  qed
qed

text \<open>Once a dwell is pending, intersections of the same button change nothing.\<close>

lemma prevNextLoop_settled:
  assumes "timerPending s" "timerRingForPrev s = Some b"
    and "Some (if b then ''next'' else ''prev'') \<notin> parentName ` set xs"
  shows "prevNextLoop xs s = s"
  using assms(3)
proof (induction xs)
  case Nil
  then show ?case by simp
next
  case (Cons x xs)
  then have IH: "prevNextLoop xs s = s" and x: "parentName x \<noteq> Some (if b then ''next'' else ''prev'')"
    by (auto simp: image_iff)
  have same: "(startDwell c s)\<lparr>timerRingForPrev := Some b\<rparr> = s" for c
    using assms(1,2) by (simp add: startDwell_pending)
  show ?case
  proof (cases "parentName x")
    case None
    then show ?thesis by (simp add: prevNextLoop_Cons)
  next
    case (Some n)
    show ?thesis
    proof (cases b)
      case True
      with x Some have "n \<noteq> ''next''" by simp
      with Some IH same [of GoToPrev] True show ?thesis
        by (simp add: prevNextLoop_Cons)
    next
      case False
      with x Some have "n \<noteq> ''prev''" by simp
      with Some IH same [of GoToNext] False show ?thesis
        by (simp add: prevNextLoop_Cons)
    qed
  qed
qed

text \<open>The first intersection of a button decides, when every intersection is well formed.\<close>

lemma prevNextLoop_first:
  assumes "\<not> timerPending s" and "c = GoToPrev \<or> c = GoToNext"
    and "None \<notin> parentName ` set xs"
    and "buttonOf c \<in> parentName ` set xs"
    and "Some (if c = GoToPrev then ''next'' else ''prev'') \<notin> parentName ` set xs"
  shows "prevNextLoop xs s = (startDwell c s)\<lparr>timerRingForPrev := Some (c = GoToPrev)\<rparr>"
  using assms(3-5)
proof (induction xs)
  case Nil
  then show ?case by simp
next
  case (Cons x xs)
  from Cons.prems(1) obtain n where n: "parentName x = Some n"
    by (cases "parentName x") (auto simp: image_iff)
  let ?s' = "(startDwell c s)\<lparr>timerRingForPrev := Some (c = GoToPrev)\<rparr>"
  have settled: "prevNextLoop xs ?s' = ?s'"
    using Cons.prems(3)
    by (intro prevNextLoop_settled [where b = "c = GoToPrev"])
      (auto simp: timerPending_startDwell image_iff)
  show ?case
  proof (cases "Some n = buttonOf c")
    case True
    with assms(2) n settled show ?thesis
      by (auto simp: prevNextLoop_Cons)
  next
    case False
    with assms(2) n Cons.prems have "n \<noteq> ''prev''" "n \<noteq> ''next''"
      by (auto simp: image_iff)
    moreover from False n Cons.prems assms(2) have "buttonOf c \<in> parentName ` set xs"
      by (auto simp: image_iff)
    ultimately show ?thesis
      using n Cons.IH Cons.prems by (auto simp: prevNextLoop_Cons image_iff)
  qed
qed

lemma now_startDwell: "now (startDwell c s) = now s"
  by (cases "timerPending s") (simp_all add: startDwell_pending startDwell_idle)

lemma now_prevNextLoop: "now (prevNextLoop xs s) = now s"
proof (cases "timerPending s")
  case True
  from prevNextLoop_pending [OF this, of xs] show ?thesis by auto
next
  case False
  from prevNextLoop_idle [OF this, of xs] show ?thesis by (auto simp: now_startDwell)
qed

lemma now_prevNextTest: "now (prevNextTest xs s) = now s"
  by (simp add: prevNextTest_def now_prevNextLoop clearTimeout_def emit_def split: option.splits)


text \<open>
  The first intersection whose object has no parent, or a parent named \<open>prev\<close> or
  \<open>next\<close>, decides: when it is of a button, that button's dwell starts, and what follows
  it can only move the ring.
\<close>

lemma prevNextLoop_decisive:
  assumes "\<not> timerPending s" and "c = GoToPrev \<or> c = GoToNext"
    and "None \<notin> parentName ` set pre"
    and "Some ''prev'' \<notin> parentName ` set pre"
    and "Some ''next'' \<notin> parentName ` set pre"
    and "parentName x = buttonOf c"
  shows "\<exists>f. prevNextLoop (pre @ x # post) s = (startDwell c s)\<lparr>timerRingForPrev := f\<rparr>"
  using assms(3-5)
proof (induction pre)
  case Nil
  have "timerPending ((startDwell c s)\<lparr>timerRingForPrev := Some (c = GoToPrev)\<rparr>)"
    by (simp add: timerPending_startDwell)
  from prevNextLoop_pending [OF this, of post] obtain f where
    "prevNextLoop post ((startDwell c s)\<lparr>timerRingForPrev := Some (c = GoToPrev)\<rparr>)
      = (startDwell c s)\<lparr>timerRingForPrev := Some (c = GoToPrev)\<rparr>\<lparr>timerRingForPrev := f\<rparr>" ..
  with assms(2,6) have "prevNextLoop ([] @ x # post) s = (startDwell c s)\<lparr>timerRingForPrev := f\<rparr>"
    by (auto simp: prevNextLoop_Cons)
  then show ?case ..
next
  case (Cons y pre)
  from Cons.prems obtain n where n: "parentName y = Some n" "n \<noteq> ''prev''" "n \<noteq> ''next''"
    by (cases "parentName y") (auto simp: image_iff)
  then have "prevNextLoop ((y # pre) @ x # post) s = prevNextLoop (pre @ x # post) s"
    by (simp add: prevNextLoop_Cons)
  moreover from Cons.prems have "None \<notin> parentName ` set pre" "Some ''prev'' \<notin> parentName ` set pre"
    "Some ''next'' \<notin> parentName ` set pre"
    by auto
  ultimately show ?case
    using Cons.IH by simp
qed
lemma prevNextTest_ready_loop:
  assumes "scene s \<noteq> None" "camera s \<noteq> None" "raycaster s" "prevNextButtons s \<noteq> None"
    and "xs \<noteq> []"
  shows "prevNextTest xs s = prevNextLoop xs s"
  using assms by (simp add: prevNextTest_def)

lemma prevNextTest_starts:
  assumes "scene s \<noteq> None" "camera s \<noteq> None" "raycaster s" "prevNextButtons s \<noteq> None"
    and "c = GoToPrev \<or> c = GoToNext"
    and "None \<notin> parentName ` set xs"
    and "buttonOf c \<in> parentName ` set xs"
    and "Some (if c = GoToPrev then ''next'' else ''prev'') \<notin> parentName ` set xs"
    and "\<not> timerPending s"
  shows "prevNextTest xs s =
           s\<lparr>prevNextTimerStartMS := Some (now s),
             lastTimerId := Suc (lastTimerId s),
             timers := timers s @ [\<lparr>tid = Suc (lastTimerId s), due = now s + PREV_NEXT_TIMEOUT_MS, cb = c\<rparr>],
             effects := effects s @ [(now s, SetTimeout (Suc (lastTimerId s)) c PREV_NEXT_TIMEOUT_MS)],
             prevNextTimer := Some (Suc (lastTimerId s)),
             timerRingForPrev := Some (c = GoToPrev)\<rparr>"
proof -
  from assms(7) have "xs \<noteq> []" by auto
  then have "prevNextTest xs s = prevNextLoop xs s"
    using assms(1-4) by (rule prevNextTest_ready_loop [rotated -1])
  also have "\<dots> = (startDwell c s)\<lparr>timerRingForPrev := Some (c = GoToPrev)\<rparr>"
    using assms(9,5,6,7,8) by (rule prevNextLoop_first)
  finally show ?thesis
    by (simp add: startDwell_idle [OF assms(9)])
qed

lemma prevNextTest_pending:
  assumes "timerPending s"
  shows "lastTimerId (prevNextTest xs s) = lastTimerId s"
    and "set (timers (prevNextTest xs s)) \<subseteq> set (timers s)"
    and "xs \<noteq> [] \<Longrightarrow> timers (prevNextTest xs s) = timers s"
    and "xs \<noteq> [] \<Longrightarrow> effects (prevNextTest xs s) = effects s"
    and "xs \<noteq> [] \<Longrightarrow> prevNextTimer (prevNextTest xs s) = prevNextTimer s"
proof -
  from prevNextLoop_pending [OF assms, of xs] obtain f
    where f: "prevNextLoop xs s = s\<lparr>timerRingForPrev := f\<rparr>" ..
  show "lastTimerId (prevNextTest xs s) = lastTimerId s"
    "set (timers (prevNextTest xs s)) \<subseteq> set (timers s)"
    using f by (auto simp: prevNextTest_def clearTimeout_def emit_def split: option.splits)
  show "timers (prevNextTest xs s) = timers s" "effects (prevNextTest xs s) = effects s"
    "prevNextTimer (prevNextTest xs s) = prevNextTimer s" if "xs \<noteq> []"
    using f that by (auto simp: prevNextTest_def)
qed

lemma fireTimer_dwell:
  assumes "find (\<lambda>t. tid t = i) (timers s) = Some tm" "due tm \<le> now s"
    and "eventOf (cb tm) = Some ev"
  shows "prevNextTimer (fireTimer env i s) = None"
    and "effects (fireTimer env i s) =
           effects s @ [(now s, ClearTimeout (prevNextTimer s)), (now s, DispatchEvent ev)]"
    and "set (timers (fireTimer env i s)) \<subseteq> {t \<in> set (timers s). tid t \<noteq> i}"
    and "now (fireTimer env i s) = now s"
    and "lastTimerId (fireTimer env i s) = lastTimerId s"
proof -
  from assms(3) have c: "(cb tm = GoToPrev \<and> ev = ''stereoImgGoToPrev'')
      \<or> (cb tm = GoToNext \<and> ev = ''stereoImgGoToNext'')"
    by (cases "cb tm") auto
  have f: "fireTimer env i s = dwellExpired ev (s\<lparr>timers := filter (\<lambda>t. tid t \<noteq> i) (timers s)\<rparr>)"
    using assms(1,2) c by (auto simp: fireTimer_def runCallback_def)
  show "prevNextTimer (fireTimer env i s) = None"
    "effects (fireTimer env i s) =
       effects s @ [(now s, ClearTimeout (prevNextTimer s)), (now s, DispatchEvent ev)]"
    "set (timers (fireTimer env i s)) \<subseteq> {t \<in> set (timers s). tid t \<noteq> i}"
    "now (fireTimer env i s) = now s"
    "lastTimerId (fireTimer env i s) = lastTimerId s"
    unfolding f
    by (auto simp: dwellExpired_def dispatchEvent_def clearTimeout_def emit_def split: option.splits)
qed

lemma animationFrame_keeps:
  "now (animationFrame p xs s) = now (prevNextTest xs (controlsUpdate p s))"
  "timers (animationFrame p xs s) = timers (prevNextTest xs (controlsUpdate p s))"
  "lastTimerId (animationFrame p xs s) = lastTimerId (prevNextTest xs (controlsUpdate p s))"
  "prevNextTimer (animationFrame p xs s) = prevNextTimer (prevNextTest xs (controlsUpdate p s))"
  "prevNextTimerStartMS (animationFrame p xs s)
     = prevNextTimerStartMS (prevNextTest xs (controlsUpdate p s))"
  "effects (animationFrame p xs s) = effects (prevNextTest xs (controlsUpdate p s))"
  "timerRingForPrev (animationFrame p xs s) = timerRingForPrev (prevNextTest xs (controlsUpdate p s))"
  by (simp_all add: animationFrame_def updatePrevNextRing_keeps)

lemma timerPending_controlsUpdate [simp]: "timerPending (controlsUpdate p s) = timerPending s"
  by (simp add: timerPending_def controlsUpdate_keeps)

lemma sample_constructed:
  "scene (constructor sampleParsers Map.empty 100) \<noteq> None"
  "camera (constructor sampleParsers Map.empty 100) \<noteq> None"
  "raycaster (constructor sampleParsers Map.empty 100)"
  "prevNextButtons (constructor sampleParsers Map.empty 100) \<noteq> None"
  "animating (constructor sampleParsers Map.empty 100)"
  "effects (constructor sampleParsers Map.empty 100) = []"
  "timers (constructor sampleParsers Map.empty 100) = []"
  "now (constructor sampleParsers Map.empty 100) = 100"
  "lastTimerId (constructor sampleParsers Map.empty 100) = 0"
  "prevNextTimer (constructor sampleParsers Map.empty 100) = None"
  by (simp_all add: constructor_def init_def parseImageAndInitialize3DScene_def parse_def
      get_src_def get_angle_def get_backImageSrc_def getAttribute_def newElement_def
      initialize3DScene_def Let_def resetCameraPosition_def addPrevNextButtons_def)

lemma prevNextTest_decisive:
  assumes "scene s \<noteq> None" "camera s \<noteq> None" "raycaster s" "prevNextButtons s \<noteq> None"
    and "\<not> timerPending s" and "c = GoToPrev \<or> c = GoToNext"
    and "None \<notin> parentName ` set pre"
    and "Some ''prev'' \<notin> parentName ` set pre"
    and "Some ''next'' \<notin> parentName ` set pre"
    and "parentName x = buttonOf c"
  shows "prevNextTimer (prevNextTest (pre @ x # post) s) = Some (Suc (lastTimerId s))"
    and "prevNextTimerStartMS (prevNextTest (pre @ x # post) s) = Some (now s)"
    and "timers (prevNextTest (pre @ x # post) s) =
           timers s @ [\<lparr>tid = Suc (lastTimerId s), due = now s + PREV_NEXT_TIMEOUT_MS, cb = c\<rparr>]"
    and "effects (prevNextTest (pre @ x # post) s) =
           effects s @ [(now s, SetTimeout (Suc (lastTimerId s)) c PREV_NEXT_TIMEOUT_MS)]"
    and "lastTimerId (prevNextTest (pre @ x # post) s) = Suc (lastTimerId s)"
proof -
  have "prevNextTest (pre @ x # post) s = prevNextLoop (pre @ x # post) s"
    using assms(1-4) by (intro prevNextTest_ready_loop) simp_all
  moreover from prevNextLoop_decisive [OF assms(5-10), of post] obtain f where
    "prevNextLoop (pre @ x # post) s = (startDwell c s)\<lparr>timerRingForPrev := f\<rparr>" ..
  ultimately have e: "prevNextTest (pre @ x # post) s = (startDwell c s)\<lparr>timerRingForPrev := f\<rparr>"
    by simp
  show "prevNextTimer (prevNextTest (pre @ x # post) s) = Some (Suc (lastTimerId s))"
    "prevNextTimerStartMS (prevNextTest (pre @ x # post) s) = Some (now s)"
    "timers (prevNextTest (pre @ x # post) s) =
       timers s @ [\<lparr>tid = Suc (lastTimerId s), due = now s + PREV_NEXT_TIMEOUT_MS, cb = c\<rparr>]"
    "effects (prevNextTest (pre @ x # post) s) =
       effects s @ [(now s, SetTimeout (Suc (lastTimerId s)) c PREV_NEXT_TIMEOUT_MS)]"
    "lastTimerId (prevNextTest (pre @ x # post) s) = Suc (lastTimerId s)"
    unfolding e by (simp_all add: startDwell_idle [OF assms(5)])
qed

lemma animationFrame_decisive:
  assumes "scene s \<noteq> None" "camera s \<noteq> None" "raycaster s" "prevNextButtons s \<noteq> None"
    and "\<not> timerPending s" and "c = GoToPrev \<or> c = GoToNext"
    and "None \<notin> parentName ` set pre"
    and "Some ''prev'' \<notin> parentName ` set pre"
    and "Some ''next'' \<notin> parentName ` set pre"
    and "parentName x = buttonOf c"
  shows "prevNextTimer (animationFrame p (pre @ x # post) s) = Some (Suc (lastTimerId s))"
    and "timers (animationFrame p (pre @ x # post) s) =
           timers s @ [\<lparr>tid = Suc (lastTimerId s), due = now s + PREV_NEXT_TIMEOUT_MS, cb = c\<rparr>]"
    and "effects (animationFrame p (pre @ x # post) s) =
           effects s @ [(now s, SetTimeout (Suc (lastTimerId s)) c PREV_NEXT_TIMEOUT_MS)]"
    and "lastTimerId (animationFrame p (pre @ x # post) s) = Suc (lastTimerId s)"
    and "now (animationFrame p (pre @ x # post) s) = now s"
proof -
  have idle: "\<not> timerPending (controlsUpdate p s)"
    using assms(5) by simp
  have rdy: "scene (controlsUpdate p s) \<noteq> None" "camera (controlsUpdate p s) \<noteq> None"
    "raycaster (controlsUpdate p s)" "prevNextButtons (controlsUpdate p s) \<noteq> None"
    using assms(1-4) by (simp_all add: controlsUpdate_keeps)
  note st = prevNextTest_decisive [OF rdy idle assms(6-10), of post]
  show "prevNextTimer (animationFrame p (pre @ x # post) s) = Some (Suc (lastTimerId s))"
    "timers (animationFrame p (pre @ x # post) s) =
       timers s @ [\<lparr>tid = Suc (lastTimerId s), due = now s + PREV_NEXT_TIMEOUT_MS, cb = c\<rparr>]"
    "effects (animationFrame p (pre @ x # post) s) =
       effects s @ [(now s, SetTimeout (Suc (lastTimerId s)) c PREV_NEXT_TIMEOUT_MS)]"
    "lastTimerId (animationFrame p (pre @ x # post) s) = Suc (lastTimerId s)"
    "now (animationFrame p (pre @ x # post) s) = now s"
    by (simp_all add: animationFrame_keeps st now_prevNextTest controlsUpdate_keeps)
qed
section \<open>What one step of the event loop can do to timers and calls\<close>

lemma scheduleParse_shape:
  "timers (scheduleParse s) = timers s @ [\<lparr>tid = Suc (lastTimerId s), due = now s, cb = ParseAndInit\<rparr>]"
  "effects (scheduleParse s) = effects s @ [(now s, SetTimeout (Suc (lastTimerId s)) ParseAndInit 0)]"
  "lastTimerId (scheduleParse s) = Suc (lastTimerId s)"
  "prevNextTimer (scheduleParse s) = prevNextTimer s"
  "now (scheduleParse s) = now s"
  by (simp_all add: scheduleParse_def setTimeout_def emit_def Let_def)

lemma attribute_update_keeps:
  "timers (setAttribute n v s) = timers s" "effects (setAttribute n v s) = effects s"
  "lastTimerId (setAttribute n v s) = lastTimerId s" "prevNextTimer (setAttribute n v s) = prevNextTimer s"
  "now (setAttribute n v s) = now s"
  "timers (removeAttribute n s) = timers s" "effects (removeAttribute n s) = effects s"
  "lastTimerId (removeAttribute n s) = lastTimerId s" "prevNextTimer (removeAttribute n s) = prevNextTimer s"
  "now (removeAttribute n s) = now s"
  by (simp_all add: setAttribute_def removeAttribute_def)

lemma prevNextTest_cancel:
  assumes "scene s \<noteq> None" "camera s \<noteq> None" "raycaster s" "prevNextButtons s \<noteq> None"
    and "timerPending s"
  shows "prevNextTimer (prevNextTest [] s) = None"
    and "timers (prevNextTest [] s) = filter (\<lambda>t. Some (tid t) \<noteq> prevNextTimer s) (timers s)"
    and "effects (prevNextTest [] s) = effects s @ [(now s, ClearTimeout (prevNextTimer s))]"
    and "lastTimerId (prevNextTest [] s) = lastTimerId s"
    and "now (prevNextTest [] s) = now s"
  using assms
  by (auto simp: prevNextTest_def clearTimeout_def emit_def timerPending_def split: option.splits
      intro: filter_cong)

lemma step_cases [case_names Quiet Start Cancel Expire ParseFired Scheduled]:
  obtains
    (Quiet) es where "timers (step env a s) = timers s" "lastTimerId (step env a s) = lastTimerId s"
      "prevNextTimer (step env a s) = prevNextTimer s" "now s \<le> now (step env a s)"
      "effects (step env a s) = effects s @ map (Pair (now s)) es" "list_all isParserCall es"
  | (Start) c p xs where "a = Frame p xs" "animating s" "c \<noteq> ParseAndInit"
      "buttonOf c \<in> parentName ` set xs" "\<not> timerPending s"
      "timers (step env a s) =
         timers s @ [\<lparr>tid = Suc (lastTimerId s), due = now s + PREV_NEXT_TIMEOUT_MS, cb = c\<rparr>]"
      "effects (step env a s) =
         effects s @ [(now s, SetTimeout (Suc (lastTimerId s)) c PREV_NEXT_TIMEOUT_MS)]"
      "lastTimerId (step env a s) = Suc (lastTimerId s)"
      "prevNextTimer (step env a s) = Some (Suc (lastTimerId s))"
      "now (step env a s) = now s"
      "scene s \<noteq> None" "camera s \<noteq> None" "raycaster s" "prevNextButtons s \<noteq> None"
  | (Cancel) p where "a = Frame p []" "animating s" "timerPending s"
      "timers (step env a s) = filter (\<lambda>t. Some (tid t) \<noteq> prevNextTimer s) (timers s)"
      "effects (step env a s) = effects s @ [(now s, ClearTimeout (prevNextTimer s))]"
      "lastTimerId (step env a s) = lastTimerId s"
      "prevNextTimer (step env a s) = None"
      "now (step env a s) = now s"
  | (Expire) i tm ev where "a = Fire i" "find (\<lambda>t. tid t = i) (timers s) = Some tm"
      "due tm \<le> now s" "eventOf (cb tm) = Some ev"
      "set (timers (step env a s)) \<subseteq> {t \<in> set (timers s). tid t \<noteq> i}"
      "effects (step env a s) =
         effects s @ [(now s, ClearTimeout (prevNextTimer s)), (now s, DispatchEvent ev)]"
      "lastTimerId (step env a s) = lastTimerId s"
      "prevNextTimer (step env a s) = None"
      "now (step env a s) = now s"
  | (ParseFired) i es where "a = Fire i"
      "timers (step env a s) = filter (\<lambda>t. tid t \<noteq> i) (timers s)"
      "lastTimerId (step env a s) = lastTimerId s"
      "prevNextTimer (step env a s) = prevNextTimer s" "now (step env a s) = now s"
      "effects (step env a s) = effects s @ map (Pair (now s)) es" "list_all isParserCall es"
  | (Scheduled) "timers (step env a s) =
         timers s @ [\<lparr>tid = Suc (lastTimerId s), due = now s, cb = ParseAndInit\<rparr>]"
      "effects (step env a s) = effects s @ [(now s, SetTimeout (Suc (lastTimerId s)) ParseAndInit 0)]"
      "lastTimerId (step env a s) = Suc (lastTimerId s)"
      "prevNextTimer (step env a s) = prevNextTimer s"
      "now (step env a s) = now s"
proof -
  have same: thesis if "timers (step env a s) = timers s" "lastTimerId (step env a s) = lastTimerId s"
      "prevNextTimer (step env a s) = prevNextTimer s" "now s \<le> now (step env a s)"
      "effects (step env a s) = effects s"
    using that by (intro Quiet [of "[]"]) simp_all
  show thesis
  proof (cases a)
    case (Tick d)
    then show thesis by (intro same) simp_all
  next
    case (SetType v)
    then show thesis by (intro same) (simp_all add: set_type_def attribute_update_keeps)
  next
    case (SetAngle v)
    then show thesis by (intro same) (simp_all add: set_angle_def attribute_update_keeps)
  next
    case (SetSrc v)
    show thesis
    proof (cases "attrVal (getAttribute ''src'' s) = v")
      case True
      with SetSrc show thesis
        by (intro same) (simp_all add: set_src_def resetCameraPosition_def)
    next
      case False
      with SetSrc show thesis
        by (intro Scheduled) (simp_all add: set_src_def scheduleParse_shape attribute_update_keeps)
    qed
  next
    case (SetBackImageSrc v)
    then show thesis
      by (intro Scheduled) (simp_all add: set_backImageSrc_def scheduleParse_shape attribute_update_keeps)
  next
    case (Fire i)
    show thesis
    proof (cases "find (\<lambda>t. tid t = i) (timers s)")
      case None
      with Fire show thesis by (intro same) (simp_all add: fireTimer_def)
    next
      case (Some tm)
      show thesis
      proof (cases "due tm \<le> now s")
        case False
        with Fire Some show thesis by (intro same) (simp_all add: fireTimer_def)
      next
        case True
        show thesis
        proof (cases "eventOf (cb tm)")
          case (Some ev)
          from fireTimer_dwell [OF \<open>find (\<lambda>t. tid t = i) (timers s) = Some tm\<close> True Some, of env]
          show thesis
            using Fire \<open>find (\<lambda>t. tid t = i) (timers s) = Some tm\<close> True Some
            by (intro Expire [of i tm ev]) simp_all
        next
          case None
          then have p: "cb tm = ParseAndInit"
            by (cases "cb tm") simp_all
          let ?s1 = "s\<lparr>timers := filter (\<lambda>t. tid t \<noteq> i) (timers s)\<rparr>"
          have f: "step env a s = stateOf (parseImageAndInitialize3DScene env ?s1)"
            using Fire \<open>find (\<lambda>t. tid t = i) (timers s) = Some tm\<close> True p
            by (simp add: fireTimer_def runCallback_def)
          from quiet_parseImageAndInitialize3DScene [of ?s1 env]
          obtain es where "effects (step env a s) = effects s @ map (Pair (now s)) es"
              "list_all isParserCall es" "timers (step env a s) = filter (\<lambda>t. tid t \<noteq> i) (timers s)"
              "lastTimerId (step env a s) = lastTimerId s"
              "prevNextTimer (step env a s) = prevNextTimer s" "now (step env a s) = now s"
            unfolding f quiet_def by auto
          with Fire show thesis
            by (intro ParseFired [of i es]) simp_all
        qed
      qed
    qed
  next
    case (Frame p xs)
    show thesis
    proof (cases "animating s")
      case False
      with Frame show thesis by (intro same) simp_all
    next
      case True
      let ?s1 = "controlsUpdate p s"
      have st: "step env a s = animationFrame p xs s"
        using Frame True by simp
      note k = animationFrame_keeps controlsUpdate_keeps now_prevNextTest
      show thesis
      proof (cases "scene ?s1 \<noteq> None \<and> camera ?s1 \<noteq> None \<and> raycaster ?s1 \<and> prevNextButtons ?s1 \<noteq> None")
        case False
        then have "prevNextTest xs ?s1 = ?s1"
          by (auto simp: prevNextTest_def)
        then show thesis
          by (intro same) (simp_all add: st k)
      next
        case ready: True
        then have rdy: "scene s \<noteq> None" "camera s \<noteq> None" "raycaster s" "prevNextButtons s \<noteq> None"
          by (simp_all add: controlsUpdate_keeps)
        show thesis
        proof (cases "timerPending s")
          case pending: True
          show thesis
          proof (cases "xs = []")
            case True
            from ready pending have "timerPending ?s1" by simp
            from prevNextTest_cancel [OF _ _ _ _ this] ready
            show thesis
              using Frame \<open>animating s\<close> True pending
              by (intro Cancel [of p]) (simp_all add: st k)
          next
            case False
            from pending have "timerPending ?s1" by simp
            from prevNextTest_pending(1,3,4,5) [OF this, of xs] False
            show thesis
              by (intro same) (simp_all add: st k)
          qed
        next
          case idle: False
          then have idle1: "\<not> timerPending ?s1" by simp
          have "xs \<noteq> [] \<or> \<not> timerPending ?s1"
            using idle1 by simp
          then have l: "prevNextTest xs ?s1 = prevNextLoop xs ?s1"
            using ready by (auto simp: prevNextTest_def)
          from prevNextLoop_idle [OF idle1, of xs]
          consider f where "prevNextLoop xs ?s1 = ?s1\<lparr>timerRingForPrev := f\<rparr>"
            | c f where "c \<noteq> ParseAndInit" "buttonOf c \<in> parentName ` set xs"
                "prevNextLoop xs ?s1 = (startDwell c ?s1)\<lparr>timerRingForPrev := f\<rparr>"
            by blast
          then show thesis
          proof cases
            case 1
            then show thesis
              by (intro same) (simp_all add: st k l)
          next
            case 2
            show thesis
              using Frame \<open>animating s\<close> 2(1,2) idle rdy
              by (intro Start [of p xs c]) (simp_all add: st k l 2(3) startDwell_idle [OF idle1])
          qed
        qed
      qed
    qed
  qed
qed

section \<open>Invariants of executions\<close>

lemma exec_invariant:
  assumes "P s" and "\<And>a x. P x \<Longrightarrow> P (step env a x)"
  shows "P (exec env as s)"
  using assms(1)
proof (induction as arbitrary: s)
  case Nil
  then show ?case by simp
next
  case (Cons a as)
  from Cons.IH [OF assms(2) [OF Cons.prems]] show ?case by simp
qed

lemma exec_append: "exec env (as @ bs) s = exec env bs (exec env as s)"
  by (induction as arbitrary: s) simp_all

lemma dwellTimersLogged_iff:
  "dwellTimersLogged s \<longleftrightarrow>
     (\<forall>tm \<in> set (timers s). cb tm \<noteq> ParseAndInit \<longrightarrow>
        PREV_NEXT_TIMEOUT_MS \<le> due tm
        \<and> (due tm - PREV_NEXT_TIMEOUT_MS, SetTimeout (tid tm) (cb tm) PREV_NEXT_TIMEOUT_MS)
             \<in> set (effects s))"
  by (auto simp: dwellTimersLogged_def list_all_iff)

lemma dispatchesTimed_iff:
  "dispatchesTimed s \<longleftrightarrow>
     (\<forall>t ev. (t, DispatchEvent ev) \<in> set (effects s) \<longrightarrow>
        (\<exists>t1 i c. (t1, SetTimeout i c PREV_NEXT_TIMEOUT_MS) \<in> set (effects s)
           \<and> t1 + PREV_NEXT_TIMEOUT_MS \<le> t \<and> eventOf c = Some ev))"
proof
  assume d: "dispatchesTimed s"
  show "\<forall>t ev. (t, DispatchEvent ev) \<in> set (effects s) \<longrightarrow>
        (\<exists>t1 i c. (t1, SetTimeout i c PREV_NEXT_TIMEOUT_MS) \<in> set (effects s)
           \<and> t1 + PREV_NEXT_TIMEOUT_MS \<le> t \<and> eventOf c = Some ev)"
  proof (intro allI impI)
    fix t ev
    assume "(t, DispatchEvent ev) \<in> set (effects s)"
    with d have "list_ex (\<lambda>(t1, e1). case e1 of
                    SetTimeout i c d \<Rightarrow> d = PREV_NEXT_TIMEOUT_MS \<and> t1 + d \<le> t \<and> eventOf c = Some ev
                  | _ \<Rightarrow> False) (effects s)"
      by (auto simp: dispatchesTimed_def list_all_iff)
    then obtain t1 e1 where m: "(t1, e1) \<in> set (effects s)"
        "case e1 of SetTimeout i c d \<Rightarrow> d = PREV_NEXT_TIMEOUT_MS \<and> t1 + d \<le> t \<and> eventOf c = Some ev
         | _ \<Rightarrow> False"
      by (auto simp: list_ex_iff)
    from m(2) obtain i c where "e1 = SetTimeout i c PREV_NEXT_TIMEOUT_MS"
        "t1 + PREV_NEXT_TIMEOUT_MS \<le> t" "eventOf c = Some ev"
      by (cases e1) auto
    with m(1) show "\<exists>t1 i c. (t1, SetTimeout i c PREV_NEXT_TIMEOUT_MS) \<in> set (effects s)
           \<and> t1 + PREV_NEXT_TIMEOUT_MS \<le> t \<and> eventOf c = Some ev"
      by blast
  qed
next
  assume r: "\<forall>t ev. (t, DispatchEvent ev) \<in> set (effects s) \<longrightarrow>
        (\<exists>t1 i c. (t1, SetTimeout i c PREV_NEXT_TIMEOUT_MS) \<in> set (effects s)
           \<and> t1 + PREV_NEXT_TIMEOUT_MS \<le> t \<and> eventOf c = Some ev)"
  show "dispatchesTimed s"
    unfolding dispatchesTimed_def list_all_iff
  proof (intro ballI)
    fix x
    assume x: "x \<in> set (effects s)"
    obtain t e where xe: "x = (t, e)" by (cases x)
    show "case x of (t, e) \<Rightarrow> (case e of
              DispatchEvent ev \<Rightarrow>
                list_ex (\<lambda>(t1, e1). case e1 of
                           SetTimeout i c d \<Rightarrow> d = PREV_NEXT_TIMEOUT_MS \<and> t1 + d \<le> t \<and> eventOf c = Some ev
                         | _ \<Rightarrow> False) (effects s)
            | _ \<Rightarrow> True)"
    proof (cases e)
      case (DispatchEvent ev)
      with x xe r obtain t1 i c where "(t1, SetTimeout i c PREV_NEXT_TIMEOUT_MS) \<in> set (effects s)"
          "t1 + PREV_NEXT_TIMEOUT_MS \<le> t" "eventOf c = Some ev"
        by blast
      then have "list_ex (\<lambda>(t1, e1). case e1 of
                    SetTimeout i c d \<Rightarrow> d = PREV_NEXT_TIMEOUT_MS \<and> t1 + d \<le> t \<and> eventOf c = Some ev
                  | _ \<Rightarrow> False) (effects s)"
        unfolding list_ex_iff by (intro bexI [of _ "(t1, SetTimeout i c PREV_NEXT_TIMEOUT_MS)"]) simp_all
      with xe DispatchEvent show ?thesis by simp
    qed (simp_all add: xe)
  qed
qed

lemma parser_calls_in:
  assumes "list_all isParserCall es" "x \<in> set (xs @ map (Pair n) es)"
  shows "x \<in> set xs \<or> isParserCall (snd x)"
  using assms by (auto simp: list_all_iff)

lemma logs_extend:
  assumes "dwellTimersLogged s" "dispatchesTimed s"
    and T: "\<And>tm. tm \<in> set (timers s') \<Longrightarrow> cb tm \<noteq> ParseAndInit \<Longrightarrow>
              tm \<in> set (timers s)
              \<or> (PREV_NEXT_TIMEOUT_MS \<le> due tm
                 \<and> (due tm - PREV_NEXT_TIMEOUT_MS, SetTimeout (tid tm) (cb tm) PREV_NEXT_TIMEOUT_MS)
                      \<in> set (effects s'))"
    and E: "set (effects s) \<subseteq> set (effects s')"
    and N: "\<And>t ev. (t, DispatchEvent ev) \<in> set (effects s') \<Longrightarrow>
              (t, DispatchEvent ev) \<in> set (effects s)
              \<or> (\<exists>t1 i c. (t1, SetTimeout i c PREV_NEXT_TIMEOUT_MS) \<in> set (effects s')
                    \<and> t1 + PREV_NEXT_TIMEOUT_MS \<le> t \<and> eventOf c = Some ev)"
  shows "dwellTimersLogged s' \<and> dispatchesTimed s'"
proof
  note L = assms(1) [unfolded dwellTimersLogged_iff, rule_format]
  note D = assms(2) [unfolded dispatchesTimed_iff, rule_format]
  show "dwellTimersLogged s'"
    unfolding dwellTimersLogged_iff
  proof (intro ballI impI)
    fix tm
    assume tm: "tm \<in> set (timers s')" "cb tm \<noteq> ParseAndInit"
    from T [OF tm] show "PREV_NEXT_TIMEOUT_MS \<le> due tm
        \<and> (due tm - PREV_NEXT_TIMEOUT_MS, SetTimeout (tid tm) (cb tm) PREV_NEXT_TIMEOUT_MS)
             \<in> set (effects s')"
    proof
      assume "tm \<in> set (timers s)"
      from L [OF this tm(2)] E show ?thesis by blast
    qed
  qed
  show "dispatchesTimed s'"
    unfolding dispatchesTimed_iff
  proof (intro allI impI)
    fix t ev
    assume "(t, DispatchEvent ev) \<in> set (effects s')"
    from N [OF this] show "\<exists>t1 i c. (t1, SetTimeout i c PREV_NEXT_TIMEOUT_MS) \<in> set (effects s')
           \<and> t1 + PREV_NEXT_TIMEOUT_MS \<le> t \<and> eventOf c = Some ev"
    proof
      assume "(t, DispatchEvent ev) \<in> set (effects s)"
      from D [OF this] E show ?thesis by blast
    qed
  qed
qed

lemma logs_step:
  assumes "dwellTimersLogged s" "dispatchesTimed s"
  shows "dwellTimersLogged (step env a s) \<and> dispatchesTimed (step env a s)"
proof (cases rule: step_cases [of env a s])
  case (Quiet es)
  show ?thesis
  proof (rule logs_extend [OF assms])
    show "set (effects s) \<subseteq> set (effects (step env a s))"
      unfolding Quiet(5) by auto
    fix t ev
    assume "(t, DispatchEvent ev) \<in> set (effects (step env a s))"
    from parser_calls_in [OF Quiet(6) this [unfolded Quiet(5)]]
    show "(t, DispatchEvent ev) \<in> set (effects s)
        \<or> (\<exists>t1 i c. (t1, SetTimeout i c PREV_NEXT_TIMEOUT_MS) \<in> set (effects (step env a s))
              \<and> t1 + PREV_NEXT_TIMEOUT_MS \<le> t \<and> eventOf c = Some ev)"
      by simp
  qed (simp add: Quiet(1))
next
  case (Start c p xs)
  show ?thesis
  proof (rule logs_extend [OF assms])
    show "set (effects s) \<subseteq> set (effects (step env a s))"
      unfolding Start(7) by auto
    fix t ev
    assume "(t, DispatchEvent ev) \<in> set (effects (step env a s))"
    then show "(t, DispatchEvent ev) \<in> set (effects s)
        \<or> (\<exists>t1 i c. (t1, SetTimeout i c PREV_NEXT_TIMEOUT_MS) \<in> set (effects (step env a s))
              \<and> t1 + PREV_NEXT_TIMEOUT_MS \<le> t \<and> eventOf c = Some ev)"
      unfolding Start(7) by simp
  next
    fix tm
    assume "tm \<in> set (timers (step env a s))" "cb tm \<noteq> ParseAndInit"
    then show "tm \<in> set (timers s)
        \<or> (PREV_NEXT_TIMEOUT_MS \<le> due tm
           \<and> (due tm - PREV_NEXT_TIMEOUT_MS, SetTimeout (tid tm) (cb tm) PREV_NEXT_TIMEOUT_MS)
                \<in> set (effects (step env a s)))"
      unfolding Start(6,7) by auto
  qed
next
  case (Cancel p)
  show ?thesis
  proof (rule logs_extend [OF assms])
    show "set (effects s) \<subseteq> set (effects (step env a s))"
      unfolding Cancel(5) by auto
    fix t ev
    assume "(t, DispatchEvent ev) \<in> set (effects (step env a s))"
    then show "(t, DispatchEvent ev) \<in> set (effects s)
        \<or> (\<exists>t1 i c. (t1, SetTimeout i c PREV_NEXT_TIMEOUT_MS) \<in> set (effects (step env a s))
              \<and> t1 + PREV_NEXT_TIMEOUT_MS \<le> t \<and> eventOf c = Some ev)"
      unfolding Cancel(5) by simp
  qed (simp add: Cancel(4))
next
  case (Expire i tm ev)
  note L = assms(1) [unfolded dwellTimersLogged_iff, rule_format]
  from Expire(2) have tm: "tm \<in> set (timers s)" "tid tm = i"
    by (auto simp: find_Some_iff in_set_conv_nth)
  from Expire(4) have "cb tm \<noteq> ParseAndInit" by auto
  from L [OF tm(1) this] Expire(3) tm(2)
  have new: "(due tm - PREV_NEXT_TIMEOUT_MS, SetTimeout i (cb tm) PREV_NEXT_TIMEOUT_MS) \<in> set (effects s)"
    "due tm - PREV_NEXT_TIMEOUT_MS + PREV_NEXT_TIMEOUT_MS \<le> now s"
    by auto
  show ?thesis
  proof (rule logs_extend [OF assms])
    show "set (effects s) \<subseteq> set (effects (step env a s))"
      unfolding Expire(6) by auto
    fix t ev'
    assume "(t, DispatchEvent ev') \<in> set (effects (step env a s))"
    then consider "(t, DispatchEvent ev') \<in> set (effects s)" | "t = now s" "ev' = ev"
      unfolding Expire(6) by auto
    then show "(t, DispatchEvent ev') \<in> set (effects s)
        \<or> (\<exists>t1 i c. (t1, SetTimeout i c PREV_NEXT_TIMEOUT_MS) \<in> set (effects (step env a s))
              \<and> t1 + PREV_NEXT_TIMEOUT_MS \<le> t \<and> eventOf c = Some ev')"
    proof cases
      case 1
      then show ?thesis ..
    next
      case 2
      have "(due tm - PREV_NEXT_TIMEOUT_MS, SetTimeout i (cb tm) PREV_NEXT_TIMEOUT_MS)
            \<in> set (effects (step env a s))
          \<and> due tm - PREV_NEXT_TIMEOUT_MS + PREV_NEXT_TIMEOUT_MS \<le> t \<and> eventOf (cb tm) = Some ev'"
        using new Expire(4) 2 unfolding Expire(6) by simp
      then show ?thesis by blast
    qed
  next
    fix tm'
    assume "tm' \<in> set (timers (step env a s))" "cb tm' \<noteq> ParseAndInit"
    with Expire(5) show "tm' \<in> set (timers s)
        \<or> (PREV_NEXT_TIMEOUT_MS \<le> due tm'
           \<and> (due tm' - PREV_NEXT_TIMEOUT_MS, SetTimeout (tid tm') (cb tm') PREV_NEXT_TIMEOUT_MS)
                \<in> set (effects (step env a s)))"
      by auto
  qed
next
  case (ParseFired i es)
  show ?thesis
  proof (rule logs_extend [OF assms])
    show "set (effects s) \<subseteq> set (effects (step env a s))"
      unfolding ParseFired(6) by auto
    fix t ev
    assume "(t, DispatchEvent ev) \<in> set (effects (step env a s))"
    from parser_calls_in [OF ParseFired(7) this [unfolded ParseFired(6)]]
    show "(t, DispatchEvent ev) \<in> set (effects s)
        \<or> (\<exists>t1 i c. (t1, SetTimeout i c PREV_NEXT_TIMEOUT_MS) \<in> set (effects (step env a s))
              \<and> t1 + PREV_NEXT_TIMEOUT_MS \<le> t \<and> eventOf c = Some ev)"
      by simp
  qed (simp add: ParseFired(2))
next
  case Scheduled
  show ?thesis
  proof (rule logs_extend [OF assms])
    show "set (effects s) \<subseteq> set (effects (step env a s))"
      unfolding Scheduled(2) by auto
    fix t ev
    assume "(t, DispatchEvent ev) \<in> set (effects (step env a s))"
    then show "(t, DispatchEvent ev) \<in> set (effects s)
        \<or> (\<exists>t1 i c. (t1, SetTimeout i c PREV_NEXT_TIMEOUT_MS) \<in> set (effects (step env a s))
              \<and> t1 + PREV_NEXT_TIMEOUT_MS \<le> t \<and> eventOf c = Some ev)"
      unfolding Scheduled(2) by simp
  next
    fix tm
    assume "tm \<in> set (timers (step env a s))" "cb tm \<noteq> ParseAndInit"
    then show "tm \<in> set (timers s)
        \<or> (PREV_NEXT_TIMEOUT_MS \<le> due tm
           \<and> (due tm - PREV_NEXT_TIMEOUT_MS, SetTimeout (tid tm) (cb tm) PREV_NEXT_TIMEOUT_MS)
                \<in> set (effects (step env a s)))"
      unfolding Scheduled(1) by auto
  qed
qed

lemma constructor_fresh:
  "timers (constructor env attrs t0) = []" "lastTimerId (constructor env attrs t0) = 0"
  "prevNextTimer (constructor env attrs t0) = None" "now (constructor env attrs t0) = t0"
  "\<exists>es. effects (constructor env attrs t0) = map (Pair t0) es \<and> list_all isParserCall es"
  using quiet_constructor [of attrs t0 env] unfolding quiet_def by (auto simp: newElement_def)

lemma constructor_effects:
  assumes "x \<in> set (effects (constructor env attrs t0))"
  shows "isParserCall (snd x)"
proof -
  from constructor_fresh(5) [of env attrs t0] obtain es
    where es: "effects (constructor env attrs t0) = [] @ map (Pair t0) es" "list_all isParserCall es"
    by auto
  from parser_calls_in [OF es(2) assms [unfolded es(1)]] show ?thesis by simp
qed

lemma logs_constructor:
  "dwellTimersLogged (constructor env attrs t0) \<and> dispatchesTimed (constructor env attrs t0)"
proof -
  have "dwellTimersLogged (constructor env attrs t0)"
    unfolding dwellTimersLogged_iff by (simp add: constructor_fresh)
  moreover have "dispatchesTimed (constructor env attrs t0)"
    unfolding dispatchesTimed_iff using constructor_effects [of _ env attrs t0] by fastforce
  ultimately show ?thesis ..
qed

lemma logs_exec:
  "dwellTimersLogged (exec env as (constructor env attrs t0))
   \<and> dispatchesTimed (exec env as (constructor env attrs t0))"
  by (rule exec_invariant [where P = "\<lambda>s. dwellTimersLogged s \<and> dispatchesTimed s"])
    (auto simp: logs_constructor logs_step)

lemma andThen_invariant:
  assumes "P (stateOf oc)" and "\<And>x. P x \<Longrightarrow> P (stateOf (f x))"
  shows "P (stateOf (andThen oc f))"
  using assms by (cases oc) simp_all

lemma ready_emit [simp]: "ready (emit e s) = ready s" "animating (emit e s) = animating s"
  by (simp_all add: ready_def emit_def)

lemma ready_parse:
  "ready (stateOf (parse env s)) = ready s" "animating (stateOf (parse env s)) = animating s"
  by (auto simp: parse_def parseWithSrc_def awaitStereoData_def ready_def emit_def
      split: option.splits)

lemma ready_initialize3DScene:
  "ready s \<Longrightarrow> ready (stateOf (initialize3DScene s))"
  "animating (stateOf (initialize3DScene s)) = animating s"
  by (auto simp: initialize3DScene_def Let_def ready_def split: option.splits)

lemma ready_resetCameraPosition:
  "ready (resetCameraPosition s) = ready s" "animating (resetCameraPosition s) = animating s"
  by (simp_all add: resetCameraPosition_def ready_def)

lemma ready_addPrevNextButtons:
  "ready s \<Longrightarrow> ready (stateOf (addPrevNextButtons s))"
  "animating (stateOf (addPrevNextButtons s)) = animating s"
  by (auto simp: addPrevNextButtons_def Let_def ready_def split: option.splits)

lemma ready_parseImageAndInitialize3DScene:
  assumes "ready s"
  shows "ready (stateOf (parseImageAndInitialize3DScene env s))
         \<and> animating (stateOf (parseImageAndInitialize3DScene env s)) = animating s"
  unfolding parseImageAndInitialize3DScene_def
proof (intro andThen_invariant [where P = "\<lambda>x. ready x \<and> animating x = animating s"])
  have "ready (s\<lparr>opacity := ''0''\<rparr>)" "animating (s\<lparr>opacity := ''0''\<rparr>) = animating s"
    using assms by (simp_all add: ready_def)
  then show "ready (stateOf (parse env (s\<lparr>opacity := ''0''\<rparr>)))
      \<and> animating (stateOf (parse env (s\<lparr>opacity := ''0''\<rparr>))) = animating s"
    by (simp add: ready_parse)
next
  fix x
  assume "ready x \<and> animating x = animating s"
  then show "ready (stateOf (initialize3DScene x)) \<and> animating (stateOf (initialize3DScene x)) = animating s"
    by (simp add: ready_initialize3DScene)
next
  fix x
  assume "ready x \<and> animating x = animating s"
  then show "ready (stateOf (let s2 = resetCameraPosition x
                      in if camera s2 \<noteq> None then addPrevNextButtons s2 else Completed s2))
      \<and> animating (stateOf (let s2 = resetCameraPosition x
                      in if camera s2 \<noteq> None then addPrevNextButtons s2 else Completed s2)) = animating s"
    by (simp add: Let_def ready_resetCameraPosition ready_addPrevNextButtons)
next
  fix x
  assume "ready x \<and> animating x = animating s"
  then show "ready (stateOf (Completed (x\<lparr>opacity := ''1''\<rparr>)))
      \<and> animating (stateOf (Completed (x\<lparr>opacity := ''1''\<rparr>))) = animating s"
    by (simp add: ready_def)
qed

lemma animating_parseImageAndInitialize3DScene:
  "animating (stateOf (parseImageAndInitialize3DScene env s)) = animating s"
  unfolding parseImageAndInitialize3DScene_def
proof (intro andThen_invariant [where P = "\<lambda>x. animating x = animating s"])
  show "animating (stateOf (parse env (s\<lparr>opacity := ''0''\<rparr>))) = animating s"
    by (simp add: ready_parse)
qed (simp_all add: ready_initialize3DScene Let_def ready_resetCameraPosition ready_addPrevNextButtons)

lemma ready_update [simp]:
  "ready (s\<lparr>timerRingForPrev := f\<rparr>) = ready s"
  "ready (s\<lparr>now := n\<rparr>) = ready s"
  "ready (s\<lparr>timers := ts\<rparr>) = ready s"
  "ready (s\<lparr>prevNextTimer := h\<rparr>) = ready s"
  "ready (s\<lparr>effects := es\<rparr>) = ready s"
  by (simp_all add: ready_def)

lemma ready_startDwell: "ready (startDwell c s) = ready s" "animating (startDwell c s) = animating s"
  by (cases "timerPending s"; simp add: startDwell_pending startDwell_idle ready_def)+

lemma ready_prevNextLoop: "ready (prevNextLoop xs s) = ready s" "animating (prevNextLoop xs s) = animating s"
proof -
  consider f where "prevNextLoop xs s = s\<lparr>timerRingForPrev := f\<rparr>"
    | c f where "prevNextLoop xs s = (startDwell c s)\<lparr>timerRingForPrev := f\<rparr>"
    using prevNextLoop_pending [of s xs] prevNextLoop_idle [of s xs] by (cases "timerPending s") blast+
  then have "ready (prevNextLoop xs s) = ready s \<and> animating (prevNextLoop xs s) = animating s"
    by cases (simp_all add: ready_startDwell)
  then show "ready (prevNextLoop xs s) = ready s" "animating (prevNextLoop xs s) = animating s"
    by simp_all
qed

lemma ready_clearTimeout: "ready (clearTimeout h s) = ready s" "animating (clearTimeout h s) = animating s"
  by (cases h; simp add: clearTimeout_def)+

lemma ready_prevNextTest: "ready (prevNextTest xs s) = ready s" "animating (prevNextTest xs s) = animating s"
  by (simp_all add: prevNextTest_def ready_prevNextLoop ready_clearTimeout)

lemma ready_updatePrevNextRing:
  "ready s \<Longrightarrow> ready (stateOf (updatePrevNextRing s))"
  "animating (stateOf (updatePrevNextRing s)) = animating s"
  unfolding updatePrevNextRing_def removeOldRing_def turnButtons_def addNewRing_def Let_def
  by (auto simp: ready_def split: option.splits)

lemma ready_controlsUpdate:
  "ready (controlsUpdate p s) = ready s" "animating (controlsUpdate p s) = animating s"
  by (simp_all add: controlsUpdate_def ready_def)

lemma ready_fireTimer:
  "ready s \<Longrightarrow> ready (fireTimer env i s)" "animating (fireTimer env i s) = animating s"
proof -
  have d: "ready (dwellExpired ev x) = ready x \<and> animating (dwellExpired ev x) = animating x" for ev x
    by (auto simp: dwellExpired_def dispatchEvent_def clearTimeout_def emit_def ready_def
        split: option.splits)
  have t: "ready (x\<lparr>timers := ts\<rparr>) = ready x \<and> animating (x\<lparr>timers := ts\<rparr>) = animating x" for x ts
    by simp
  show "ready s \<Longrightarrow> ready (fireTimer env i s)"
    using ready_parseImageAndInitialize3DScene [of "s\<lparr>timers := filter (\<lambda>t. tid t \<noteq> i) (timers s)\<rparr>" env]
    by (auto simp: fireTimer_def runCallback_def d t split: option.splits callback.splits)
  show "animating (fireTimer env i s) = animating s"
    by (auto simp: fireTimer_def runCallback_def d t animating_parseImageAndInitialize3DScene
        split: option.splits callback.splits)
qed

lemma ready_setters:
  "ready (set_type v s) = ready s" "animating (set_type v s) = animating s"
  "ready (set_angle v s) = ready s" "animating (set_angle v s) = animating s"
  "ready (set_src v s) = ready s" "animating (set_src v s) = animating s"
  "ready (set_backImageSrc v s) = ready s" "animating (set_backImageSrc v s) = animating s"
  by (simp_all add: set_type_def set_angle_def set_src_def set_backImageSrc_def setAttribute_def
      removeAttribute_def scheduleParse_def setTimeout_def emit_def Let_def resetCameraPosition_def
      ready_def)

lemma ready_step:
  "ready s \<Longrightarrow> ready (step env a s)" "animating (step env a s) = animating s"
proof -
  show "ready s \<Longrightarrow> ready (step env a s)"
    by (cases a)
      (simp_all add: animationFrame_def ready_updatePrevNextRing ready_prevNextTest
        ready_controlsUpdate ready_fireTimer ready_setters)
  show "animating (step env a s) = animating s"
    by (cases a)
      (simp_all add: animationFrame_def ready_updatePrevNextRing ready_prevNextTest
        ready_controlsUpdate ready_fireTimer ready_setters)
qed

text \<open>The animation loop runs only once \<open>init\<close> has set up everything \<open>prevNextTest\<close> needs.\<close>

lemma constructor_ready:
  "animating (constructor env attrs t0) \<Longrightarrow> ready (constructor env attrs t0)"
proof -
  let ?s0 = "newElement attrs t0"
  let ?mid = "andThen (parseImageAndInitialize3DScene env ?s0)
                (\<lambda>s1. addPrevNextButtons
                        (s1\<lparr>renderer := True,
                            camera := Some (new_Camera\<lparr>layers := insert 1 (layers new_Camera)\<rparr>),
                            raycaster := True\<rparr>))"
  assume an: "animating (constructor env attrs t0)"
  have mid_an: "\<not> animating (stateOf ?mid)"
  proof (intro andThen_invariant [where P = "\<lambda>x. \<not> animating x"])
    show "\<not> animating (stateOf (parseImageAndInitialize3DScene env ?s0))"
      by (simp add: animating_parseImageAndInitialize3DScene newElement_def)
  qed (simp add: ready_addPrevNextButtons)
  show ?thesis
  proof (cases ?mid)
    case (Thrown x)
    with mid_an an show ?thesis
      by (simp add: constructor_def init_def)
  next
    case (Completed x)
    have "ready x"
    proof (cases "parseImageAndInitialize3DScene env ?s0")
      case T: (Thrown y)
      with Completed show ?thesis by simp
    next
      case C: (Completed y)
      with Completed show ?thesis
        by (auto simp: addPrevNextButtons_def Let_def ready_def split: option.splits if_splits)
    qed
    with Completed show ?thesis
      by (simp add: constructor_def init_def resetCameraPosition_def ready_def)
  qed
qed

lemma reachable_ready:
  "(timerPending (exec env as (constructor env attrs t0)) \<longrightarrow> animating (exec env as (constructor env attrs t0)))
   \<and> (animating (exec env as (constructor env attrs t0)) \<longrightarrow> ready (exec env as (constructor env attrs t0)))"
proof (rule exec_invariant [where P = "\<lambda>s. (timerPending s \<longrightarrow> animating s) \<and> (animating s \<longrightarrow> ready s)"])
  show "(timerPending (constructor env attrs t0) \<longrightarrow> animating (constructor env attrs t0))
      \<and> (animating (constructor env attrs t0) \<longrightarrow> ready (constructor env attrs t0))"
    by (simp add: constructor_ready timerPending_def constructor_fresh)
next
  fix a and x :: stereoImg
  assume inv: "(timerPending x \<longrightarrow> animating x) \<and> (animating x \<longrightarrow> ready x)"
  have "timerPending (step env a x) \<longrightarrow> animating x"
    by (cases rule: step_cases [of env a x]) (use inv in \<open>auto simp: timerPending_def\<close>)
  with inv show "(timerPending (step env a x) \<longrightarrow> animating (step env a x))
      \<and> (animating (step env a x) \<longrightarrow> ready (step env a x))"
    by (simp add: ready_step)
qed







lemma dispatch_origin_step:
  assumes "(t, DispatchEvent ev) \<in> set (effects (step env a s))"
    and "(t, DispatchEvent ev) \<notin> set (effects s)"
  shows "\<exists>i tm. a = Fire i \<and> find (\<lambda>x. tid x = i) (timers s) = Some tm \<and> due tm \<le> now s
           \<and> eventOf (cb tm) = Some ev \<and> t = now s"
proof (cases rule: step_cases [of env a s])
  case (Quiet es)
  from parser_calls_in [OF Quiet(6) assms(1) [unfolded Quiet(5)]] assms(2) show ?thesis by simp
next
  case (Start c' p xs)
  from assms show ?thesis unfolding Start(7) by auto
next
  case (Cancel p)
  from assms show ?thesis unfolding Cancel(5) by auto
next
  case (Expire j tm ev')
  from assms have "t = now s" "ev = ev'"
    unfolding Expire(6) by auto
  with Expire(1-4) show ?thesis by blast
next
  case (ParseFired j es)
  from parser_calls_in [OF ParseFired(7) assms(1) [unfolded ParseFired(6)]] assms(2) show ?thesis by simp
next
  case Scheduled
  from assms show ?thesis unfolding Scheduled(2) by auto
qed

section \<open>A sample run: gaze at the previous button for a second\<close>

lemma sample_dwell:
  "timers (exec sampleParsers [Frame (0, 0, 1 / 10) [Some (Object3DRef [] (Some (Object3DRef ''prev'' None)))]]
     (constructor sampleParsers Map.empty 100)) = [\<lparr>tid = 1, due = 1100, cb = GoToPrev\<rparr>]"
  "effects (exec sampleParsers [Frame (0, 0, 1 / 10) [Some (Object3DRef [] (Some (Object3DRef ''prev'' None)))]]
     (constructor sampleParsers Map.empty 100)) = [(100, SetTimeout 1 GoToPrev 1000)]"
  "prevNextTimer (exec sampleParsers [Frame (0, 0, 1 / 10) [Some (Object3DRef [] (Some (Object3DRef ''prev'' None)))]]
     (constructor sampleParsers Map.empty 100)) = Some 1"
  "now (exec sampleParsers [Frame (0, 0, 1 / 10) [Some (Object3DRef [] (Some (Object3DRef ''prev'' None)))]]
     (constructor sampleParsers Map.empty 100)) = 100"
  "lastTimerId (exec sampleParsers [Frame (0, 0, 1 / 10) [Some (Object3DRef [] (Some (Object3DRef ''prev'' None)))]]
     (constructor sampleParsers Map.empty 100)) = 1"
proof -
  let ?W = "constructor sampleParsers Map.empty 100"
  let ?X = "[Some (Object3DRef [] (Some (Object3DRef ''prev'' None)))]"
  let ?C = "controlsUpdate (0, 0, 1 / 10) ?W"
  note W = sample_constructed
  have rdy: "scene ?C \<noteq> None" "camera ?C \<noteq> None" "raycaster ?C" "prevNextButtons ?C \<noteq> None"
    using W(1-4) by (simp_all add: controlsUpdate_keeps)
  have idle: "\<not> timerPending ?C"
    by (simp add: timerPending_def controlsUpdate_keeps W)
  have X: "None \<notin> parentName ` set ?X" "buttonOf GoToPrev \<in> parentName ` set ?X"
    "Some (if GoToPrev = GoToPrev then ''next'' else ''prev'') \<notin> parentName ` set ?X"
    by (simp_all add: parentName_def)
  have c: "GoToPrev = GoToPrev \<or> GoToPrev = GoToNext"
    by simp
  note st = prevNextTest_starts [OF rdy c X idle]
  have e: "exec sampleParsers [Frame (0, 0, 1 / 10) ?X] ?W = animationFrame (0, 0, 1 / 10) ?X ?W"
    by (simp add: W)
  show "timers (exec sampleParsers [Frame (0, 0, 1 / 10) ?X] ?W) = [\<lparr>tid = 1, due = 1100, cb = GoToPrev\<rparr>]"
    "effects (exec sampleParsers [Frame (0, 0, 1 / 10) ?X] ?W) = [(100, SetTimeout 1 GoToPrev 1000)]"
    "prevNextTimer (exec sampleParsers [Frame (0, 0, 1 / 10) ?X] ?W) = Some 1"
    "now (exec sampleParsers [Frame (0, 0, 1 / 10) ?X] ?W) = 100"
    "lastTimerId (exec sampleParsers [Frame (0, 0, 1 / 10) ?X] ?W) = 1"
    unfolding e animationFrame_keeps st
    by (simp_all add: controlsUpdate_keeps W PREV_NEXT_TIMEOUT_MS_def now_prevNextTest)
qed

lemma sample_waited:
  "timers (exec sampleParsers
     [Frame (0, 0, 1 / 10) [Some (Object3DRef [] (Some (Object3DRef ''prev'' None)))], Tick 1000]
     (constructor sampleParsers Map.empty 100)) = [\<lparr>tid = 1, due = 1100, cb = GoToPrev\<rparr>]"
  "effects (exec sampleParsers
     [Frame (0, 0, 1 / 10) [Some (Object3DRef [] (Some (Object3DRef ''prev'' None)))], Tick 1000]
     (constructor sampleParsers Map.empty 100)) = [(100, SetTimeout 1 GoToPrev 1000)]"
  "prevNextTimer (exec sampleParsers
     [Frame (0, 0, 1 / 10) [Some (Object3DRef [] (Some (Object3DRef ''prev'' None)))], Tick 1000]
     (constructor sampleParsers Map.empty 100)) = Some 1"
  "now (exec sampleParsers
     [Frame (0, 0, 1 / 10) [Some (Object3DRef [] (Some (Object3DRef ''prev'' None)))], Tick 1000]
     (constructor sampleParsers Map.empty 100)) = 1100"
proof -
  let ?W = "constructor sampleParsers Map.empty 100"
  let ?X = "[Some (Object3DRef [] (Some (Object3DRef ''prev'' None)))]"
  have "exec sampleParsers [Frame (0, 0, 1 / 10) ?X, Tick 1000] ?W
      = exec sampleParsers [Tick 1000] (exec sampleParsers [Frame (0, 0, 1 / 10) ?X] ?W)"
    using exec_append [of sampleParsers "[Frame (0, 0, 1 / 10) ?X]" "[Tick 1000]" ?W] by simp
  then show "timers (exec sampleParsers [Frame (0, 0, 1 / 10) ?X, Tick 1000] ?W)
        = [\<lparr>tid = 1, due = 1100, cb = GoToPrev\<rparr>]"
    "effects (exec sampleParsers [Frame (0, 0, 1 / 10) ?X, Tick 1000] ?W) = [(100, SetTimeout 1 GoToPrev 1000)]"
    "prevNextTimer (exec sampleParsers [Frame (0, 0, 1 / 10) ?X, Tick 1000] ?W) = Some 1"
    "now (exec sampleParsers [Frame (0, 0, 1 / 10) ?X, Tick 1000] ?W) = 1100"
    using sample_dwell by (simp_all del: exec.simps(2) add: exec.simps(2) [of _ _ "[]"])
qed

lemma sample_fired:
  "effects (step sampleParsers (Fire 1) (exec sampleParsers
     [Frame (0, 0, 1 / 10) [Some (Object3DRef [] (Some (Object3DRef ''prev'' None)))], Tick 1000]
     (constructor sampleParsers Map.empty 100)))
   = [(100, SetTimeout 1 GoToPrev 1000), (1100, ClearTimeout (Some 1)),
      (1100, DispatchEvent ''stereoImgGoToPrev'')]"
  "exec sampleParsers
     [Frame (0, 0, 1 / 10) [Some (Object3DRef [] (Some (Object3DRef ''prev'' None)))], Tick 1000, Fire 1]
     (constructor sampleParsers Map.empty 100)
   = step sampleParsers (Fire 1) (exec sampleParsers
     [Frame (0, 0, 1 / 10) [Some (Object3DRef [] (Some (Object3DRef ''prev'' None)))], Tick 1000]
     (constructor sampleParsers Map.empty 100))"
proof -
  let ?W = "constructor sampleParsers Map.empty 100"
  let ?X = "[Some (Object3DRef [] (Some (Object3DRef ''prev'' None)))]"
  let ?s2 = "exec sampleParsers [Frame (0, 0, 1 / 10) ?X, Tick 1000] ?W"
  have f: "find (\<lambda>t. tid t = 1) (timers ?s2) = Some \<lparr>tid = 1, due = 1100, cb = GoToPrev\<rparr>"
    unfolding sample_waited by simp
  have d: "due \<lparr>tid = 1, due = 1100, cb = GoToPrev\<rparr> \<le> now ?s2"
    unfolding sample_waited by simp
  have ev: "eventOf (cb \<lparr>tid = 1, due = 1100, cb = GoToPrev\<rparr>) = Some ''stereoImgGoToPrev''"
    by simp
  from fireTimer_dwell(2) [OF f d ev, of sampleParsers]
  show "effects (step sampleParsers (Fire 1) ?s2)
      = [(100, SetTimeout 1 GoToPrev 1000), (1100, ClearTimeout (Some 1)),
         (1100, DispatchEvent ''stereoImgGoToPrev'')]"
    unfolding sample_waited by simp
  show "exec sampleParsers [Frame (0, 0, 1 / 10) ?X, Tick 1000, Fire 1] ?W
      = step sampleParsers (Fire 1) ?s2"
    using exec_append [of sampleParsers "[Frame (0, 0, 1 / 10) ?X, Tick 1000]" "[Fire 1]" ?W]
    by (simp del: exec.simps(2) add: exec.simps(2) [of _ _ "[]"])
qed


text \<open>
  The same run with any intersections whose first one of a button, or without a parent,
  is of the button of \<open>c\<close>.
\<close>

lemma sample_gaze:
  assumes "c = GoToPrev \<or> c = GoToNext"
    and "None \<notin> parentName ` set pre"
    and "Some ''prev'' \<notin> parentName ` set pre"
    and "Some ''next'' \<notin> parentName ` set pre"
    and "parentName x = buttonOf c"
  shows "timers (exec sampleParsers [Frame p (pre @ x # post)] (constructor sampleParsers Map.empty 100))
      = [\<lparr>tid = 1, due = 1100, cb = c\<rparr>]"
    and "effects (exec sampleParsers [Frame p (pre @ x # post)] (constructor sampleParsers Map.empty 100))
      = [(100, SetTimeout 1 c 1000)]"
    and "prevNextTimer (exec sampleParsers [Frame p (pre @ x # post)] (constructor sampleParsers Map.empty 100))
      = Some 1"
    and "now (exec sampleParsers [Frame p (pre @ x # post)] (constructor sampleParsers Map.empty 100)) = 100"
    and "lastTimerId (exec sampleParsers [Frame p (pre @ x # post)] (constructor sampleParsers Map.empty 100)) = 1"
proof -
  let ?W = "constructor sampleParsers Map.empty 100"
  note W = sample_constructed
  have idle: "\<not> timerPending ?W"
    by (simp add: timerPending_def W)
  note st = animationFrame_decisive [OF W(1-4) idle assms, of p post]
  have e: "exec sampleParsers [Frame p (pre @ x # post)] ?W = animationFrame p (pre @ x # post) ?W"
    by (simp add: W)
  show "timers (exec sampleParsers [Frame p (pre @ x # post)] ?W) = [\<lparr>tid = 1, due = 1100, cb = c\<rparr>]"
    "effects (exec sampleParsers [Frame p (pre @ x # post)] ?W) = [(100, SetTimeout 1 c 1000)]"
    "prevNextTimer (exec sampleParsers [Frame p (pre @ x # post)] ?W) = Some 1"
    "now (exec sampleParsers [Frame p (pre @ x # post)] ?W) = 100"
    "lastTimerId (exec sampleParsers [Frame p (pre @ x # post)] ?W) = 1"
    unfolding e st by (simp_all add: W PREV_NEXT_TIMEOUT_MS_def)
qed

lemma sample_gaze_waited:
  assumes "c = GoToPrev \<or> c = GoToNext"
    and "None \<notin> parentName ` set pre"
    and "Some ''prev'' \<notin> parentName ` set pre"
    and "Some ''next'' \<notin> parentName ` set pre"
    and "parentName x = buttonOf c"
  shows "timers (exec sampleParsers [Frame p (pre @ x # post), Tick 1000]
        (constructor sampleParsers Map.empty 100)) = [\<lparr>tid = 1, due = 1100, cb = c\<rparr>]"
    and "effects (exec sampleParsers [Frame p (pre @ x # post), Tick 1000]
        (constructor sampleParsers Map.empty 100)) = [(100, SetTimeout 1 c 1000)]"
    and "prevNextTimer (exec sampleParsers [Frame p (pre @ x # post), Tick 1000]
        (constructor sampleParsers Map.empty 100)) = Some 1"
    and "now (exec sampleParsers [Frame p (pre @ x # post), Tick 1000]
        (constructor sampleParsers Map.empty 100)) = 1100"
proof -
  let ?W = "constructor sampleParsers Map.empty 100"
  have "exec sampleParsers [Frame p (pre @ x # post), Tick 1000] ?W
      = exec sampleParsers [Tick 1000] (exec sampleParsers [Frame p (pre @ x # post)] ?W)"
    using exec_append [of sampleParsers "[Frame p (pre @ x # post)]" "[Tick 1000]" ?W] by simp
  then show "timers (exec sampleParsers [Frame p (pre @ x # post), Tick 1000] ?W)
        = [\<lparr>tid = 1, due = 1100, cb = c\<rparr>]"
    "effects (exec sampleParsers [Frame p (pre @ x # post), Tick 1000] ?W) = [(100, SetTimeout 1 c 1000)]"
    "prevNextTimer (exec sampleParsers [Frame p (pre @ x # post), Tick 1000] ?W) = Some 1"
    "now (exec sampleParsers [Frame p (pre @ x # post), Tick 1000] ?W) = 1100"
    using sample_gaze [OF assms, of p post]
    by (simp_all del: exec.simps(2) add: exec.simps(2) [of _ _ "[]"])
qed

lemma sample_gaze_fired:
  assumes "c = GoToPrev \<or> c = GoToNext"
    and "None \<notin> parentName ` set pre"
    and "Some ''prev'' \<notin> parentName ` set pre"
    and "Some ''next'' \<notin> parentName ` set pre"
    and "parentName x = buttonOf c"
    and "eventOf c = Some ev"
  shows "effects (exec sampleParsers [Frame p (pre @ x # post), Tick 1000, Fire 1]
        (constructor sampleParsers Map.empty 100))
      = [(100, SetTimeout 1 c 1000), (1100, ClearTimeout (Some 1)), (1100, DispatchEvent ev)]"
    and "timers (exec sampleParsers [Frame p (pre @ x # post), Tick 1000, Fire 1]
        (constructor sampleParsers Map.empty 100)) = []"
    and "prevNextTimer (exec sampleParsers [Frame p (pre @ x # post), Tick 1000, Fire 1]
        (constructor sampleParsers Map.empty 100)) = None"
proof -
  let ?W = "constructor sampleParsers Map.empty 100"
  define s2 where "s2 = exec sampleParsers [Frame p (pre @ x # post), Tick 1000] ?W"
  note w = sample_gaze_waited [OF assms(1-5), of p post, folded s2_def]
  have f: "find (\<lambda>t. tid t = 1) (timers s2) = Some \<lparr>tid = 1, due = 1100, cb = c\<rparr>"
    unfolding w by simp
  have d: "due \<lparr>tid = 1, due = 1100, cb = c\<rparr> \<le> now s2"
    unfolding w by simp
  have ev: "eventOf (cb \<lparr>tid = 1, due = 1100, cb = c\<rparr>) = Some ev"
    using assms(6) by simp
  have e: "exec sampleParsers [Frame p (pre @ x # post), Tick 1000, Fire 1] ?W
      = fireTimer sampleParsers 1 s2"
    unfolding s2_def
    using exec_append [of sampleParsers "[Frame p (pre @ x # post), Tick 1000]" "[Fire 1]" ?W]
    by (simp del: exec.simps(2) add: exec.simps(2) [of _ _ "[]"])
  note fd = fireTimer_dwell(1-3) [OF f d ev, of sampleParsers]
  show "prevNextTimer (exec sampleParsers [Frame p (pre @ x # post), Tick 1000, Fire 1] ?W) = None"
    unfolding e by (rule fd(1))
  show "effects (exec sampleParsers [Frame p (pre @ x # post), Tick 1000, Fire 1] ?W)
      = [(100, SetTimeout 1 c 1000), (1100, ClearTimeout (Some 1)), (1100, DispatchEvent ev)]"
    unfolding e fd(2) w by simp
  have "{t \<in> set (timers s2). tid t \<noteq> 1} = {}"
    unfolding w by auto
  with fd(3) have "set (timers (fireTimer sampleParsers 1 s2)) \<subseteq> {}"
    by (simp only:)
  then have "timers (fireTimer sampleParsers 1 s2) = []"
    by simp
  then show "timers (exec sampleParsers [Frame p (pre @ x # post), Tick 1000, Fire 1] ?W) = []"
    unfolding e by simp
qed
section \<open>Cancelling a dwell, and what a dispatched event presupposes\<close>





section \<open>The events the element dispatches\<close>

text \<open>
  Claim C7. Every event an execution of the element has dispatched is
  \<open>stereoImgGoToPrev\<close> or \<open>stereoImgGoToNext\<close>. And from a state an execution has
  reached, a step dispatches an event only when the browser runs a queued timer that is
  due and whose callback is one of the two dwell callbacks of \<open>prevNextTest\<close>; the event
  is the one of that callback, and the timer was queued by a logged \<open>setTimeout\<close> of
  \<open>PREV_NEXT_TIMEOUT_MS\<close>. No other operation of the element dispatches anything.
\<close>

theorem only_navigation_events:
  "s = exec env as (constructor env attrs t0) \<Longrightarrow>
     (\<forall>t ev. (t, DispatchEvent ev) \<in> set (effects s) \<longrightarrow>
        ev = ''stereoImgGoToPrev'' \<or> ev = ''stereoImgGoToNext'')
     \<and> (\<forall>a t ev. (t, DispatchEvent ev) \<in> set (effects (step env a s))
                  \<and> (t, DispatchEvent ev) \<notin> set (effects s) \<longrightarrow>
           (\<exists>i tm. a = Fire i \<and> find (\<lambda>x. tid x = i) (timers s) = Some tm \<and> due tm \<le> now s
              \<and> t = now s
              \<and> (cb tm = GoToPrev \<and> ev = ''stereoImgGoToPrev''
                  \<or> cb tm = GoToNext \<and> ev = ''stereoImgGoToNext'')
              \<and> (due tm - PREV_NEXT_TIMEOUT_MS, SetTimeout i (cb tm) PREV_NEXT_TIMEOUT_MS)
                   \<in> set (effects s)))"
proof (intro conjI impI allI)
  fix t ev
  assume s: "s = exec env as (constructor env attrs t0)"
    and d: "(t, DispatchEvent ev) \<in> set (effects s)"
  from logs_exec [of env as attrs t0] have "dispatchesTimed s"
    unfolding s by blast
  from this [unfolded dispatchesTimed_iff, rule_format, OF d]
  obtain c where "eventOf c = Some ev"
    by blast
  then show "ev = ''stereoImgGoToPrev'' \<or> ev = ''stereoImgGoToNext''"
    by (cases c) auto
next
  fix a t ev
  assume s: "s = exec env as (constructor env attrs t0)"
    and d: "(t, DispatchEvent ev) \<in> set (effects (step env a s))
              \<and> (t, DispatchEvent ev) \<notin> set (effects s)"
  from dispatch_origin_step [of t ev env a s] d
  obtain i tm where f: "a = Fire i" "find (\<lambda>x. tid x = i) (timers s) = Some tm" "due tm \<le> now s"
      "eventOf (cb tm) = Some ev" "t = now s"
    by blast
  from f(2) have tm: "tm \<in> set (timers s)" "tid tm = i"
    by (auto simp: find_Some_iff in_set_conv_nth)
  from f(4) have c: "cb tm = GoToPrev \<and> ev = ''stereoImgGoToPrev''
      \<or> cb tm = GoToNext \<and> ev = ''stereoImgGoToNext''"
    by (cases "cb tm") auto
  then have "cb tm \<noteq> ParseAndInit" by auto
  moreover from logs_exec [of env as attrs t0] have "dwellTimersLogged s"
    unfolding s by blast
  ultimately have "(due tm - PREV_NEXT_TIMEOUT_MS, SetTimeout i (cb tm) PREV_NEXT_TIMEOUT_MS)
      \<in> set (effects s)"
    unfolding dwellTimersLogged_iff using tm by blast
  with f c show "\<exists>i tm. a = Fire i \<and> find (\<lambda>x. tid x = i) (timers s) = Some tm \<and> due tm \<le> now s
      \<and> t = now s
      \<and> (cb tm = GoToPrev \<and> ev = ''stereoImgGoToPrev'' \<or> cb tm = GoToNext \<and> ev = ''stereoImgGoToNext'')
      \<and> (due tm - PREV_NEXT_TIMEOUT_MS, SetTimeout i (cb tm) PREV_NEXT_TIMEOUT_MS) \<in> set (effects s)"
    by blast
qed

theorem only_navigation_events_witness:
  "(1100, DispatchEvent ''stereoImgGoToPrev'') \<in> set (effects (exec sampleParsers
       [Frame (0, 0, 1 / 10) [Some (Object3DRef [] (Some (Object3DRef ''prev'' None)))], Tick 1000, Fire 1]
       (constructor sampleParsers Map.empty 100)))
   \<and> (1100, DispatchEvent ''stereoImgGoToPrev'') \<in> set (effects (step sampleParsers (Fire 1)
       (exec sampleParsers
         [Frame (0, 0, 1 / 10) [Some (Object3DRef [] (Some (Object3DRef ''prev'' None)))], Tick 1000]
         (constructor sampleParsers Map.empty 100))))
   \<and> (1100, DispatchEvent ''stereoImgGoToPrev'') \<notin> set (effects (exec sampleParsers
         [Frame (0, 0, 1 / 10) [Some (Object3DRef [] (Some (Object3DRef ''prev'' None)))], Tick 1000]
         (constructor sampleParsers Map.empty 100)))
   \<and> (\<exists>i tm. Fire 1 = Fire i
         \<and> find (\<lambda>x. tid x = i) (timers (exec sampleParsers
              [Frame (0, 0, 1 / 10) [Some (Object3DRef [] (Some (Object3DRef ''prev'' None)))], Tick 1000]
              (constructor sampleParsers Map.empty 100))) = Some tm
         \<and> cb tm = GoToPrev
         \<and> (due tm - PREV_NEXT_TIMEOUT_MS, SetTimeout i (cb tm) PREV_NEXT_TIMEOUT_MS)
              \<in> set (effects (exec sampleParsers
                [Frame (0, 0, 1 / 10) [Some (Object3DRef [] (Some (Object3DRef ''prev'' None)))], Tick 1000]
                (constructor sampleParsers Map.empty 100))))"
proof -
  let ?W = "constructor sampleParsers Map.empty 100"
  let ?X = "[Some (Object3DRef [] (Some (Object3DRef ''prev'' None)))]"
  let ?s2 = "exec sampleParsers [Frame (0, 0, 1 / 10) ?X, Tick 1000] ?W"
  let ?s3 = "exec sampleParsers [Frame (0, 0, 1 / 10) ?X, Tick 1000, Fire 1] ?W"
  have d3: "(1100, DispatchEvent ''stereoImgGoToPrev'') \<in> set (effects ?s3)"
    by (simp only: sample_fired) simp
  have d: "(1100, DispatchEvent ''stereoImgGoToPrev'') \<in> set (effects (step sampleParsers (Fire 1) ?s2))"
    by (simp only: sample_fired) simp
  have n: "(1100, DispatchEvent ''stereoImgGoToPrev'') \<notin> set (effects ?s2)"
    by (simp only: sample_waited) simp
  note o = only_navigation_events [OF refl, of sampleParsers "[Frame (0, 0, 1 / 10) ?X, Tick 1000]"
      Map.empty 100, THEN conjunct2, rule_format, OF conjI [OF d n]]
  from o obtain i tm where i: "Fire 1 = Fire i" "find (\<lambda>x. tid x = i) (timers ?s2) = Some tm"
      and c: "cb tm = GoToPrev \<and> ''stereoImgGoToPrev'' = ''stereoImgGoToPrev''
       \<or> cb tm = GoToNext \<and> ''stereoImgGoToPrev'' = ''stereoImgGoToNext''"
      and l: "(due tm - PREV_NEXT_TIMEOUT_MS, SetTimeout i (cb tm) PREV_NEXT_TIMEOUT_MS) \<in> set (effects ?s2)"
    by (elim exE conjE)
  from c have "cb tm = GoToPrev"
    by simp
  with i l have "\<exists>i tm. Fire 1 = Fire i \<and> find (\<lambda>x. tid x = i) (timers ?s2) = Some tm \<and> cb tm = GoToPrev
      \<and> (due tm - PREV_NEXT_TIMEOUT_MS, SetTimeout i (cb tm) PREV_NEXT_TIMEOUT_MS) \<in> set (effects ?s2)"
    by (intro exI [of _ i] exI [of _ tm] conjI)
  with d3 d n show ?thesis
    by (intro conjI)
qed

section \<open>Gaze-dwell navigation\<close>

text \<open>
  Claim C1, as amended. Take an animation step in a state \<open>s\<close> that an execution of
  the element has reached with its animation loop running, and let the intersections of
  the gaze ray be \<open>pre @ x # post\<close>, where the object of \<open>x\<close> has the group named
  \<open>prev\<close> (respectively \<open>next\<close>) as its parent and every intersection in \<open>pre\<close>
  has an object with a parent that is neither group: \<open>x\<close> is the first intersection
  of a button. What follows it is arbitrary, intersections of the other button included.
  Then \<open>prevNextTest\<close> passes its guard. If no dwell timer is pending,
  \<open>prevNextTest\<close> records the start time and queues one timer, due
  \<open>PREV_NEXT_TIMEOUT_MS\<close> = 1000 ms from now, whose handle it keeps in
  \<open>prevNextTimer\<close>; so does the whole animation step. When the browser runs that
  timer, at any later state in which it is still queued and due, \<open>prevNextTimer\<close>
  becomes null, the calls made are one \<open>clearTimeout\<close> and exactly one
  \<open>dispatchEvent\<close> of \<open>stereoImgGoToPrev\<close> (respectively \<open>stereoImgGoToNext\<close>), and
  the timer is gone from the queue. While a timer is pending, \<open>prevNextTest\<close> queues no
  timer, whatever the intersections: no handle is given out and no timer is added, and
  with a button still intersected the timers, the calls and \<open>prevNextTimer\<close> stay as
  they are.
\<close>

theorem prevNextTest_dwell:
  assumes "s = exec env as (constructor env attrs t0)" and "animating s"
    and "c = GoToPrev \<or> c = GoToNext"
    and "intersects = pre @ x # post"
    and "None \<notin> parentName ` set pre"
    and "Some ''prev'' \<notin> parentName ` set pre"
    and "Some ''next'' \<notin> parentName ` set pre"
    and "parentName x = buttonOf c"
  shows "PREV_NEXT_TIMEOUT_MS = 1000 \<and> ready s
    \<and> (\<not> timerPending s \<longrightarrow>
         prevNextTimer (prevNextTest intersects s) = Some (Suc (lastTimerId s))
         \<and> prevNextTimerStartMS (prevNextTest intersects s) = Some (now s)
         \<and> timers (prevNextTest intersects s) =
             timers s @ [\<lparr>tid = Suc (lastTimerId s), due = now s + PREV_NEXT_TIMEOUT_MS, cb = c\<rparr>]
         \<and> effects (prevNextTest intersects s) =
             effects s @ [(now s, SetTimeout (Suc (lastTimerId s)) c PREV_NEXT_TIMEOUT_MS)]
         \<and> prevNextTimer (step env (Frame p intersects) s) = Some (Suc (lastTimerId s))
         \<and> timers (step env (Frame p intersects) s) =
             timers s @ [\<lparr>tid = Suc (lastTimerId s), due = now s + PREV_NEXT_TIMEOUT_MS, cb = c\<rparr>]
         \<and> effects (step env (Frame p intersects) s) =
             effects s @ [(now s, SetTimeout (Suc (lastTimerId s)) c PREV_NEXT_TIMEOUT_MS)]
         \<and> (\<forall>s2. find (\<lambda>t. tid t = Suc (lastTimerId s)) (timers s2) =
                    Some \<lparr>tid = Suc (lastTimerId s), due = now s + PREV_NEXT_TIMEOUT_MS, cb = c\<rparr>
                  \<and> now s + PREV_NEXT_TIMEOUT_MS \<le> now s2 \<longrightarrow>
                prevNextTimer (step env (Fire (Suc (lastTimerId s))) s2) = None
                \<and> effects (step env (Fire (Suc (lastTimerId s))) s2) =
                    effects s2 @ [(now s2, ClearTimeout (prevNextTimer s2)),
                                  (now s2, DispatchEvent (if c = GoToPrev then ''stereoImgGoToPrev''
                                                          else ''stereoImgGoToNext''))]
                \<and> Suc (lastTimerId s) \<notin> tid ` set (timers (step env (Fire (Suc (lastTimerId s))) s2))))
    \<and> (timerPending s \<longrightarrow>
         timers (prevNextTest intersects s) = timers s
         \<and> effects (prevNextTest intersects s) = effects s
         \<and> prevNextTimer (prevNextTest intersects s) = prevNextTimer s
         \<and> (\<forall>xs. lastTimerId (prevNextTest xs s) = lastTimerId s
                \<and> set (timers (prevNextTest xs s)) \<subseteq> set (timers s)))"
proof -
  from reachable_ready [of env as attrs t0] assms(1,2) have rdy: "ready s"
    by blast
  then have r: "scene s \<noteq> None" "camera s \<noteq> None" "raycaster s" "prevNextButtons s \<noteq> None"
    by (simp_all add: ready_def)
  note split = assms(4)
  note hits = assms(3) assms(5-8)
  show ?thesis
  proof (intro conjI impI allI)
    show "PREV_NEXT_TIMEOUT_MS = 1000"
      by (simp add: PREV_NEXT_TIMEOUT_MS_def)
    show "ready s"
      by (rule rdy)
  next
    assume idle: "\<not> timerPending s"
    note st = prevNextTest_decisive [OF r idle hits, of post, folded split]
    show "prevNextTimer (prevNextTest intersects s) = Some (Suc (lastTimerId s))"
      "prevNextTimerStartMS (prevNextTest intersects s) = Some (now s)"
      "timers (prevNextTest intersects s) =
         timers s @ [\<lparr>tid = Suc (lastTimerId s), due = now s + PREV_NEXT_TIMEOUT_MS, cb = c\<rparr>]"
      "effects (prevNextTest intersects s) =
         effects s @ [(now s, SetTimeout (Suc (lastTimerId s)) c PREV_NEXT_TIMEOUT_MS)]"
      by (rule st)+
    note st' = animationFrame_decisive [OF r idle hits, of p post, folded split]
    have e: "step env (Frame p intersects) s = animationFrame p intersects s"
      using assms(2) by simp
    show "prevNextTimer (step env (Frame p intersects) s) = Some (Suc (lastTimerId s))"
      "timers (step env (Frame p intersects) s) =
         timers s @ [\<lparr>tid = Suc (lastTimerId s), due = now s + PREV_NEXT_TIMEOUT_MS, cb = c\<rparr>]"
      "effects (step env (Frame p intersects) s) =
         effects s @ [(now s, SetTimeout (Suc (lastTimerId s)) c PREV_NEXT_TIMEOUT_MS)]"
      unfolding e by (rule st')+
  next
    fix s2 :: stereoImg
    assume "\<not> timerPending s"
      and h: "find (\<lambda>t. tid t = Suc (lastTimerId s)) (timers s2) =
          Some \<lparr>tid = Suc (lastTimerId s), due = now s + PREV_NEXT_TIMEOUT_MS, cb = c\<rparr>
        \<and> now s + PREV_NEXT_TIMEOUT_MS \<le> now s2"
    let ?tm = "\<lparr>tid = Suc (lastTimerId s), due = now s + PREV_NEXT_TIMEOUT_MS, cb = c\<rparr>"
    have ev: "eventOf (cb ?tm) = Some (if c = GoToPrev then ''stereoImgGoToPrev'' else ''stereoImgGoToNext'')"
      using assms(3) by auto
    have due: "due ?tm \<le> now s2"
      using h by simp
    note f = fireTimer_dwell [OF conjunct1 [OF h] due ev, of env]
    show "prevNextTimer (step env (Fire (Suc (lastTimerId s))) s2) = None"
      using f(1) by simp
    show "effects (step env (Fire (Suc (lastTimerId s))) s2) =
        effects s2 @ [(now s2, ClearTimeout (prevNextTimer s2)),
                      (now s2, DispatchEvent (if c = GoToPrev then ''stereoImgGoToPrev''
                                              else ''stereoImgGoToNext''))]"
      using f(2) by simp
    show "Suc (lastTimerId s) \<notin> tid ` set (timers (step env (Fire (Suc (lastTimerId s))) s2))"
      using f(3) by auto
  next
    assume pending: "timerPending s"
    from split have ne: "intersects \<noteq> []" by simp
    show "timers (prevNextTest intersects s) = timers s"
      "effects (prevNextTest intersects s) = effects s"
      "prevNextTimer (prevNextTest intersects s) = prevNextTimer s"
      using prevNextTest_pending(3-5) [OF pending ne] by simp_all
    fix xs
    show "lastTimerId (prevNextTest xs s) = lastTimerId s"
      "set (timers (prevNextTest xs s)) \<subseteq> set (timers s)"
      using prevNextTest_pending(1,2) [OF pending] by simp_all
  qed
qed

theorem prevNextTest_dwell_witness:
  "animating (exec sampleParsers [] (constructor sampleParsers Map.empty 100))
   \<and> \<not> timerPending (exec sampleParsers [] (constructor sampleParsers Map.empty 100))
   \<and> None \<notin> parentName ` set [Some (Object3DRef ''prev'' (Some (Object3DRef [] (Some (Object3DRef ''prev'' None)))))]
   \<and> Some ''prev'' \<notin> parentName ` set [Some (Object3DRef ''prev'' (Some (Object3DRef [] (Some (Object3DRef ''prev'' None)))))]
   \<and> Some ''next'' \<notin> parentName ` set [Some (Object3DRef ''prev'' (Some (Object3DRef [] (Some (Object3DRef ''prev'' None)))))]
   \<and> parentName (Some (Object3DRef [] (Some (Object3DRef ''prev'' None)))) = buttonOf GoToPrev
   \<and> prevNextTimer (prevNextTest
     [Some (Object3DRef ''prev'' (Some (Object3DRef [] (Some (Object3DRef ''prev'' None))))),
      Some (Object3DRef [] (Some (Object3DRef ''prev'' None))),
      Some (Object3DRef [] (Some (Object3DRef ''next'' None)))]
     (exec sampleParsers [] (constructor sampleParsers Map.empty 100))) = Some 1
   \<and> timers (step sampleParsers (Frame (0, 0, 1 / 10)
     [Some (Object3DRef ''prev'' (Some (Object3DRef [] (Some (Object3DRef ''prev'' None))))),
      Some (Object3DRef [] (Some (Object3DRef ''prev'' None))),
      Some (Object3DRef [] (Some (Object3DRef ''next'' None)))])
     (exec sampleParsers [] (constructor sampleParsers Map.empty 100))) = [\<lparr>tid = 1, due = 1100, cb = GoToPrev\<rparr>]
   \<and> find (\<lambda>t. tid t = 1) (timers (exec sampleParsers
     [Frame (0, 0, 1 / 10)
     [Some (Object3DRef ''prev'' (Some (Object3DRef [] (Some (Object3DRef ''prev'' None))))),
      Some (Object3DRef [] (Some (Object3DRef ''prev'' None))),
      Some (Object3DRef [] (Some (Object3DRef ''next'' None)))], Tick 1000]
     (constructor sampleParsers Map.empty 100))) = Some \<lparr>tid = 1, due = 1100, cb = GoToPrev\<rparr>
   \<and> effects (step sampleParsers (Fire 1) (exec sampleParsers
     [Frame (0, 0, 1 / 10)
     [Some (Object3DRef ''prev'' (Some (Object3DRef [] (Some (Object3DRef ''prev'' None))))),
      Some (Object3DRef [] (Some (Object3DRef ''prev'' None))),
      Some (Object3DRef [] (Some (Object3DRef ''next'' None)))], Tick 1000]
     (constructor sampleParsers Map.empty 100)))
       = [(100, SetTimeout 1 GoToPrev 1000), (1100, ClearTimeout (Some 1)),
          (1100, DispatchEvent ''stereoImgGoToPrev'')]
   \<and> prevNextTimer (step sampleParsers (Fire 1) (exec sampleParsers
     [Frame (0, 0, 1 / 10)
     [Some (Object3DRef ''prev'' (Some (Object3DRef [] (Some (Object3DRef ''prev'' None))))),
      Some (Object3DRef [] (Some (Object3DRef ''prev'' None))),
      Some (Object3DRef [] (Some (Object3DRef ''next'' None)))], Tick 1000]
     (constructor sampleParsers Map.empty 100))) = None
   \<and> animating (exec sampleParsers
     [Frame (0, 0, 1 / 10)
     [Some (Object3DRef ''prev'' (Some (Object3DRef [] (Some (Object3DRef ''prev'' None))))),
      Some (Object3DRef [] (Some (Object3DRef ''prev'' None))),
      Some (Object3DRef [] (Some (Object3DRef ''next'' None)))]]
     (constructor sampleParsers Map.empty 100))
   \<and> timerPending (exec sampleParsers
     [Frame (0, 0, 1 / 10)
     [Some (Object3DRef ''prev'' (Some (Object3DRef [] (Some (Object3DRef ''prev'' None))))),
      Some (Object3DRef [] (Some (Object3DRef ''prev'' None))),
      Some (Object3DRef [] (Some (Object3DRef ''next'' None)))]]
     (constructor sampleParsers Map.empty 100))
   \<and> timers (prevNextTest
     [Some (Object3DRef ''prev'' (Some (Object3DRef [] (Some (Object3DRef ''prev'' None))))),
      Some (Object3DRef [] (Some (Object3DRef ''prev'' None))),
      Some (Object3DRef [] (Some (Object3DRef ''next'' None)))]
     (exec sampleParsers
     [Frame (0, 0, 1 / 10)
     [Some (Object3DRef ''prev'' (Some (Object3DRef [] (Some (Object3DRef ''prev'' None))))),
      Some (Object3DRef [] (Some (Object3DRef ''prev'' None))),
      Some (Object3DRef [] (Some (Object3DRef ''next'' None)))]]
     (constructor sampleParsers Map.empty 100))) = [\<lparr>tid = 1, due = 1100, cb = GoToPrev\<rparr>]"
proof -
  let ?W = "constructor sampleParsers Map.empty 100"
  let ?I = "Some (Object3DRef ''prev'' (Some (Object3DRef [] (Some (Object3DRef ''prev'' None)))))"
  let ?P = "Some (Object3DRef [] (Some (Object3DRef ''prev'' None)))"
  let ?N = "Some (Object3DRef [] (Some (Object3DRef ''next'' None)))"
  let ?X = "[?I, ?P, ?N]"
  let ?s0 = "exec sampleParsers [] ?W"
  let ?s1 = "exec sampleParsers [Frame (0, 0, 1 / 10) ?X] ?W"
  let ?s2 = "exec sampleParsers [Frame (0, 0, 1 / 10) ?X, Tick 1000] ?W"
  note W = sample_constructed
  have an0: "animating ?s0"
    by (simp add: W)
  have idle: "\<not> timerPending ?s0"
    by (simp add: timerPending_def W)
  have split: "?X = [?I] @ ?P # [?N]"
    by simp
  have pre: "None \<notin> parentName ` set [?I]" "Some ''prev'' \<notin> parentName ` set [?I]"
    "Some ''next'' \<notin> parentName ` set [?I]"
    by (simp_all add: parentName_def)
  have x: "parentName ?P = buttonOf GoToPrev"
    by (simp add: parentName_def)
  have c: "GoToPrev = GoToPrev \<or> GoToPrev = GoToNext"
    by simp
  note dwell = sample_gaze [OF c pre x, of "(0, 0, 1 / 10)" "[?N]", unfolded append.simps]
  note waited = sample_gaze_waited [OF c pre x, of "(0, 0, 1 / 10)" "[?N]", unfolded append.simps]
  note first = prevNextTest_dwell [OF refl an0 c split pre x, of "(0, 0, 1 / 10)", THEN conjunct2,
      THEN conjunct2, THEN conjunct1, rule_format, OF idle]
  have v: "Suc (lastTimerId ?s0) = 1" "now ?s0 + PREV_NEXT_TIMEOUT_MS = 1100" "timers ?s0 = []"
    by (simp_all add: W PREV_NEXT_TIMEOUT_MS_def)
  from first [THEN conjunct1]
  have a1: "prevNextTimer (prevNextTest ?X ?s0) = Some 1"
    by (simp only: v)
  from first [THEN conjunct2, THEN conjunct2, THEN conjunct2, THEN conjunct2, THEN conjunct2, THEN conjunct1]
  have a2: "timers (step sampleParsers (Frame (0, 0, 1 / 10) ?X) ?s0) = [\<lparr>tid = 1, due = 1100, cb = GoToPrev\<rparr>]"
    by (simp only: v append.simps)
  have f: "find (\<lambda>t. tid t = 1) (timers ?s2) = Some \<lparr>tid = 1, due = 1100, cb = GoToPrev\<rparr>"
    unfolding waited by simp
  have f': "find (\<lambda>t. tid t = Suc (lastTimerId ?s0)) (timers ?s2) =
        Some \<lparr>tid = Suc (lastTimerId ?s0), due = now ?s0 + PREV_NEXT_TIMEOUT_MS, cb = GoToPrev\<rparr>
      \<and> now ?s0 + PREV_NEXT_TIMEOUT_MS \<le> now ?s2"
    unfolding v waited(4) by (intro conjI f order_refl)
  note fired = first [THEN conjunct2, THEN conjunct2, THEN conjunct2, THEN conjunct2, THEN conjunct2,
      THEN conjunct2, THEN conjunct2, rule_format, OF f']
  from fired [THEN conjunct1] have e1: "prevNextTimer (step sampleParsers (Fire 1) ?s2) = None"
    by (simp only: v)
  from fired [THEN conjunct2, THEN conjunct1]
  have e2: "effects (step sampleParsers (Fire 1) ?s2)
       = [(100, SetTimeout 1 GoToPrev 1000), (1100, ClearTimeout (Some 1)),
          (1100, DispatchEvent ''stereoImgGoToPrev'')]"
    by (simp only: v waited append.simps simp_thms if_True)
  have an1: "animating ?s1"
    using ready_step(2) [of sampleParsers "Frame (0, 0, 1 / 10) ?X" ?W] W(5) by simp
  have pending: "timerPending ?s1"
    by (simp only: timerPending_def dwell) simp
  note second = prevNextTest_dwell [OF refl an1 c split pre x, of "(0, 0, 1 / 10)", THEN conjunct2,
      THEN conjunct2, THEN conjunct2, rule_format, OF pending]
  from second [THEN conjunct1]
  have g: "timers (prevNextTest ?X ?s1) = [\<lparr>tid = 1, due = 1100, cb = GoToPrev\<rparr>]"
    by (simp only: dwell)
  from an0 idle pre x a1 a2 f e2 e1 an1 pending g show ?thesis
    by (intro conjI)
qed

text \<open>
  Claim C1 as it was stated fails in a frame whose ray intersects both buttons. With the
  intersection of \<open>prev\<close> before that of \<open>next\<close> and no dwell timer pending, the group
  named \<open>next\<close> is intersected, yet the one timer that \<open>prevNextTest\<close> queues is that of
  \<open>prev\<close>: the loop finds \<open>prevNextTimer\<close> set when it comes to \<open>next\<close>, moves the ring
  to that side and starts nothing. A second later the event is \<open>stereoImgGoToPrev\<close>.
\<close>

theorem prevNextTest_both_hit_counterexample:
  "animating (exec sampleParsers [] (constructor sampleParsers Map.empty 100))
   \<and> \<not> timerPending (exec sampleParsers [] (constructor sampleParsers Map.empty 100))
   \<and> None \<notin> parentName ` set
     [Some (Object3DRef [] (Some (Object3DRef ''prev'' None))),
      Some (Object3DRef [] (Some (Object3DRef ''next'' None)))]
   \<and> buttonOf GoToNext \<in> parentName ` set
     [Some (Object3DRef [] (Some (Object3DRef ''prev'' None))),
      Some (Object3DRef [] (Some (Object3DRef ''next'' None)))]
   \<and> timers (prevNextTest
     [Some (Object3DRef [] (Some (Object3DRef ''prev'' None))),
      Some (Object3DRef [] (Some (Object3DRef ''next'' None)))]
     (exec sampleParsers [] (constructor sampleParsers Map.empty 100))) = [\<lparr>tid = 1, due = 1100, cb = GoToPrev\<rparr>]
   \<and> effects (prevNextTest
     [Some (Object3DRef [] (Some (Object3DRef ''prev'' None))),
      Some (Object3DRef [] (Some (Object3DRef ''next'' None)))]
     (exec sampleParsers [] (constructor sampleParsers Map.empty 100))) = [(100, SetTimeout 1 GoToPrev 1000)]
   \<and> timerRingForPrev (prevNextTest
     [Some (Object3DRef [] (Some (Object3DRef ''prev'' None))),
      Some (Object3DRef [] (Some (Object3DRef ''next'' None)))]
     (exec sampleParsers [] (constructor sampleParsers Map.empty 100))) = Some False
   \<and> timers (step sampleParsers (Frame (0, 0, 1 / 10)
     [Some (Object3DRef [] (Some (Object3DRef ''prev'' None))),
      Some (Object3DRef [] (Some (Object3DRef ''next'' None)))])
     (exec sampleParsers [] (constructor sampleParsers Map.empty 100))) = [\<lparr>tid = 1, due = 1100, cb = GoToPrev\<rparr>]
   \<and> effects (exec sampleParsers
     [Frame (0, 0, 1 / 10)
     [Some (Object3DRef [] (Some (Object3DRef ''prev'' None))),
      Some (Object3DRef [] (Some (Object3DRef ''next'' None)))], Tick 1000, Fire 1]
     (constructor sampleParsers Map.empty 100))
       = [(100, SetTimeout 1 GoToPrev 1000), (1100, ClearTimeout (Some 1)),
          (1100, DispatchEvent ''stereoImgGoToPrev'')]"
proof -
  let ?W = "constructor sampleParsers Map.empty 100"
  let ?P = "Some (Object3DRef [] (Some (Object3DRef ''prev'' None)))"
  let ?N = "Some (Object3DRef [] (Some (Object3DRef ''next'' None)))"
  let ?X = "[?P, ?N]"
  let ?s0 = "exec sampleParsers [] ?W"
  note W = sample_constructed
  have s0: "?s0 = ?W"
    by simp
  have an0: "animating ?s0"
    by (simp add: W)
  have idle: "\<not> timerPending ?W"
    by (simp add: timerPending_def W)
  have idle0: "\<not> timerPending ?s0"
    by (simp add: timerPending_def W)
  have hit: "None \<notin> parentName ` set ?X" "buttonOf GoToNext \<in> parentName ` set ?X"
    by (simp_all add: parentName_def)
  have pre: "None \<notin> parentName ` set []" "Some ''prev'' \<notin> parentName ` set []"
    "Some ''next'' \<notin> parentName ` set []"
    by simp_all
  have x: "parentName ?P = buttonOf GoToPrev"
    by (simp add: parentName_def)
  have c: "GoToPrev = GoToPrev \<or> GoToPrev = GoToNext"
    by simp
  note st = prevNextTest_decisive [OF W(1-4) idle c pre x, of "[?N]", unfolded append.simps]
  have t: "timers (prevNextTest ?X ?s0) = [\<lparr>tid = 1, due = 1100, cb = GoToPrev\<rparr>]"
    unfolding s0 st by (simp add: W PREV_NEXT_TIMEOUT_MS_def)
  have e: "effects (prevNextTest ?X ?s0) = [(100, SetTimeout 1 GoToPrev 1000)]"
    unfolding s0 st by (simp add: W PREV_NEXT_TIMEOUT_MS_def)
  have "prevNextTest ?X ?W = prevNextLoop ?X ?W"
    using W(1-4) by (intro prevNextTest_ready_loop) simp_all
  then have ring: "timerRingForPrev (prevNextTest ?X ?s0) = Some False"
    unfolding s0
    by (simp add: prevNextLoop_Cons parentName_def startDwell_pending timerPending_startDwell)
  have "timers (exec sampleParsers [Frame (0, 0, 1 / 10) ?X] ?W) = [\<lparr>tid = 1, due = 1100, cb = GoToPrev\<rparr>]"
    by (rule sample_gaze(1) [OF c pre x, of "(0, 0, 1 / 10)" "[?N]", unfolded append.simps])
  then have t': "timers (step sampleParsers (Frame (0, 0, 1 / 10) ?X) ?s0)
      = [\<lparr>tid = 1, due = 1100, cb = GoToPrev\<rparr>]"
    by (simp del: step.simps)
  have ev: "eventOf GoToPrev = Some ''stereoImgGoToPrev''"
    by simp
  note fired = sample_gaze_fired(1) [OF c pre x ev, of "(0, 0, 1 / 10)" "[?N]", unfolded append.simps]
  from an0 idle0 hit t e ring t' fired show ?thesis
    by (intro conjI)
qed
end
